(* ===== verification/RG_Prelude.thy ===== *)
theory RG_Prelude
  imports Complex_Main "HOL-Library.Multiset"
begin

section \<open>Prelude: shared collections, list lemmas and the rank-statistic interface\<close>

text \<open>
  What the components share: the named collections their proofs draw on, generic lemmas on lists,
  and the interface of a rank statistic. Three places of the repository pick one element of a sorted
  sample by its index (the demos' P95, \<^verbatim>\<open>pct\<close> of the real-engine benchmark, \<^verbatim>\<open>Percentile\<close> of
  the load generator); the locale \<open>rank_statistic\<close> states what such an index function owes its
  clients and proves once what the picked element is.
\<close>

named_theorems io_simps \<open>evaluation of the writer-exception monad\<close>
named_theorems str_simps \<open>evaluation of the Python string operations\<close>
named_theorems json_simps \<open>evaluation of subscripts and get on decoded JSON\<close>
named_theorems go_simps \<open>unfolding of the gateway's small helpers\<close>

subsection \<open>Lists\<close>

lemma mset_eq_filter_length: "mset xs = mset ys \<Longrightarrow> length (filter P xs) = length (filter P ys)"
  by (metis mset_filter size_mset)

lemma filter_le_sort: "length (filter P (sort xs)) = length (filter P xs)"
  by (rule mset_eq_filter_length) simp

lemma sort_mset_eq: "mset xs = mset ys \<Longrightarrow> sort xs = sort ys"
  by (metis mset_sort properties_for_sort sorted_sort)

lemma sorted_count_le_nth:
  fixes ys :: "'a::linorder list"
  assumes "sorted ys" "i < length ys"
  shows "Suc i \<le> length (filter (\<lambda>y. y \<le> ys ! i) ys)"
proof -
  have "\<forall>y \<in> set (take (Suc i) ys). y \<le> ys ! i"
    using assms by (auto simp: in_set_conv_nth sorted_iff_nth_mono)
  then have "filter (\<lambda>y. y \<le> ys ! i) (take (Suc i) ys) = take (Suc i) ys"
    by (simp add: filter_id_conv)
  then have "length (filter (\<lambda>y. y \<le> ys ! i) (take (Suc i) ys)) = Suc i"
    using assms(2) by simp
  moreover have "length (filter (\<lambda>y. y \<le> ys ! i) (take (Suc i) ys)) \<le> length (filter (\<lambda>y. y \<le> ys ! i) ys)"
    by (metis append_take_drop_id filter_append le_add1 length_append)
  ultimately show ?thesis by simp
qed

lemma sorted_count_ge_nth:
  fixes ys :: "'a::linorder list"
  assumes "sorted ys" "i < length ys"
  shows "length ys - i \<le> length (filter (\<lambda>y. ys ! i \<le> y) ys)"
proof -
  have "\<forall>y \<in> set (drop i ys). ys ! i \<le> y"
    using assms by (auto simp: in_set_conv_nth sorted_iff_nth_mono)
  then have "filter (\<lambda>y. ys ! i \<le> y) (drop i ys) = drop i ys"
    by (simp add: filter_id_conv)
  then have "length (filter (\<lambda>y. ys ! i \<le> y) (drop i ys)) = length ys - i"
    by simp
  moreover have "length (filter (\<lambda>y. ys ! i \<le> y) (drop i ys)) \<le> length (filter (\<lambda>y. ys ! i \<le> y) ys)"
    by (metis append_take_drop_id filter_append le_add2 length_append)
  ultimately show ?thesis by simp
qed

subsection \<open>The rank-statistic interface\<close>

text \<open>
  A client sorts a sample of \<open>n\<close> values and reads the one at index \<open>rank n\<close>. The provider owes it
  that the index is inside the sample.
\<close>

locale rank_statistic =
  fixes rank :: "nat \<Rightarrow> nat"
  assumes rank_less: "0 < n \<Longrightarrow> rank n < n"
begin

lemma rank_in_sorted: "xs \<noteq> [] \<Longrightarrow> rank (length xs) < length (sort xs)"
  by (simp add: rank_less)

lemma picked_in_sample: "xs \<noteq> [] \<Longrightarrow> sort xs ! rank (length xs) \<in> set xs"
  using rank_in_sorted [of xs] by (metis nth_mem set_sort)

lemma picked_count_le:
  "xs \<noteq> [] \<Longrightarrow> Suc (rank (length xs)) \<le> length (filter (\<lambda>x. x \<le> sort xs ! rank (length xs)) xs)"
  using sorted_count_le_nth [of "sort xs" "rank (length xs)"] rank_in_sorted [of xs]
  by (simp add: filter_le_sort)

lemma picked_count_ge:
  "xs \<noteq> [] \<Longrightarrow> length xs - rank (length xs) \<le> length (filter (\<lambda>x. sort xs ! rank (length xs) \<le> x) xs)"
  using sorted_count_ge_nth [of "sort xs" "rank (length xs)"] rank_in_sorted [of xs]
  by (simp add: filter_le_sort)

lemma picked_perm: "mset xs = mset ys \<Longrightarrow> sort xs ! rank (length xs) = sort ys ! rank (length ys)"
  by (metis mset_eq_length sort_mset_eq)

end

end
