(* ===== verification/Py_Str.thy ===== *)
theory Py_Str
  imports RG_Prelude
begin

section \<open>Python strings\<close>

text \<open>
  The operations of Python's \<^verbatim>\<open>str\<close> that the scripts use, on HOL's \<open>string\<close>. A \<open>char\<close> has a code
  below 256, so a string is a Python string over the first 256 code points; on those the definitions
  follow the language reference exactly (white space, line boundaries, case mapping and decimal
  digits included).
\<close>

abbreviation code :: "char \<Rightarrow> nat" where
  "code c \<equiv> of_char c"

definition py_isspace :: "char \<Rightarrow> bool" where
  "py_isspace c = (9 \<le> code c \<and> code c \<le> 13 \<or> 28 \<le> code c \<and> code c \<le> 32 \<or> code c = 133 \<or> code c = 160)"

definition py_isdigit :: "char \<Rightarrow> bool" where
  "py_isdigit c = (48 \<le> code c \<and> code c \<le> 57)"

definition lstrip :: "string \<Rightarrow> string" where
  "lstrip s = dropWhile py_isspace s"

definition rstrip :: "string \<Rightarrow> string" where
  "rstrip s = rev (dropWhile py_isspace (rev s))"

definition strip :: "string \<Rightarrow> string" where
  "strip s = rstrip (lstrip s)"

definition strip_chars :: "string \<Rightarrow> string \<Rightarrow> string" where
  "strip_chars cs s = rev (dropWhile (\<lambda>c. c \<in> set cs) (rev (dropWhile (\<lambda>c. c \<in> set cs) s)))"

definition startswith :: "string \<Rightarrow> string \<Rightarrow> bool" where
  "startswith s p = (take (length p) s = p)"

fun contains :: "string \<Rightarrow> string \<Rightarrow> bool" where
  "contains sub [] = (sub = [])"
| "contains sub (c # cs) = (startswith (c # cs) sub \<or> contains sub cs)"

fun split_by :: "(char \<Rightarrow> bool) \<Rightarrow> string \<Rightarrow> string list" where
  "split_by p [] = [[]]"
| "split_by p (c # cs) =
     (if p c then [] # split_by p cs
      else (case split_by p cs of [] \<Rightarrow> [[c]] | w # ws \<Rightarrow> (c # w) # ws))"

definition split_on :: "char \<Rightarrow> string \<Rightarrow> string list" where
  "split_on sep s = split_by (\<lambda>c. c = sep) s"

definition split_ws :: "string \<Rightarrow> string list" where
  "split_ws s = filter (\<lambda>w. w \<noteq> []) (split_by py_isspace s)"

definition is_linebreak :: "char \<Rightarrow> bool" where
  "is_linebreak c = (10 \<le> code c \<and> code c \<le> 13 \<or> 28 \<le> code c \<and> code c \<le> 30 \<or> code c = 133)"

fun splitlines_from :: "string \<Rightarrow> string \<Rightarrow> string list" where
  "splitlines_from cur [] = (if cur = [] then [] else [rev cur])"
| "splitlines_from cur [c] = [if is_linebreak c then rev cur else rev (c # cur)]"
| "splitlines_from cur (c # d # cs) =
     (if code c = 13 \<and> code d = 10 then rev cur # splitlines_from [] cs
      else if is_linebreak c then rev cur # splitlines_from [] (d # cs)
      else splitlines_from (c # cur) (d # cs))"

definition splitlines :: "string \<Rightarrow> string list" where
  "splitlines s = splitlines_from [] s"

text \<open>\<^verbatim>\<open>s.partition(sep)\<close> and \<^verbatim>\<open>s.rsplit(sep, 1)\<close> for a one-character separator.\<close>

definition partition_on :: "char \<Rightarrow> string \<Rightarrow> string \<times> string \<times> string" where
  "partition_on sep s =
     (let b = takeWhile (\<lambda>c. c \<noteq> sep) s; r = dropWhile (\<lambda>c. c \<noteq> sep) s
      in case r of [] \<Rightarrow> (s, [], []) | x # xs \<Rightarrow> (b, [x], xs))"

definition rsplit1 :: "char \<Rightarrow> string \<Rightarrow> string list" where
  "rsplit1 sep s =
     (let a = takeWhile (\<lambda>c. c \<noteq> sep) (rev s); r = dropWhile (\<lambda>c. c \<noteq> sep) (rev s)
      in case r of [] \<Rightarrow> [s] | x # xs \<Rightarrow> [rev xs, rev a])"

definition remove_char :: "char \<Rightarrow> string \<Rightarrow> string" where
  "remove_char c s = filter (\<lambda>x. x \<noteq> c) s"

text \<open>\<^verbatim>\<open>s.replace(sub, "")\<close> for a non-empty \<open>sub\<close>: occurrences are taken from the left.\<close>

function remove_sub :: "string \<Rightarrow> string \<Rightarrow> string" where
  "remove_sub sub [] = []"
| "remove_sub sub (c # cs) =
     (if sub \<noteq> [] \<and> startswith (c # cs) sub then remove_sub sub (drop (length sub) (c # cs))
      else c # remove_sub sub cs)"
  by pat_completeness auto
termination
  by (relation "measure (\<lambda>(sub, s). length s)") auto

definition lower_char :: "char \<Rightarrow> char" where
  "lower_char c =
     (if 65 \<le> code c \<and> code c \<le> 90 \<or> 192 \<le> code c \<and> code c \<le> 222 \<and> code c \<noteq> 215
      then char_of (code c + 32) else c)"

definition lower :: "string \<Rightarrow> string" where
  "lower s = map lower_char s"

text \<open>\<^verbatim>\<open>os.path.join\<close> of two components and \<^verbatim>\<open>os.path.basename\<close>, on POSIX.\<close>

definition path_join :: "string \<Rightarrow> string \<Rightarrow> string" where
  "path_join a b =
     (if startswith b ''/'' then b
      else if a = [] \<or> last a = CHR ''/'' then a @ b
      else a @ ''/'' @ b)"

definition path_basename :: "string \<Rightarrow> string" where
  "path_basename p = rev (takeWhile (\<lambda>c. c \<noteq> CHR ''/'') (rev p))"

subsection \<open>Decimal numbers\<close>

definition digit_char :: "nat \<Rightarrow> char" where
  "digit_char d = char_of (48 + d)"

definition digit_val :: "char \<Rightarrow> int" where
  "digit_val c = int (code c) - 48"

fun show_nat :: "nat \<Rightarrow> string" where
  "show_nat n = (if n < 10 then [digit_char n] else show_nat (n div 10) @ [digit_char (n mod 10)])"

declare show_nat.simps [simp del]

definition show_int :: "int \<Rightarrow> string" where
  "show_int i = (if i < 0 then ''-'' @ show_nat (nat (- i)) else show_nat (nat i))"

text \<open>
  \<^verbatim>\<open>int(s)\<close>: white space around, an optional sign, digits with single underscores between them.
  \<open>None\<close> stands for the \<^verbatim>\<open>ValueError\<close>.
\<close>

fun int_digits :: "int \<Rightarrow> string \<Rightarrow> int option" where
  "int_digits acc [] = Some acc"
| "int_digits acc (c # cs) =
     (if py_isdigit c then int_digits (10 * acc + digit_val c) cs
      else if c = CHR ''_'' then
        (case cs of d # ds \<Rightarrow> if py_isdigit d then int_digits (10 * acc + digit_val d) ds else None
         | [] \<Rightarrow> None)
      else None)"

definition int_unsigned :: "string \<Rightarrow> int option" where
  "int_unsigned s = (case s of [] \<Rightarrow> None | c # cs \<Rightarrow> if py_isdigit c then int_digits 0 s else None)"

definition py_int :: "string \<Rightarrow> int option" where
  "py_int s =
     (case strip s of
        [] \<Rightarrow> None
      | c # cs \<Rightarrow>
          if c = CHR ''-'' then map_option uminus (int_unsigned cs)
          else if c = CHR ''+'' then int_unsigned cs
          else int_unsigned (c # cs))"

subsection \<open>Lemmas\<close>

lemma split_by_ne [simp]: "split_by p s \<noteq> []"
  by (induction s) (auto split: list.splits)

lemma split_by_no_sep: "\<forall>c \<in> set s. \<not> p c \<Longrightarrow> split_by p s = [s]"
  by (induction s) auto

lemma split_by_append:
  "\<forall>c \<in> set a. \<not> p c \<Longrightarrow> p x \<Longrightarrow> split_by p (a @ x # b) = a # split_by p b"
  by (induction a) (auto split: list.splits)

lemma split_by_pieces: "w \<in> set (split_by p s) \<Longrightarrow> c \<in> set w \<Longrightarrow> \<not> p c \<and> c \<in> set s"
proof (induction s arbitrary: w)
  case (Cons a s)
  then show ?case
    by (cases "split_by p s") (fastforce split: if_splits)+
qed auto

lemma contains_append: "contains sub (a @ sub @ b)"
proof (induction a)
  case Nil
  then show ?case by (cases sub; cases b) (auto simp: startswith_def)
qed auto

lemma contains_nil [simp]: "contains [] s"
  by (cases s) (auto simp: startswith_def)

lemma contains_iff: "contains sub s \<longleftrightarrow> (\<exists>a b. s = a @ sub @ b)"
proof
  assume "contains sub s"
  then show "\<exists>a b. s = a @ sub @ b"
  proof (induction s)
    case Nil
    then show ?case by simp
  next
    case (Cons c cs)
    show ?case
    proof (cases "startswith (c # cs) sub")
      case True
      then have "c # cs = [] @ sub @ drop (length sub) (c # cs)"
        by (simp add: startswith_def del: take_Suc_Cons)
          (metis append_take_drop_id)
      then show ?thesis by blast
    next
      case False
      with Cons obtain a b where "cs = a @ sub @ b" by auto
      then have "c # cs = (c # a) @ sub @ b" by simp
      then show ?thesis by blast
    qed
  qed
qed (auto simp: contains_append)

lemma rsplit1_colon: "x \<notin> set b \<Longrightarrow> rsplit1 x (a @ x # b) = [a, b]"
  by (auto simp: rsplit1_def takeWhile_append dropWhile_append)

lemma rsplit1_none: "x \<notin> set s \<Longrightarrow> rsplit1 x s = [s]"
proof -
  assume "x \<notin> set s"
  then have h: "dropWhile (\<lambda>c. c \<noteq> x) (rev s) = []" by (auto simp: dropWhile_eq_Nil_conv)
  show ?thesis unfolding rsplit1_def Let_def h by simp
qed

lemma partition_on_found: "x \<notin> set a \<Longrightarrow> partition_on x (a @ x # b) = (a, [x], b)"
  by (auto simp: partition_on_def takeWhile_append dropWhile_append)

lemma startswith_append [simp]: "startswith (p @ s) p"
  by (simp add: startswith_def)

lemma remove_sub_absent: "sub \<noteq> [] \<Longrightarrow> hd sub \<notin> set s \<Longrightarrow> remove_sub sub s = s"
  by (induction sub s rule: remove_sub.induct) (auto simp: startswith_def neq_Nil_conv)

lemma remove_sub_front: "sub \<noteq> [] \<Longrightarrow> remove_sub sub (sub @ s) = remove_sub sub s"
proof -
  assume ne: "sub \<noteq> []"
  then obtain c cs where sub: "sub = c # cs" by (cases sub) auto
  then have "startswith (c # cs @ s) sub" using startswith_append [of sub s] by simp
  with sub show ?thesis by simp
qed

lemma remove_sub_skip: "sub \<noteq> [] \<Longrightarrow> hd sub \<notin> set a \<Longrightarrow> remove_sub sub (a @ s) = a @ remove_sub sub s"
  by (induction a) (auto simp: startswith_def neq_Nil_conv)

lemma path_basename_join: "CHR ''/'' \<notin> set b \<Longrightarrow> b \<noteq> [] \<Longrightarrow> path_basename (path_join a b) = b"
proof -
  assume b: "CHR ''/'' \<notin> set b" "b \<noteq> []"
  then have ns: "\<not> startswith b ''/''" by (cases b) (auto simp: startswith_def)
  have tw: "takeWhile (\<lambda>c. c \<noteq> CHR ''/'') (rev b @ x) = rev b @ takeWhile (\<lambda>c. c \<noteq> CHR ''/'') x" for x
    using b(1) by (auto simp: takeWhile_append)
  have last: "takeWhile (\<lambda>c. c \<noteq> CHR ''/'') (rev a) = []" if "a \<noteq> []" "last a = CHR ''/''"
    using that by (cases a rule: rev_cases) auto
  have tw0: "takeWhile (\<lambda>c. c \<noteq> CHR ''/'') (rev b) = rev b"
    using b(1) by (auto simp: takeWhile_eq_all_conv)
  show ?thesis
  proof (cases "a = []")
    case True
    with ns have "path_join a b = b" by (simp add: path_join_def)
    then show ?thesis by (simp only: path_basename_def tw0 rev_rev_ident)
  next
    case False
    with ns last show ?thesis by (auto simp: path_basename_def path_join_def tw)
  qed
qed

text \<open>Lines joined with a line feed after each, as a program prints them.\<close>

definition unlines :: "string list \<Rightarrow> string" where
  "unlines ls = concat (map (\<lambda>l. l @ [CHR 0x0A]) ls)"

lemma splitlines_from_line:
  "\<forall>c \<in> set l. \<not> is_linebreak c \<Longrightarrow>
   splitlines_from cur (l @ CHR 0x0A # s) = (rev cur @ l) # splitlines_from [] s"
proof (induction l arbitrary: cur)
  case Nil
  then show ?case by (cases s) (auto simp: is_linebreak_def)
next
  case (Cons c l)
  then have "\<not> is_linebreak c" "code c \<noteq> 13" by (auto simp: is_linebreak_def)
  moreover have "splitlines_from (c # cur) (l @ CHR 0x0A # s) = (rev (c # cur) @ l) # splitlines_from [] s"
    using Cons by simp
  moreover obtain d t where "l @ CHR 0x0A # s = d # t" by (cases l) auto
  ultimately show ?case by simp
qed

lemma splitlines_unlines:
  "\<forall>l \<in> set ls. \<forall>c \<in> set l. \<not> is_linebreak c \<Longrightarrow> splitlines (unlines ls @ s) = ls @ splitlines s"
proof (induction ls)
  case Nil
  then show ?case by (simp add: unlines_def)
next
  case (Cons l ls)
  then show ?case
    using splitlines_from_line [of l "[]" "unlines ls @ s"]
    by (simp add: unlines_def splitlines_def)
qed

lemma code_digit_char [simp]: "d < 10 \<Longrightarrow> code (digit_char d) = 48 + d"
  by (simp add: digit_char_def)

lemma digit_char_props [simp]:
  assumes "d < 10"
  shows "py_isdigit (digit_char d)" "digit_val (digit_char d) = int d"
  using assms by (auto simp: py_isdigit_def digit_val_def)

lemma show_nat_digits: "c \<in> set (show_nat n) \<Longrightarrow> py_isdigit c"
proof (induction n arbitrary: c rule: show_nat.induct)
  case (1 n)
  then show ?case
    by (cases "n < 10") (auto simp: show_nat.simps [of n])
qed

lemma show_nat_ne [simp]: "show_nat n \<noteq> []"
  by (subst show_nat.simps) simp

lemma int_digits_append:
  "\<forall>c \<in> set a. py_isdigit c \<Longrightarrow>
   int_digits acc (a @ b) = int_digits (foldl (\<lambda>v c. 10 * v + digit_val c) acc a) b"
  by (induction a arbitrary: acc) auto

lemma foldl_show_nat: "foldl (\<lambda>v c. 10 * v + digit_val c) 0 (show_nat n) = int n"
proof (induction n rule: show_nat.induct)
  case (1 n)
  show ?case
  proof (cases "n < 10")
    case True
    then show ?thesis by (simp add: show_nat.simps [of n])
  next
    case False
    then have "foldl (\<lambda>v c. 10 * v + digit_val c) 0 (show_nat (n div 10)) = int (n div 10)"
      using 1 by simp
    with False show ?thesis
      by (simp add: show_nat.simps [of n] zdiv_int zmod_int)
  qed
qed

lemma int_digits_show_nat: "int_digits 0 (show_nat n) = Some (int n)"
  using int_digits_append [of "show_nat n" 0 "[]"] show_nat_digits foldl_show_nat by simp

lemma int_unsigned_show_nat: "int_unsigned (show_nat n) = Some (int n)"
proof -
  obtain c cs where s: "show_nat n = c # cs" by (cases "show_nat n") auto
  then have "py_isdigit c" using show_nat_digits [of c n] by simp
  with s show ?thesis using int_digits_show_nat [of n] by (simp add: int_unsigned_def)
qed

lemma strip_id: "\<forall>c \<in> set s. \<not> py_isspace c \<Longrightarrow> strip s = s"
proof -
  assume h: "\<forall>c \<in> set s. \<not> py_isspace c"
  have "dropWhile py_isspace t = t" if "set t \<subseteq> set s" for t
    using h that by (cases t) auto
  then show ?thesis by (simp add: strip_def lstrip_def rstrip_def)
qed

lemma isdigit_not_space: "py_isdigit c \<Longrightarrow> \<not> py_isspace c"
  by (auto simp: py_isdigit_def py_isspace_def)

lemma py_int_show_nat: "py_int (show_nat n) = Some (int n)"
proof -
  obtain c cs where s: "show_nat n = c # cs" by (cases "show_nat n") auto
  then have d: "py_isdigit c" using show_nat_digits [of c n] by simp
  then have "c \<noteq> CHR ''-''" "c \<noteq> CHR ''+''" by (auto simp: py_isdigit_def)
  moreover have "strip (show_nat n) = show_nat n"
    by (rule strip_id) (auto dest: show_nat_digits isdigit_not_space)
  ultimately show ?thesis using s int_unsigned_show_nat [of n] by (simp add: py_int_def)
qed

lemma show_nat_inject: "show_nat m = show_nat n \<Longrightarrow> m = n"
  by (metis int_digits_show_nat of_nat_eq_iff option.inject)

lemma strip_nil [simp]: "strip [] = []"
  by (simp add: strip_def lstrip_def rstrip_def)

lemmas str_eval [str_simps] =
  strip_def lstrip_def rstrip_def startswith_def py_isspace_def py_isdigit_def is_linebreak_def
  split_on_def split_ws_def splitlines_def partition_on_def rsplit1_def remove_char_def
  strip_chars_def lower_def lower_char_def path_join_def path_basename_def digit_val_def

end
