(* ===== verification/Py_Base.thy ===== *)
theory Py_Base
  imports Py_Str
begin

section \<open>Python values, exceptions and printed output\<close>

text \<open>
  The base layer of the Python models. An exception is a value; a script function that prints and may
  raise is a pair of what it printed and how it ended (\<open>'a io\<close>); decoded JSON is a datatype whose
  subscripts and \<^verbatim>\<open>get\<close> fail as Python's do. What the outside world answers (an HTTP response, the
  output of a subprocess, a clock reading) is an argument of the definition that uses it. Numbers
  read from a clock or divided are exact reals.

  A call of \<^verbatim>\<open>print\<close> is \<open>Print fmt args\<close>: the literal with its replacement fields, and the values the fields take, before
  formatting; with \<^verbatim>\<open>end=""\<close> it is \<open>Put fmt args\<close>. The literals are in ASCII: ticks, crosses and warning signs are written
  \<^verbatim>\<open>[ok]\<close>, \<^verbatim>\<open>[x]\<close> and \<^verbatim>\<open>[!]\<close>, arrows \<^verbatim>\<open>->\<close>, dashes \<^verbatim>\<open>-\<close>, and pictures are left out.
\<close>

datatype exn =
    KeyErr | IndexErr | TypeErr | AttributeErr | ValueErr | JSONDecodeErr | UnicodeDecodeErr
  | FileNotFoundErr | OSErr | RequestErr string | RuntimeErr string | StopIter | StatisticsErr | ImportErr
  | SystemExit int | KeyboardInterrupt

text \<open>\<^verbatim>\<open>except Exception\<close> does not catch \<^verbatim>\<open>SystemExit\<close> and \<^verbatim>\<open>KeyboardInterrupt\<close>.\<close>

fun is_Exception :: "exn \<Rightarrow> bool" where
  "is_Exception (SystemExit _) = False"
| "is_Exception KeyboardInterrupt = False"
| "is_Exception _ = True"

text \<open>\<^verbatim>\<open>except OSError\<close>: the errors of the system calls and of \<^verbatim>\<open>requests\<close>, whose exceptions derive from \<^verbatim>\<open>IOError\<close>.\<close>

fun is_OSError :: "exn \<Rightarrow> bool" where
  "is_OSError FileNotFoundErr = True"
| "is_OSError OSErr = True"
| "is_OSError (RequestErr _) = True"
| "is_OSError _ = False"

datatype json =
    JNull | JBool bool | JInt int | JFloat real | JStr string
  | JArr "json list" | JObj "(string \<times> json) list"

datatype arg = S string | I int | R real | J json | X exn

datatype out = Print string "arg list" | Put string "arg list"

type_synonym 'a res = "exn + 'a"
type_synonym 'a io = "out list \<times> (exn + 'a)"

subsection \<open>Results\<close>

definition res_bind :: "'a res \<Rightarrow> ('a \<Rightarrow> 'b res) \<Rightarrow> 'b res" where
  "res_bind r f = (case r of Inl e \<Rightarrow> Inl e | Inr x \<Rightarrow> f x)"

definition of_opt :: "exn \<Rightarrow> 'a option \<Rightarrow> 'a res" where
  "of_opt e x = (case x of None \<Rightarrow> Inl e | Some v \<Rightarrow> Inr v)"

lemma res_bind_simps [simp, io_simps]:
  "res_bind (Inl e) f = Inl e" "res_bind (Inr x) f = f x"
  by (simp_all add: res_bind_def)

lemma res_bind_Inr_iff: "res_bind r f = Inr y \<longleftrightarrow> (\<exists>x. r = Inr x \<and> f x = Inr y)"
  by (cases r) auto

lemma res_bind_assoc: "res_bind (res_bind r f) g = res_bind r (\<lambda>x. res_bind (f x) g)"
  by (cases r) auto

lemma of_opt_simps [simp, io_simps]: "of_opt e None = Inl e" "of_opt e (Some v) = Inr v"
  by (simp_all add: of_opt_def)

subsection \<open>Output and exceptions\<close>

definition io_return :: "'a \<Rightarrow> 'a io" where
  "io_return x = ([], Inr x)"

definition io_raise :: "exn \<Rightarrow> 'a io" where
  "io_raise e = ([], Inl e)"

definition io_lift :: "'a res \<Rightarrow> 'a io" where
  "io_lift r = ([], r)"

definition io_print :: "string \<Rightarrow> arg list \<Rightarrow> unit io" where
  "io_print fmt args = ([Print fmt args], Inr ())"

definition io_bind :: "'a io \<Rightarrow> ('a \<Rightarrow> 'b io) \<Rightarrow> 'b io" where
  "io_bind m f = (case snd m of Inl e \<Rightarrow> (fst m, Inl e) | Inr x \<Rightarrow> (fst m @ fst (f x), snd (f x)))"

definition io_then :: "'a io \<Rightarrow> 'b io \<Rightarrow> 'b io" where
  "io_then m n = io_bind m (\<lambda>_. n)"

definition io_try :: "'a io \<Rightarrow> (exn \<Rightarrow> 'a io) \<Rightarrow> 'a io" where
  "io_try m h =
     (case snd m of
        Inl e \<Rightarrow> if is_Exception e then (fst m @ fst (h e), snd (h e)) else m
      | Inr x \<Rightarrow> m)"

definition io_when :: "bool \<Rightarrow> unit io \<Rightarrow> unit io" where
  "io_when b m = (if b then m else io_return ())"

fun io_prints :: "out list \<Rightarrow> unit io" where
  "io_prints os = (os, Inr ())"

text \<open>Fixed lines: a ruler (\<^verbatim>\<open>"=" * 60\<close>), a thin ruler, a text in single quotes, lines printed one after the other, and lines between two rulers after an empty line.\<close>

definition ruler :: string where
  "ruler = replicate 60 (CHR ''='')"

definition dashes :: "nat \<Rightarrow> string" where
  "dashes n = replicate n (CHR ''-'')"

definition quoted :: "string \<Rightarrow> string" where
  "quoted s = [CHR 0x27] @ s @ [CHR 0x27]"

definition say :: "string list \<Rightarrow> unit io" where
  "say ls = io_prints (map (\<lambda>l. Print l []) ls)"

definition heading :: "string list \<Rightarrow> unit io" where
  "heading ls = say ((''\<newline>'' @ ruler) # ls @ [ruler])"

text \<open>The value a computation ends with, and what it printed.\<close>

abbreviation result :: "'a io \<Rightarrow> 'a res" where
  "result m \<equiv> snd m"

abbreviation printed :: "'a io \<Rightarrow> out list" where
  "printed m \<equiv> fst m"

lemma io_simps_basic [io_simps]:
  "io_bind (os, Inl e) f = (os, Inl e)"
  "io_bind (os, Inr x) f = (os @ fst (f x), snd (f x))"
  "io_then m n = io_bind m (\<lambda>_. n)"
  "io_return y = ([], Inr y)"
  "io_raise e = ([], Inl e)"
  "io_lift r = ([], r)"
  "io_print fmt args = ([Print fmt args], Inr ())"
  "io_when b u = (if b then u else ([], Inr ()))"
  "say ls = (map (\<lambda>l. Print l []) ls, Inr ())"
  by (simp_all add: io_bind_def io_then_def io_return_def io_raise_def io_lift_def io_print_def
      io_when_def say_def)

lemma result_simps [simp]:
  "result (io_return x) = Inr x"
  "result (io_raise e) = Inl e"
  "result (io_lift r) = r"
  "result (io_print fmt args) = Inr ()"
  "result (io_bind m f) = res_bind (result m) (\<lambda>x. result (f x))"
  "result (io_then m' n) = res_bind (result m') (\<lambda>_. result n)"
  "result (io_when b u) = (if b then result u else Inr ())"
  "result (io_prints os) = Inr ()"
  "result (say ls) = Inr ()"
  "result (heading ls) = Inr ()"
  by (auto simp: io_return_def io_raise_def io_lift_def io_print_def io_bind_def io_then_def
      io_when_def say_def heading_def split: sum.splits)

lemma result_io_try:
  "result (io_try m h) =
     (case result m of Inl e \<Rightarrow> if is_Exception e then result (h e) else Inl e | Inr x \<Rightarrow> Inr x)"
  by (auto simp: io_try_def split: sum.splits)

lemma result_io_try_simps [simp]:
  "result m = Inr x \<Longrightarrow> result (io_try m h) = Inr x"
  "result m = Inl e \<Longrightarrow> is_Exception e \<Longrightarrow> result (io_try m h) = result (h e)"
  "result m = Inl e \<Longrightarrow> \<not> is_Exception e \<Longrightarrow> result (io_try m h) = Inl e"
  by (simp_all add: result_io_try)

lemma printed_simps [simp]:
  "printed (io_return x) = []"
  "printed (io_raise e) = []"
  "printed (io_lift r) = []"
  "printed (io_print fmt args) = [Print fmt args]"
  "printed (say ls) = map (\<lambda>l. Print l []) ls"
  by (simp_all add: io_return_def io_raise_def io_lift_def io_print_def say_def)

text \<open>A handler that cannot raise leaves only what \<^verbatim>\<open>except Exception\<close> does not catch.\<close>

lemma io_try_no_Exception:
  assumes "\<And>e. is_Exception e \<Longrightarrow> \<exists>y. result (h e) = Inr y" "result (io_try m h) = Inl e"
  shows "\<not> is_Exception e"
  using assms by (fastforce simp: result_io_try split: sum.splits if_splits)

subsection \<open>JSON values\<close>

fun py_get :: "json \<Rightarrow> string \<Rightarrow> json \<Rightarrow> json res" where
  "py_get (JObj kv) k d = Inr (case map_of kv k of None \<Rightarrow> d | Some v \<Rightarrow> v)"
| "py_get _ k d = Inl AttributeErr"

fun py_item :: "json \<Rightarrow> string \<Rightarrow> json res" where
  "py_item (JObj kv) k = of_opt KeyErr (map_of kv k)"
| "py_item _ k = Inl TypeErr"

fun py_first :: "json \<Rightarrow> json res" where
  "py_first (JArr []) = Inl IndexErr"
| "py_first (JArr (x # _)) = Inr x"
| "py_first (JStr []) = Inl IndexErr"
| "py_first (JStr (c # _)) = Inr (JStr [c])"
| "py_first (JObj kv) = Inl KeyErr"
| "py_first _ = Inl TypeErr"

fun truthy :: "json \<Rightarrow> bool" where
  "truthy JNull = False"
| "truthy (JBool b) = b"
| "truthy (JInt i) = (i \<noteq> 0)"
| "truthy (JFloat r) = (r \<noteq> 0)"
| "truthy (JStr s) = (s \<noteq> [])"
| "truthy (JArr xs) = (xs \<noteq> [])"
| "truthy (JObj kv) = (kv \<noteq> [])"

text \<open>\<^verbatim>\<open>isinstance(v, int)\<close>: a Python \<^verbatim>\<open>bool\<close> is an \<^verbatim>\<open>int\<close>. \<^verbatim>\<open>v > 1\<close> raises on non-numbers.\<close>

fun is_int :: "json \<Rightarrow> bool" where
  "is_int (JInt _) = True"
| "is_int (JBool _) = True"
| "is_int _ = False"

fun py_gt1 :: "json \<Rightarrow> bool res" where
  "py_gt1 (JInt i) = Inr (i > 1)"
| "py_gt1 (JBool b) = Inr False"
| "py_gt1 (JFloat r) = Inr (r > 1)"
| "py_gt1 _ = Inl TypeErr"

definition py_or :: "json \<Rightarrow> json \<Rightarrow> json" where
  "py_or a b = (if truthy a then a else b)"

text \<open>The number a value stands for in arithmetic.\<close>

fun json_num :: "json \<Rightarrow> real res" where
  "json_num (JInt i) = Inr (real_of_int i)"
| "json_num (JBool b) = Inr (if b then 1 else 0)"
| "json_num (JFloat r) = Inr r"
| "json_num _ = Inl TypeErr"

lemmas json_eval [json_simps] = of_opt_def py_or_def

subsection \<open>HTTP responses\<close>

text \<open>
  What a call of the \<^verbatim>\<open>requests\<close> package gives back: the status, what \<^verbatim>\<open>.json()\<close> returns or raises and
  the body text. A call that raises is \<open>Inl\<close> of the exception.
\<close>

record response =
  status_code :: int
  json_of :: "json res"
  body_text :: string

type_synonym call = "response res"

text \<open>A call whose failures are of the kind \<^verbatim>\<open>except Exception\<close> catches (no interrupt during it).\<close>

definition call_ends :: "call \<Rightarrow> bool" where
  "call_ends c =
     (case c of
        Inl e \<Rightarrow> is_Exception e
      | Inr r \<Rightarrow> (case json_of r of Inl e \<Rightarrow> is_Exception e | Inr _ \<Rightarrow> True))"

lemma call_ends_cases:
  assumes "call_ends c"
  obtains (raised) e where "c = Inl e" "is_Exception e"
    | (no_json) r e where "c = Inr r" "json_of r = Inl e" "is_Exception e"
    | (json) r j where "c = Inr r" "json_of r = Inr j"
  using assms by (auto simp: call_ends_def split: sum.splits)

subsection \<open>Statistics\<close>

text \<open>\<^verbatim>\<open>statistics.median\<close>: the middle of the sorted sample, or the mean of the two middle values.\<close>

definition median :: "real list \<Rightarrow> real res" where
  "median xs =
     (let n = length xs; s = sort xs
      in if n = 0 then Inl StatisticsErr
         else if odd n then Inr (s ! (n div 2))
         else Inr ((s ! (n div 2 - 1) + s ! (n div 2)) / 2))"

lemma median_ok: "xs \<noteq> [] \<Longrightarrow> \<exists>m. median xs = Inr m"
proof (cases "median xs")
  case (Inl e)
  then show "xs \<noteq> [] \<Longrightarrow> ?thesis" by (auto simp: median_def Let_def split: if_splits)
qed blast

lemma median_between:
  assumes "median xs = Inr m" "\<forall>x \<in> set xs. a \<le> x \<and> x \<le> b"
  shows "a \<le> m \<and> m \<le> b"
proof -
  have ne: "xs \<noteq> []" using assms(1) by (auto simp: median_def Let_def)
  have nth: "a \<le> sort xs ! i \<and> sort xs ! i \<le> b" if "i < length xs" for i
    using assms(2) that by (metis length_sort nth_mem set_sort)
  have "length xs div 2 < length xs" "length xs div 2 - 1 < length xs"
    using ne by (cases xs; simp; arith)+
  then have "a \<le> sort xs ! (length xs div 2) \<and> sort xs ! (length xs div 2) \<le> b"
    "a \<le> sort xs ! (length xs div 2 - 1) \<and> sort xs ! (length xs div 2 - 1) \<le> b"
    using nth by blast+
  then show ?thesis using assms(1) by (auto simp: median_def Let_def split: if_splits)
qed

end
