(* ===== verification/Py_Regex.thy ===== *)
theory Py_Regex
  imports Py_Base
begin

section \<open>Regular expressions\<close>

text \<open>
  The part of Python's \<^verbatim>\<open>re\<close> that the scripts use: literals with \<^verbatim>\<open>re.IGNORECASE\<close>, character classes,
  greedy repetition of a class, alternation, groups and word boundaries. A match gives all ways to
  match at a position, in the order backtracking tries them, so the first is the one Python reports;
  \<open>re_search\<close> tries the positions from the left.
\<close>

datatype regex =
    Eps
  | Chr "char \<Rightarrow> bool"
  | Plus "char \<Rightarrow> bool"
  | Seq regex regex
  | Alt regex regex
  | Grp nat regex
  | WordB

definition is_word :: "char \<Rightarrow> bool" where
  "is_word c =
     (let n = code c
      in 48 \<le> n \<and> n \<le> 57 \<or> 65 \<le> n \<and> n \<le> 90 \<or> n = 95 \<or> 97 \<le> n \<and> n \<le> 122
       \<or> n = 170 \<or> n = 178 \<or> n = 179 \<or> n = 181 \<or> n = 185 \<or> n = 186 \<or> 188 \<le> n \<and> n \<le> 190
       \<or> 192 \<le> n \<and> n \<le> 214 \<or> 216 \<le> n \<and> n \<le> 246 \<or> 248 \<le> n)"

text \<open>A matching state: the character before the position, the text from it on, and the groups so far.\<close>

type_synonym mstate = "char option \<times> string \<times> (nat \<times> string) list"

definition at_boundary :: "char option \<Rightarrow> string \<Rightarrow> bool" where
  "at_boundary pv s =
     ((case pv of None \<Rightarrow> False | Some c \<Rightarrow> is_word c) \<noteq> (case s of [] \<Rightarrow> False | c # _ \<Rightarrow> is_word c))"

fun re_match :: "regex \<Rightarrow> mstate \<Rightarrow> mstate list" where
  "re_match Eps st = [st]"
| "re_match (Chr p) (pv, s, cs) = (case s of [] \<Rightarrow> [] | c # t \<Rightarrow> if p c then [(Some c, t, cs)] else [])"
| "re_match (Plus p) (pv, s, cs) =
     map (\<lambda>k. (Some (s ! (k - 1)), drop k s, cs)) (rev [1..<Suc (length (takeWhile p s))])"
| "re_match (Seq a b) st = concat (map (re_match b) (re_match a st))"
| "re_match (Alt a b) st = re_match a st @ re_match b st"
| "re_match (Grp n r) (pv, s, cs) =
     map (\<lambda>(pv', s', cs'). (pv', s', (n, take (length s - length s') s) # cs')) (re_match r (pv, s, cs))"
| "re_match WordB (pv, s, cs) = (if at_boundary pv s then [(pv, s, cs)] else [])"

fun re_search_from :: "regex \<Rightarrow> char option \<Rightarrow> string \<Rightarrow> (nat \<times> string) list option" where
  "re_search_from r pv [] =
     (case re_match r (pv, [], []) of [] \<Rightarrow> None | m # _ \<Rightarrow> Some (snd (snd m)))"
| "re_search_from r pv (c # s) =
     (case re_match r (pv, c # s, []) of
        [] \<Rightarrow> re_search_from r (Some c) s
      | m # _ \<Rightarrow> Some (snd (snd m)))"

definition re_search :: "regex \<Rightarrow> string \<Rightarrow> (nat \<times> string) list option" where
  "re_search r s = re_search_from r None s"

text \<open>A literal, compared without case.\<close>

fun lit_ci :: "string \<Rightarrow> regex" where
  "lit_ci [] = Eps"
| "lit_ci (c # cs) = Seq (Chr (\<lambda>x. lower_char x = lower_char c)) (lit_ci cs)"

fun lit :: "string \<Rightarrow> regex" where
  "lit [] = Eps"
| "lit (c # cs) = Seq (Chr (\<lambda>x. x = c)) (lit cs)"

definition one_of :: "string \<Rightarrow> regex" where
  "one_of cs = Chr (\<lambda>x. x \<in> set cs)"

subsection \<open>Lemmas\<close>

text \<open>The position after a literal: its last character is the one before.\<close>

definition pv_after :: "char option \<Rightarrow> string \<Rightarrow> char option" where
  "pv_after pv w = (if w = [] then pv else Some (last w))"

lemma re_match_lit_ci: "re_match (lit_ci w) (pv, w @ s, cs) = [(pv_after pv w, s, cs)]"
  by (induction w arbitrary: pv) (auto simp: pv_after_def)

lemma re_match_lit: "re_match (lit w) (pv, w @ s, cs) = [(pv_after pv w, s, cs)]"
  by (induction w arbitrary: pv) (auto simp: pv_after_def)

lemma re_match_Plus:
  assumes "w \<noteq> []" "\<forall>c \<in> set w. p c" "case s of [] \<Rightarrow> True | c # _ \<Rightarrow> \<not> p c"
  shows "\<exists>ms. re_match (Plus p) (pv, w @ s, cs) = (Some (last w), s, cs) # ms"
proof -
  have tw: "takeWhile p (w @ s) = w"
    using assms(2,3) by (cases s) (auto simp: takeWhile_append)
  have "rev [1..<Suc (length w)] = length w # rev [1..<length w]"
    using assms(1) by (simp add: Suc_leI)
  then have "re_match (Plus p) (pv, w @ s, cs) =
      (Some ((w @ s) ! (length w - 1)), s, cs) # map (\<lambda>k. (Some ((w @ s) ! (k - 1)), drop k (w @ s), cs)) (rev [1..<length w])"
    by (simp only: re_match.simps tw) simp
  moreover have "(w @ s) ! (length w - 1) = last w"
    using assms(1) by (simp add: nth_append last_conv_nth)
  ultimately show ?thesis by simp
qed

declare re_match.simps(3) [simp del, str_simps]

text \<open>A position where nothing matches is passed over.\<close>

lemma re_search_from_skip:
  assumes "\<forall>i < length a. re_match r (if i = 0 then pv else Some (a ! (i - 1)), drop i a @ s, []) = []"
  shows "re_search_from r pv (a @ s) = re_search_from r (pv_after pv a) s"
  using assms
proof (induction a arbitrary: pv)
  case Nil
  then show ?case by (simp add: pv_after_def)
next
  case (Cons c a)
  have h0: "re_match r (pv, c # a @ s, []) = []" using Cons.prems by (auto dest: spec [where x = 0])
  have "\<forall>i < length a. re_match r (if i = 0 then Some c else Some (a ! (i - 1)), drop i a @ s, []) = []"
  proof (intro allI impI)
    fix i assume "i < length a"
    then have "re_match r (Some ((c # a) ! i), drop i a @ s, []) = []"
      using Cons.prems by (auto dest: spec [where x = "Suc i"])
    then show "re_match r (if i = 0 then Some c else Some (a ! (i - 1)), drop i a @ s, []) = []"
      by (cases i) auto
  qed
  from Cons.IH [OF this] h0 show ?case
    by (auto simp: pv_after_def)
qed

text \<open>No match starts in \<open>a\<close> when \<open>s\<close> follows it.\<close>

definition no_match_before :: "regex \<Rightarrow> string \<Rightarrow> string \<Rightarrow> bool" where
  "no_match_before r a s =
     list_all (\<lambda>i. re_match r (if i = 0 then None else Some (a ! (i - 1)), drop i a @ s, []) = []) [0..<length a]"

lemma re_search_after: "no_match_before r a s \<Longrightarrow> re_search r (a @ s) = re_search_from r (pv_after None a) s"
  unfolding re_search_def by (intro re_search_from_skip) (auto simp: no_match_before_def list_all_iff)

end
