(* ===== verification/Demo_Checks.thy ===== *)
theory Demo_Checks
  imports Py_Regex
begin

section \<open>Verification steps of the demos\<close>

text \<open>
  Models the checks the demos make before they measure: the gateway's mode, the tensor-parallel and
  expert-parallel size (\<^verbatim>\<open>check_tp_active\<close>, \<^verbatim>\<open>check_ep_active\<close>), the health of the data-parallel workers,
  GPU memory and the scan of the container log. The answers of the gateway, of SGLang and of
  \<^verbatim>\<open>nvidia-smi\<close> and the launch logs on disk are arguments.
\<close>

subsection \<open>The gateway\<close>

definition gateway_mode :: "call \<Rightarrow> json res" where
  "gateway_mode health = res_bind health (\<lambda>r. res_bind (json_of r) (\<lambda>j. py_get j ''mode'' (JStr ''unknown'')))"


definition unreachable :: "exn \<Rightarrow> unit io" where
  "unreachable e = io_then (io_print ''[x] Cannot reach gateway: {}'' [X e]) (io_raise (SystemExit 1))"

text \<open>\<^verbatim>\<open>tp_demo\<close>, \<^verbatim>\<open>ep_demo\<close> and \<^verbatim>\<open>dp_demo\<close> accept any mode.\<close>

definition check_gateway :: "call \<Rightarrow> unit io" where
  "check_gateway health =
     io_try (io_bind (io_lift (gateway_mode health)) (\<lambda>mode. io_print ''[ok] Gateway: mode={!r}'' [J mode])) unreachable"

definition ep_check_gateway :: "call \<Rightarrow> unit io" where
  "ep_check_gateway health =
     io_try (io_bind (io_lift (gateway_mode health)) (\<lambda>mode. io_print ''[ok] Gateway: mode={!r}'' [J mode])) unreachable"

definition dp_check_gateway :: "call \<Rightarrow> unit io" where
  "dp_check_gateway health =
     io_try (io_bind (io_lift (gateway_mode health)) (\<lambda>mode. io_print ''[ok] Gateway: mode={!r}'' [J mode])) unreachable"

definition pd_check_gateway :: "call \<Rightarrow> unit io" where
  "pd_check_gateway health =
     io_try
       (io_bind (io_lift (gateway_mode health)) (\<lambda>mode.
        io_then (io_print ''[ok] Gateway: mode={!r}'' [J mode])
          (io_when (mode \<noteq> JStr ''direct'')
             (io_then (io_print ''[!]  Gateway must use routing_mode=direct with sglang_instances pointing to the decode server'' [])
                (io_raise (SystemExit 1))))))
       unreachable"

text \<open>\<^verbatim>\<open>streaming_demo\<close> also names the address it tried.\<close>

definition unreachable_at :: "string \<Rightarrow> exn \<Rightarrow> unit io" where
  "unreachable_at url e = io_then (io_print ''[x] Cannot reach gateway ({}): {}'' [S url, X e]) (io_raise (SystemExit 1))"

definition check_mode :: "string \<Rightarrow> call \<Rightarrow> unit io" where
  "check_mode url health =
     io_try
       (io_bind (io_lift (gateway_mode health)) (\<lambda>mode.
        io_when (mode \<noteq> JStr ''direct'')
          (io_then (io_print (''[!]  Gateway mode is {!r}; expected '' @ quoted ''direct'') [J mode])
          (io_then (io_print ''   Restart with ROUTING_MODE=direct docker compose up'' [])
             (io_raise (SystemExit 1))))))
       (unreachable_at url)"

definition enterprise_check_mode :: "call \<Rightarrow> unit io" where
  "enterprise_check_mode health =
     io_try
       (io_bind (io_lift (gateway_mode health)) (\<lambda>mode.
        if mode \<noteq> JStr ''direct''
        then io_then (io_print (''[!]  Current mode is {!r}; this demo requires '' @ quoted ''direct'') [J mode])
               (io_then (io_print ''   Restart with ROUTING_MODE=direct docker compose up'' [])
                  (io_raise (SystemExit 1)))
        else io_print ''[ok] Gateway mode: {!r} (no Kafka or worker tier)'' [J mode]))
       unreachable"

subsection \<open>Sizes in a launch log\<close>

definition sep_re :: regex where
  "sep_re = one_of ''_-''"

definition eq_re :: regex where
  "eq_re = Plus (\<lambda>c. c = CHR ''='' \<or> c = CHR '':'' \<or> py_isspace c)"

definition num_re :: "nat \<Rightarrow> regex" where
  "num_re n = Grp n (Plus py_isdigit)"

text \<open>\<^verbatim>\<open>\btp_size=(\d+)|tensor[_-]parallel[_-]size[=:\s]+(\d+)\<close> and the same for \<^verbatim>\<open>ep_size\<close> and \<^verbatim>\<open>expert\<close>.\<close>

definition size_re :: "string \<Rightarrow> string \<Rightarrow> regex" where
  "size_re short word =
     Alt (Seq WordB (Seq (lit_ci (short @ ''='')) (num_re 1)))
         (Seq (lit_ci word) (Seq sep_re (Seq (lit_ci ''parallel'') (Seq sep_re (Seq (lit_ci ''size'') (Seq eq_re (num_re 2)))))))"

definition tp_re :: regex where
  "tp_re = size_re ''tp_size'' ''tensor''"

definition ep_re :: regex where
  "ep_re = size_re ''ep_size'' ''expert''"

text \<open>\<^verbatim>\<open>model[_-]path[=:\s]+(\S+)\<close> in \<^verbatim>\<open>tp_demo\<close>, \<^verbatim>\<open>model_path='([^']+)'\<close> in \<^verbatim>\<open>ep_demo\<close>.\<close>

definition tp_path_re :: regex where
  "tp_path_re = Seq (lit_ci ''model'') (Seq sep_re (Seq (lit_ci ''path'') (Seq eq_re (Grp 1 (Plus (\<lambda>c. \<not> py_isspace c))))))"

definition ep_path_re :: regex where
  "ep_path_re =
     Seq (lit (''model_path='' @ [CHR 0x27])) (Seq (Grp 1 (Plus (\<lambda>c. c \<noteq> CHR 0x27))) (lit [CHR 0x27]))"

text \<open>\<^verbatim>\<open>int(m.group(1) or m.group(2))\<close>; \<open>None\<close> when there is no match.\<close>

definition find_size :: "regex \<Rightarrow> string \<Rightarrow> int res option" where
  "find_size r content =
     (case re_search r content of
        None \<Rightarrow> None
      | Some caps \<Rightarrow>
          Some (of_opt ValueErr (Option.bind (case map_of caps 1 of Some d \<Rightarrow> Some d | None \<Rightarrow> map_of caps 2) py_int)))"

record sglang_env =
  sglang_url :: string
  server_args :: call
  model_info :: call
  sglang_log :: string
  log_files :: "string \<Rightarrow> string res option"

subsection \<open>Tensor parallelism\<close>

text \<open>Each step returns \<^verbatim>\<open>tp_size_found\<close> and \<^verbatim>\<open>model_path\<close>; \<open>JNull\<close> is Python's \<^verbatim>\<open>None\<close>.\<close>

definition tp_from_args :: "call \<Rightarrow> (json \<times> json) io" where
  "tp_from_args c =
     io_try
       (io_bind (io_lift c) (\<lambda>r.
        if status_code r = 200
        then io_bind (io_lift (json_of r)) (\<lambda>args.
             io_bind (io_lift (py_get args ''tp_size'' JNull)) (\<lambda>d1.
             io_bind (io_lift (py_get args ''tensor_parallel_size'' d1)) (\<lambda>tp.
             io_bind (io_lift (py_get args ''model'' (JStr ''?''))) (\<lambda>d2.
             io_bind (io_lift (py_get args ''model_path'' d2)) (\<lambda>mp.
             io_then (io_when (tp \<noteq> JNull) (io_print ''  source                : /get_server_args (SGLang 0.4.x)'' []))
               (io_return (tp, mp)))))))
        else io_return (JNull, JStr ''?'')))
       (\<lambda>e. io_return (JNull, JStr ''?''))"

fun tp_log_loop :: "(string \<Rightarrow> string res option) \<Rightarrow> string list \<Rightarrow> json \<Rightarrow> (json \<times> json) io" where
  "tp_log_loop fls [] mp = io_return (JNull, mp)"
| "tp_log_loop fls (p # ps) mp =
     (if p = [] then tp_log_loop fls ps mp
      else case fls p of
             None \<Rightarrow> tp_log_loop fls ps mp
           | Some (Inl e) \<Rightarrow> if is_Exception e then tp_log_loop fls ps mp else io_raise e
           | Some (Inr txt') \<Rightarrow>
               (let content = take 65536 txt'
                in case find_size tp_re content of
                     None \<Rightarrow> tp_log_loop fls ps mp
                   | Some (Inl e) \<Rightarrow> tp_log_loop fls ps mp
                   | Some (Inr n) \<Rightarrow>
                       io_then (io_print ''  source                : log file ({})'' [S p])
                         (io_return (JInt n,
                            case re_search tp_path_re content of
                              None \<Rightarrow> mp
                            | Some caps \<Rightarrow>
                                if mp = JStr ''?''
                                then JStr (strip_chars [CHR 0x27, CHR 0x22] (case map_of caps 1 of None \<Rightarrow> [] | Some g \<Rightarrow> g))
                                else mp))))"

definition tp_from_info :: "call \<Rightarrow> json \<times> json \<Rightarrow> (json \<times> json) io" where
  "tp_from_info c old =
     io_try
       (io_bind (io_lift c) (\<lambda>r.
        if status_code r = 200
        then io_bind (io_lift (json_of r)) (\<lambda>info.
             io_bind (io_lift (py_get info ''model_path'' (JStr ''?''))) (\<lambda>mp'.
             io_bind (io_lift (py_get info ''tensor_parallel_size'' JNull)) (\<lambda>d.
             io_bind (io_lift (py_get info ''tp_size'' d)) (\<lambda>tp'.
             let mp = (if snd old = JStr ''?'' then mp' else snd old)
             in if tp' \<noteq> JNull \<and> fst old = JNull
                then io_then (io_print ''  source                : /get_model_info'' []) (io_return (tp', mp))
                else io_return (fst old, mp)))))
        else io_return old))
       (\<lambda>e. io_return old)"

definition tp_size_ok :: "json \<Rightarrow> bool" where
  "tp_size_ok v = (is_int v \<and> (case py_gt1 v of Inr b \<Rightarrow> b | Inl e \<Rightarrow> False))"

definition tp_log_candidates :: "string \<Rightarrow> string list" where
  "tp_log_candidates var = [var, ''/tmp/sglang_tp.log'', ''/tmp/sglang.log'']"

definition check_tp_active :: "sglang_env \<Rightarrow> (bool \<times> json) io" where
  "check_tp_active env =
     io_then (heading [''TP validation - SGLang server parameters''])
     (io_bind (tp_from_args (server_args env)) (\<lambda>s1.
      io_bind (if fst s1 = JNull
               then tp_log_loop (log_files env) (tp_log_candidates (sglang_log env)) (snd s1)
               else io_return s1) (\<lambda>s2.
      io_bind (tp_from_info (model_info env) s2) (\<lambda>(tp, mp).
      io_then (io_print ''  endpoint              : {}'' [S (sglang_url env)])
     (io_then (io_print ''  model_path            : {}'' [J mp])
     (io_then (if tp \<noteq> JNull
               then io_print (if tp_size_ok tp then ''  tensor_parallel_size  : {}   [ok] TP enabled''
                              else ''  tensor_parallel_size  : {}   [!]  single-GPU mode (tp=1)'') [J tp]
               else io_print ''  tensor_parallel_size  : not found in the available sources'' [])
     (io_then (say [[]])
     (let tp_confirmed = (tp \<noteq> JNull \<and> tp_size_ok tp)
      in io_then (if tp_confirmed then io_print ''  [ok] TP confirmed: tensor_parallel_size={}'' [J tp]
                  else io_print ''  [!]  API/log did not expose tp_size; GPU allocation is only supporting evidence'' [])
           (io_return (tp_confirmed, tp))))))))))"

subsection \<open>Expert parallelism\<close>

definition ep_size_of :: "json \<Rightarrow> json \<Rightarrow> json" where
  "ep_size_of raw tp =
     (case raw of
        JBool b \<Rightarrow> if b then tp else JInt 1
      | JInt i \<Rightarrow> JInt i
      | _ \<Rightarrow> JNull)"

text \<open>Step 1 returns \<^verbatim>\<open>ep_size_found\<close>, \<^verbatim>\<open>tp_size_found\<close> and \<^verbatim>\<open>model_path\<close>.\<close>

definition ep_from_args :: "call \<Rightarrow> (json \<times> json \<times> json) io" where
  "ep_from_args c =
     io_try
       (io_bind (io_lift c) (\<lambda>r.
        if status_code r = 200
        then io_bind (io_lift (json_of r)) (\<lambda>args.
             io_bind (io_lift (py_get args ''model'' (JStr ''?''))) (\<lambda>d1.
             io_bind (io_lift (py_get args ''model_path'' d1)) (\<lambda>mp.
             io_bind (io_lift (py_get args ''tp_size'' JNull)) (\<lambda>d2.
             io_bind (io_lift (py_get args ''tensor_parallel_size'' d2)) (\<lambda>tp.
             io_bind (io_lift (py_get args ''enable_expert_parallel'' JNull)) (\<lambda>d3.
             io_bind (io_lift (py_get args ''ep_size'' d3)) (\<lambda>d4.
             io_bind (io_lift (py_get args ''expert_parallel_size'' d4)) (\<lambda>raw.
             if raw \<noteq> JNull
             then io_then (io_print ''  source (ep_size)      : /get_server_args (SGLang 0.4.x)'' [])
                    (io_return (ep_size_of raw tp, tp, mp))
             else io_return (JNull, tp, mp)))))))))
        else io_return (JNull, JNull, JStr ''?'')))
       (\<lambda>e. io_return (JNull, JNull, JStr ''?''))"

text \<open>
  One readable log: what it adds to the three values. An \<^verbatim>\<open>int\<close> that raises ends the file's
  \<^verbatim>\<open>try\<close> block with the values found before it.
\<close>

definition ep_scan_log :: "string \<Rightarrow> string \<Rightarrow> json \<times> json \<times> json \<Rightarrow> (json \<times> json \<times> json) io" where
  "ep_scan_log p content st =
     (case st of (ep, tp, mp) \<Rightarrow>
        (let ep_m = (if ep = JNull then find_size ep_re content else None);
             ep' = (case ep_m of Some (Inr n) \<Rightarrow> JInt n | _ \<Rightarrow> ep);
             tp_m = (if tp = JNull then find_size tp_re content else None);
             tp' = (case tp_m of Some (Inr n) \<Rightarrow> JInt n | _ \<Rightarrow> tp);
             mp' = (if mp = JStr ''?''
                    then (case re_search ep_path_re content of
                            None \<Rightarrow> mp
                          | Some caps \<Rightarrow> JStr (case map_of caps 1 of None \<Rightarrow> [] | Some g \<Rightarrow> g))
                    else mp)
         in case ep_m of
              Some (Inl e) \<Rightarrow> io_return (ep, tp, mp)
            | _ \<Rightarrow>
                io_then (io_when (ep_m \<noteq> None) (io_print ''  source (ep_size)      : log file ({})'' [S p]))
                  (case tp_m of
                     Some (Inl e) \<Rightarrow> io_return (ep', tp, mp)
                   | _ \<Rightarrow> io_return (ep', tp', mp'))))"

text \<open>
  The loop ends after the first file that leaves \<^verbatim>\<open>ep_size_found\<close> set (the \<^verbatim>\<open>break\<close> is the last
  statement of the \<^verbatim>\<open>try\<close> block, so a file whose block raised does not end it).
\<close>

definition ep_scan_raises :: "string \<Rightarrow> json \<times> json \<times> json \<Rightarrow> bool" where
  "ep_scan_raises content st =
     (case st of (ep, tp, mp) \<Rightarrow>
        (let ep_m = (if ep = JNull then find_size ep_re content else None);
             tp_m = (if tp = JNull then find_size tp_re content else None)
         in (case ep_m of Some (Inl e) \<Rightarrow> True | _ \<Rightarrow> (case tp_m of Some (Inl e) \<Rightarrow> True | _ \<Rightarrow> False))))"

fun ep_log_loop :: "(string \<Rightarrow> string res option) \<Rightarrow> string list \<Rightarrow> json \<times> json \<times> json \<Rightarrow> (json \<times> json \<times> json) io" where
  "ep_log_loop fls [] st = io_return st"
| "ep_log_loop fls (p # ps) st =
     (if p = [] then ep_log_loop fls ps st
      else case fls p of
             None \<Rightarrow> ep_log_loop fls ps st
           | Some (Inl e) \<Rightarrow> if is_Exception e then ep_log_loop fls ps st else io_raise e
           | Some (Inr txt') \<Rightarrow>
               (let content = take 65536 txt'
                in io_bind (ep_scan_log p content st) (\<lambda>st'.
                     if fst st' \<noteq> JNull \<and> \<not> ep_scan_raises content st then io_return st'
                     else ep_log_loop fls ps st')))"

text \<open>\<^verbatim>\<open>num_experts // ep_n\<close>, called with \<^verbatim>\<open>ep_n > 1\<close>.\<close>

definition py_floordiv :: "json \<Rightarrow> json \<Rightarrow> arg res" where
  "py_floordiv a b =
     res_bind (json_num a) (\<lambda>x. res_bind (json_num b) (\<lambda>y.
       Inr (if is_int a \<and> is_int b then I \<lfloor>x / y\<rfloor> else R (real_of_int \<lfloor>x / y\<rfloor>))))"

definition ep_moe_lines :: "json \<Rightarrow> json \<Rightarrow> json \<Rightarrow> json \<Rightarrow> unit io" where
  "ep_moe_lines ep num_experts top_k num_hidden =
     (let ep_n = py_or ep (JInt 1)
      in io_then
           (if truthy num_experts
            then io_bind (io_lift (py_gt1 ep_n)) (\<lambda>many.
                 if many
                 then io_bind (io_lift (py_floordiv num_experts ep_n)) (\<lambda>q.
                      io_print ''  num_experts (total)   : {}  -> EP={}: {} per GPU'' [J num_experts, J ep_n, q])
                 else io_print ''  num_experts (total)   : {}  -> EP={}: all on one GPU (EP=1)'' [J num_experts, J ep_n])
            else io_print ''  num_experts           : not exposed; verify that an MoE model is loaded'' [])
        (io_then
           (io_when (truthy top_k)
              (io_bind (io_lift (py_gt1 ep_n)) (\<lambda>many.
               if many
               then io_bind (io_lift (json_num ep_n)) (\<lambda>x.
                    io_print ''  experts_per_token (K) : {}   up to ~{:.0f}% of placements may cross ranks''
                      [J top_k, R (100 * (1 - 1 / x))])
               else io_print ''  experts_per_token (K) : {}   '' [J top_k])))
           (io_print ''  num_hidden_layers     : {}'' [J num_hidden])))"

definition model_info_failed :: "'a \<Rightarrow> exn \<Rightarrow> 'a io" where
  "model_info_failed x e = io_then (io_print ''  /get_model_info failed: {}'' [X e]) (io_return x)"

text \<open>Step 3 returns \<^verbatim>\<open>moe_confirmed\<close> and \<^verbatim>\<open>model_path\<close>; both are assigned before the lines that may raise.\<close>

definition ep_from_info :: "call \<Rightarrow> json \<Rightarrow> json \<Rightarrow> (bool \<times> json) io" where
  "ep_from_info c ep mp =
     (case res_bind c (\<lambda>r. if status_code r = 200 then res_bind (json_of r) (\<lambda>info. Inr (Some info)) else Inr None) of
        Inl e \<Rightarrow> io_try (io_raise e) (model_info_failed (False, mp))
      | Inr None \<Rightarrow> io_return (False, mp)
      | Inr (Some info) \<Rightarrow>
          io_try
            (io_bind (io_lift (py_get info ''model_path'' (JStr ''?''))) (\<lambda>mp1.
             io_bind (io_lift (py_get info ''num_routed_experts'' JNull)) (\<lambda>n1.
             io_bind (io_lift (py_get info ''n_routed_experts'' n1)) (\<lambda>n2.
             io_bind (io_lift (py_get info ''num_experts'' n2)) (\<lambda>num_experts.
             io_bind (io_lift (py_get info ''n_top_k_experts'' JNull)) (\<lambda>k1.
             io_bind (io_lift (py_get info ''top_k_experts'' k1)) (\<lambda>k2.
             io_bind (io_lift (py_get info ''num_experts_per_tok'' k2)) (\<lambda>top_k.
             io_bind (io_lift (py_get info ''num_hidden_layers'' (JStr ''?''))) (\<lambda>num_hidden.
             let st = (truthy num_experts, if mp = JStr ''?'' then mp1 else mp)
             in io_try (io_then (ep_moe_lines ep num_experts top_k num_hidden) (io_return st))
                  (model_info_failed st))))))))))
            (model_info_failed (False, mp)))"

definition ep_log_candidates :: "string \<Rightarrow> string list" where
  "ep_log_candidates var = [var, ''/tmp/sglang_ep.log'', ''/tmp/sglang.log'']"

definition ep_verdict :: "json \<Rightarrow> bool res" where
  "ep_verdict ep = (if ep \<noteq> JNull then py_gt1 ep else Inr False)"

definition ep_conclusion :: "bool \<Rightarrow> bool \<Rightarrow> json \<Rightarrow> unit io" where
  "ep_conclusion ep_confirmed moe_confirmed ep =
     (if ep_confirmed \<and> moe_confirmed
      then io_then (io_print ''  [ok] EP + All-to-All confirmed: ep_size={}, MoE model loaded'' [J (py_or ep (JInt 1))])
             (io_print ''     forward path: dispatch All-to-All -> expert computation -> gather All-to-All'' [])
      else if ep_confirmed
      then io_print ''  [ok] EP size confirmed; expert count was not exposed by this model-info format'' []
      else if moe_confirmed
      then io_print ''  [!]  MoE model loaded but ep_size was not found; EP may still be 1'' []
      else io_print ''  [!]  EP was not confirmed by API or logs; GPU allocation is supporting evidence only'' [])"

definition check_ep_active :: "sglang_env \<Rightarrow> (bool \<times> json \<times> json) io" where
  "check_ep_active env =
     io_then (heading [''EP validation - SGLang server parameters''])
     (io_bind (ep_from_args (server_args env)) (\<lambda>s1.
      io_bind (if fst s1 = JNull \<or> fst (snd s1) = JNull
               then ep_log_loop (log_files env) (ep_log_candidates (sglang_log env)) s1
               else io_return s1) (\<lambda>(ep, tp, mp).
      io_then (say [[], ''  [MoE model structure]''])
     (io_bind (ep_from_info (model_info env) ep mp) (\<lambda>(moe_confirmed, mp').
      io_then (say [[]])
     (io_then (io_print ''  endpoint              : {}'' [S (sglang_url env)])
     (io_then (io_print ''  model_path            : {}'' [J mp'])
     (io_then (io_when (tp \<noteq> JNull) (io_print ''  tensor_parallel_size  : {}'' [J tp]))
     (io_bind (io_lift (ep_verdict ep)) (\<lambda>ep_confirmed.
      io_then (if ep \<noteq> JNull
               then io_print (if ep_confirmed then ''  expert_parallel_size  : {}   [ok] EP + All-to-All enabled''
                              else ''  expert_parallel_size  : {}   [!]  EP=1 (single GPU)'') [J ep]
               else io_print ''  expert_parallel_size  : not found in the available sources'' [])
     (io_then (say [[]])
     (io_then (ep_conclusion ep_confirmed moe_confirmed ep)
        (io_return (ep_confirmed, ep, tp))))))))))))))"

subsection \<open>Lemmas\<close>

lemma at_boundary_before: "(case pv of None \<Rightarrow> True | Some c \<Rightarrow> \<not> is_word c) \<Longrightarrow> w \<noteq> [] \<Longrightarrow> is_word (hd w) \<Longrightarrow> at_boundary pv (w @ s)"
  by (cases w) (auto simp: at_boundary_def split: option.splits)

lemma re_match_size:
  assumes "short \<noteq> []" "is_word (hd short)" "case pv of None \<Rightarrow> True | Some c \<Rightarrow> \<not> is_word c"
    "case rest of [] \<Rightarrow> True | c # _ \<Rightarrow> \<not> py_isdigit c"
  shows "\<exists>ms. re_match (size_re short word) (pv, short @ ''='' @ show_nat n @ rest, []) =
     (Some (last (show_nat n)), rest, [(1, show_nat n)]) # ms"
proof -
  have b: "at_boundary pv ((short @ ''='') @ show_nat n @ rest)"
    using assms(1-3) at_boundary_before [of pv short "''='' @ show_nat n @ rest"] by simp
  have l: "re_match (lit_ci (short @ ''='')) (pv, (short @ ''='') @ show_nat n @ rest, []) =
      [(pv_after pv (short @ ''=''), show_nat n @ rest, [])]"
    by (rule re_match_lit_ci)
  have dig: "\<forall>c \<in> set (show_nat n). py_isdigit c" by (auto dest: show_nat_digits)
  obtain ms where "re_match (Plus py_isdigit) (pv_after pv (short @ ''=''), show_nat n @ rest, []) =
      (Some (last (show_nat n)), rest, []) # ms"
    using re_match_Plus [OF show_nat_ne dig assms(4)] by blast
  with b l show ?thesis
    by (simp add: size_re_def num_re_def del: lit_ci.simps append_assoc)
      (simp add: append_assoc)
qed

lemma find_size_show:
  assumes "short \<noteq> []" "is_word (hd short)" "a \<noteq> [] \<Longrightarrow> \<not> is_word (last a)"
    "case rest of [] \<Rightarrow> True | c # _ \<Rightarrow> \<not> py_isdigit c"
    "no_match_before (size_re short word) a (short @ ''='' @ show_nat n @ rest)"
  shows "find_size (size_re short word) (a @ short @ ''='' @ show_nat n @ rest) = Some (Inr (int n))"
proof -
  let ?s = "short @ ''='' @ show_nat n @ rest" and ?pv = "pv_after None a"
  have "case ?pv of None \<Rightarrow> True | Some c \<Rightarrow> \<not> is_word c"
    using assms(3) by (simp add: pv_after_def)
  then obtain ms where m: "re_match (size_re short word) (?pv, ?s, []) =
      (Some (last (show_nat n)), rest, [(1, show_nat n)]) # ms"
    using re_match_size [OF assms(1,2) _ assms(4)] by blast
  obtain c s' where cs: "?s = c # s'" using assms(1) by (cases short) auto
  have "re_search (size_re short word) (a @ ?s) = re_search_from (size_re short word) ?pv ?s"
    by (rule re_search_after [OF assms(5)])
  also have "\<dots> = Some [(1, show_nat n)]"
    using m unfolding cs by simp
  finally show ?thesis by (simp add: find_size_def py_int_show_nat)
qed

lemma tp_from_args_ends:
  assumes "call_ends c"
  shows "\<exists>x. result (tp_from_args c) = Inr x"
  using assms
proof (cases rule: call_ends_cases)
  case (json r j)
  then show ?thesis by (cases j) (auto simp: tp_from_args_def result_io_try)
qed (auto simp: tp_from_args_def result_io_try)

definition info_tp :: "call \<Rightarrow> json" where
  "info_tp c =
     (case c of
        Inr r \<Rightarrow> if status_code r = 200
          then (case json_of r of
                  Inr (JObj kv) \<Rightarrow>
                    (case map_of kv ''tp_size'' of Some v \<Rightarrow> v
                     | None \<Rightarrow> (case map_of kv ''tensor_parallel_size'' of Some v \<Rightarrow> v | None \<Rightarrow> JNull))
                | _ \<Rightarrow> JNull)
          else JNull
      | _ \<Rightarrow> JNull)"

lemma tp_from_info_result:
  assumes "call_ends c"
  shows "\<exists>mp'. result (tp_from_info c (tp, mp)) = Inr (if tp \<noteq> JNull then tp else info_tp c, mp')"
  using assms
proof (cases rule: call_ends_cases)
  case (json r j)
  then show ?thesis
    by (cases j) (auto simp: tp_from_info_def result_io_try info_tp_def Let_def split: option.splits)
qed (auto simp: tp_from_info_def result_io_try info_tp_def)

lemma check_tp_active_result:
  assumes "result (tp_from_args (server_args env)) = Inr s1"
    "result (if fst s1 = JNull then tp_log_loop (log_files env) (tp_log_candidates (sglang_log env)) (snd s1)
             else io_return s1) = Inr (tp, mp)"
    "call_ends (model_info env)" "v = (if tp \<noteq> JNull then tp else info_tp (model_info env))"
  shows "result (check_tp_active env) = Inr (v \<noteq> JNull \<and> tp_size_ok v, v)"
proof -
  obtain mp' where "result (tp_from_info (model_info env) (tp, mp)) = Inr (v, mp')"
    using tp_from_info_result [OF assms(3), of tp mp] assms(4) by auto
  then show ?thesis using assms(1,2) by (simp add: check_tp_active_def Let_def)
qed

lemma tp_size_ok_iff: "tp_size_ok v \<longleftrightarrow> (\<exists>i > 1. v = JInt i)"
  by (cases v) (auto simp: tp_size_ok_def)

lemma ep_moe_lines_ends: "result (ep_moe_lines ep a b c) = Inl e \<Longrightarrow> e = TypeErr"
  unfolding ep_moe_lines_def Let_def
  by (cases "py_or ep (JInt 1)"; cases a; cases "truthy a"; cases "truthy b")
    (auto simp: py_floordiv_def split: if_splits)

lemma io_try_ok: "\<exists>x. result m = Inr x \<Longrightarrow> \<exists>x. result (io_try m h) = Inr x"
  by auto

lemma ep_from_info_ends:
  assumes "call_ends c"
  shows "\<exists>x. result (ep_from_info c ep mp) = Inr x"
  using assms
proof (cases rule: call_ends_cases)
  case (json r j)
  have inner: "\<exists>x. result (io_try (io_then (ep_moe_lines ep a b d) (io_return st)) (model_info_failed st)) = Inr x" for a b d st
    by (cases "result (ep_moe_lines ep a b d)")
      (auto simp: result_io_try model_info_failed_def dest: ep_moe_lines_ends)
  show ?thesis
  proof (cases "status_code r = 200")
    case True
    then have eq: "ep_from_info c ep mp = ep_from_info (Inr \<lparr>status_code = 200, json_of = Inr j, body_text = []\<rparr>) ep mp"
      using json by (simp add: ep_from_info_def)
    show ?thesis
    proof (cases "\<exists>kv. j = JObj kv")
      case True
      then show ?thesis unfolding eq
        by (auto simp: ep_from_info_def Let_def simp del: split_paired_Ex intro!: io_try_ok inner)
    next
      case False
      then show ?thesis unfolding eq
        by (cases j) (auto simp: ep_from_info_def result_io_try model_info_failed_def)
    qed
  next
    case False
    with json show ?thesis by (auto simp: ep_from_info_def)
  qed
qed (auto simp: ep_from_info_def result_io_try model_info_failed_def)

lemma ep_conclusion_result [simp]: "result (ep_conclusion a b e) = Inr ()"
  by (simp add: ep_conclusion_def)

text \<open>The result of the EP check without step 3, which contributes nothing to it.\<close>

lemma check_ep_active_result:
  assumes "call_ends (model_info env)"
  shows "result (check_ep_active env) =
    res_bind (result (ep_from_args (server_args env))) (\<lambda>s1.
    res_bind (if fst s1 = JNull \<or> fst (snd s1) = JNull
              then result (ep_log_loop (log_files env) (ep_log_candidates (sglang_log env)) s1) else Inr s1) (\<lambda>(ep, tp, mp).
    res_bind (ep_verdict ep) (\<lambda>b. Inr (b, ep, tp))))"
proof -
  have *: "res_bind (result (ep_from_info (model_info env) ep mp)) (\<lambda>_. r) = r" for ep mp and r :: "'b res"
    using ep_from_info_ends [OF assms, of ep mp] by auto
  show ?thesis
    by (simp add: check_ep_active_def case_prod_beta' * if_distrib [where f = snd] cong: if_cong)
qed

subsection \<open>Properties\<close>

text \<open>The gateway checks: \<^verbatim>\<open>pd_demo\<close>, \<^verbatim>\<open>streaming_demo\<close> and \<^verbatim>\<open>enterprise_qa_demo\<close> go on exactly when the gateway
  answers with mode \<^verbatim>\<open>direct\<close> and otherwise exit with status 1 (their own \<^verbatim>\<open>sys.exit\<close> is not swallowed by the
  surrounding handler); the other demos go on with any mode and exit with status 1 when none is readable.\<close>

theorem gateway_checks_exit:
  assumes "call_ends h"
  shows "result (pd_check_gateway h) = (if gateway_mode h = Inr (JStr ''direct'') then Inr () else Inl (SystemExit 1))
    \<and> result (check_mode url h) = (if gateway_mode h = Inr (JStr ''direct'') then Inr () else Inl (SystemExit 1))
    \<and> result (enterprise_check_mode h) = (if gateway_mode h = Inr (JStr ''direct'') then Inr () else Inl (SystemExit 1))
    \<and> result (check_gateway h) = (case gateway_mode h of Inr m \<Rightarrow> Inr () | Inl e \<Rightarrow> Inl (SystemExit 1))"
proof (cases "gateway_mode h")
  case (Inl e)
  have "is_Exception e"
    using assms
  proof (cases rule: call_ends_cases)
    case (json r j)
    with Inl show ?thesis by (cases j) (auto simp: gateway_mode_def)
  qed (use Inl in \<open>auto simp: gateway_mode_def\<close>)
  with Inl show ?thesis
    by (simp add: pd_check_gateway_def check_mode_def enterprise_check_mode_def check_gateway_def
        result_io_try unreachable_def unreachable_at_def)
next
  case (Inr m)
  then show ?thesis
    by (simp add: pd_check_gateway_def check_mode_def enterprise_check_mode_def check_gateway_def result_io_try)
qed

definition health_answer :: "string \<Rightarrow> call" where
  "health_answer m = Inr \<lparr>status_code = 200, json_of = Inr (JObj [(''status'', JStr ''ok''), (''mode'', JStr m)]), body_text = []\<rparr>"

theorem gateway_checks_exit_witness:
  "result (check_mode ''http://localhost:8080'' (health_answer ''direct'')) = Inr ()
   \<and> result (check_mode ''http://localhost:8080'' (health_answer ''queue'')) = Inl (SystemExit 1)"
  using gateway_checks_exit [of "health_answer ''direct''" "''http://localhost:8080''"]
    gateway_checks_exit [of "health_answer ''queue''" "''http://localhost:8080''"]
  by (simp add: health_answer_def call_ends_def gateway_mode_def)

text \<open>C30. Tensor parallelism is confirmed only by an integer larger than 1: whatever the server, the logs and the
  model info say, a returned \<^verbatim>\<open>True\<close> comes with such a size, and with such a size \<^verbatim>\<open>True\<close> is returned. A JSON
  boolean, string or float never confirms it.\<close>

theorem check_tp_active_sound:
  assumes "result (check_tp_active env) = Inr (b, v)"
  shows "b \<longleftrightarrow> (\<exists>i > 1. v = JInt i)"
  using assms
  by (auto simp: check_tp_active_def res_bind_Inr_iff Let_def tp_size_ok_iff)

definition tp_demo_env :: sglang_env where
  "tp_demo_env =
     \<lparr>sglang_url = ''http://localhost:30000'',
      server_args = Inr \<lparr>status_code = 404, json_of = Inl JSONDecodeErr, body_text = ''Not Found''\<rparr>,
      model_info = Inl (RequestErr ''refused''),
      sglang_log = ''/var/log/sglang.log'',
      log_files = (\<lambda>p. if p = ''/var/log/sglang.log'' then Some (Inr ''args: tp_size=4, ep_size=1'') else None)\<rparr>"

definition args_answer :: "(string \<times> json) list \<Rightarrow> call" where
  "args_answer kv = Inr \<lparr>status_code = 200, json_of = Inr (JObj kv), body_text = []\<rparr>"

lemma tp_demo_args_result:
  "result (check_tp_active (tp_demo_env\<lparr>server_args := args_answer [(''tp_size'', JInt 4)]\<rparr>)) = Inr (True, JInt 4)"
  by (simp add: check_tp_active_def tp_demo_env_def args_answer_def tp_from_args_def tp_from_info_def
      result_io_try tp_size_ok_def)

theorem check_tp_active_sound_witness:
  "result (check_tp_active (tp_demo_env\<lparr>server_args := args_answer [(''tp_size'', JInt 4)]\<rparr>)) = Inr (True, JInt 4)
   \<and> (True \<longleftrightarrow> (\<exists>i > 1. JInt 4 = JInt i))"
  using check_tp_active_sound [OF tp_demo_args_result] tp_demo_args_result by (rule conjI [rotated])

text \<open>The server's own arguments win: when \<^verbatim>\<open>/get_server_args\<close> answers 200 with a non-null size, that value is
  the one returned, whatever the launch logs and \<^verbatim>\<open>/get_model_info\<close> say.\<close>

theorem check_tp_active_prefers_args:
  assumes "server_args env = args_answer kv" "call_ends (model_info env)"
    "v = (case map_of kv ''tensor_parallel_size'' of Some x \<Rightarrow> x
          | None \<Rightarrow> (case map_of kv ''tp_size'' of Some x \<Rightarrow> x | None \<Rightarrow> JNull))"
    "v \<noteq> JNull"
  shows "result (check_tp_active env) = Inr ((\<exists>i > 1. v = JInt i), v)"
proof -
  obtain mp where s1: "result (tp_from_args (server_args env)) = Inr (v, mp)"
    using assms(1,3,4) by (simp add: tp_from_args_def args_answer_def result_io_try split: option.splits)
  from check_tp_active_result [OF s1 _ assms(2), of v mp v] assms(4)
  show ?thesis by (simp add: tp_size_ok_iff)
qed

theorem check_tp_active_prefers_args_witness:
  "result (check_tp_active (tp_demo_env\<lparr>server_args := args_answer [(''tp_size'', JInt 2)]\<rparr>)) = Inr ((\<exists>i > 1. JInt 2 = JInt i), JInt 2)"
  by (rule check_tp_active_prefers_args [where kv = "[(''tp_size'', JInt 2)]"]) (simp_all add: tp_demo_env_def call_ends_def)

text \<open>A size written to the launch log is found: if the server does not expose its arguments and the first
  log named by \<^verbatim>\<open>SGLANG_LOG\<close> holds \<^verbatim>\<open>tp_size=\<close>\<open>n\<close> at a word boundary within its first 65536 characters with no
  earlier match, the check returns \<open>n\<close> and confirms tensor parallelism exactly when \<open>n > 1\<close>.\<close>

theorem check_tp_active_reads_log:
  assumes "result (tp_from_args (server_args env)) = Inr (JNull, mp)" "call_ends (model_info env)"
    "sglang_log env \<noteq> []"
    "log_files env (sglang_log env) = Some (Inr (a @ ''tp_size'' @ ''='' @ show_nat n @ rest @ later))"
    "length (a @ ''tp_size'' @ ''='' @ show_nat n @ rest) = 65536 \<or>
     later = [] \<and> length (a @ ''tp_size'' @ ''='' @ show_nat n @ rest) \<le> 65536"
    "a \<noteq> [] \<longrightarrow> \<not> is_word (last a)" "case rest of [] \<Rightarrow> True | c # _ \<Rightarrow> \<not> py_isdigit c"
    "no_match_before tp_re a (''tp_size'' @ ''='' @ show_nat n @ rest)"
  shows "result (check_tp_active env) = Inr (1 < n, JInt (int n))"
proof -
  let ?c = "a @ ''tp_size'' @ ''='' @ show_nat n @ rest"
  have content: "take 65536 (?c @ later) = ?c"
    using assms(5) by (metis append.right_neutral append_eq_conv_conj take_all)
  have "is_word (hd ''tp_size'')" by (simp add: is_word_def)
  then have find: "find_size tp_re ?c = Some (Inr (int n))"
    using assms(6-8) unfolding tp_re_def by (intro find_size_show) auto
  obtain mp' where log: "result (tp_log_loop (log_files env) (tp_log_candidates (sglang_log env)) mp) = Inr (JInt (int n), mp')"
    using assms(3,4) content find unfolding tp_log_candidates_def append_assoc by (simp add: Let_def)
  from check_tp_active_result [OF assms(1) _ assms(2), of "JInt (int n)" mp' "JInt (int n)"] log
  show ?thesis by (simp add: tp_size_ok_iff)
qed

lemma show_nat_4: "show_nat 4 = ''4''"
  by code_simp

theorem check_tp_active_reads_log_witness:
  "result (check_tp_active tp_demo_env) = Inr (1 < (4::nat), JInt (int 4))"
  by (rule check_tp_active_reads_log [where mp = "JStr ''?''" and a = "''args: ''" and rest = "'', ep_size=1''" and later = "[]"])
    (simp_all add: tp_demo_env_def tp_from_args_def result_io_try call_ends_def show_nat_4
      is_word_def py_isdigit_def no_match_before_def tp_re_def size_re_def at_boundary_def lower_char_def)

text \<open>\<^verbatim>\<open>/get_model_info\<close> never contributes to the expert-parallel verdict: replacing its answer by any other
  answer (or failure) leaves the returned confirmation and sizes unchanged.\<close>

theorem check_ep_active_ignores_model_info:
  assumes "call_ends (model_info env)" "call_ends m"
  shows "result (check_ep_active (env\<lparr>model_info := m\<rparr>)) = result (check_ep_active env)"
  using assms by (simp add: check_ep_active_result cong: if_cong)

theorem check_ep_active_ignores_model_info_witness:
  "result (check_ep_active (tp_demo_env\<lparr>model_info := args_answer [(''ep_size'', JInt 4), (''num_experts'', JInt 64)]\<rparr>))
   = result (check_ep_active tp_demo_env)"
  by (rule check_ep_active_ignores_model_info) (simp_all add: tp_demo_env_def args_answer_def call_ends_def)

text \<open>A string as tensor-parallel size crashes the expert-parallel check: with \<^verbatim>\<open>enable_expert_parallel\<close> true the
  size is copied to \<^verbatim>\<open>ep_size_found\<close> without a type test, and its comparison with 1 raises \<^verbatim>\<open>TypeError\<close> outside every
  handler.\<close>

theorem check_ep_active_type_error:
  assumes "server_args env = args_answer kv" "call_ends (model_info env)"
    "map_of kv ''expert_parallel_size'' = None" "map_of kv ''ep_size'' = None"
    "map_of kv ''enable_expert_parallel'' = Some (JBool True)" "map_of kv ''tensor_parallel_size'' = Some (JStr s)"
  shows "result (check_ep_active env) = Inl TypeErr"
proof -
  obtain mp where "result (ep_from_args (server_args env)) = Inr (JStr s, JStr s, mp)"
    using assms by (auto simp: ep_from_args_def args_answer_def result_io_try ep_size_of_def)
  then show ?thesis by (simp add: check_ep_active_result [OF assms(2)] ep_verdict_def)
qed

theorem check_ep_active_type_error_witness:
  "result (check_ep_active (tp_demo_env\<lparr>server_args :=
     args_answer [(''enable_expert_parallel'', JBool True), (''tensor_parallel_size'', JStr ''4'')]\<rparr>)) = Inl TypeErr"
  by (rule check_ep_active_type_error
      [where kv = "[(''enable_expert_parallel'', JBool True), (''tensor_parallel_size'', JStr ''4'')]" and s = "''4''"])
    (simp_all add: tp_demo_env_def call_ends_def)

end
