(* ===== verification/Gpu_Checks.thy ===== *)
theory Gpu_Checks
  imports Py_Base
begin

section \<open>GPU memory, worker health and container-log checks\<close>

text \<open>
  Models \<^verbatim>\<open>check_gpu_memory\<close> of \<^verbatim>\<open>tp_demo\<close>, \<^verbatim>\<open>ep_demo\<close> and \<^verbatim>\<open>dp_demo\<close>, \<^verbatim>\<open>check_all_nodes\<close> of \<^verbatim>\<open>dp_demo\<close> and
  \<^verbatim>\<open>check_alltoall_in_logs\<close> of \<^verbatim>\<open>ep_demo\<close>.
\<close>

subsection \<open>GPU memory\<close>

definition gpu_pct :: "int \<Rightarrow> int \<Rightarrow> real" where
  "gpu_pct used tot = 100 * real_of_int used / real_of_int (max tot 1)"

text \<open>
  \<^verbatim>\<open>int(bar_len * used / max(total, 1))\<close>: the quotient truncated towards zero. The bar is this many
  full cells and \<^verbatim>\<open>bar_len - filled\<close> empty ones; a negative repetition count gives no cell.
\<close>

definition bar_len :: int where
  "bar_len = 30"

definition bar_filled :: "int \<Rightarrow> int \<Rightarrow> int" where
  "bar_filled used tot = (let d = max tot 1 in sgn used * ((bar_len * \<bar>used\<bar>) div d))"

definition bar_cells :: "int \<Rightarrow> int \<Rightarrow> nat \<times> nat" where
  "bar_cells used tot = (nat (bar_filled used tot), nat (bar_len - bar_filled used tot))"

record gpu_row =
  gpu_idx :: string
  gpu_name :: string
  gpu_used :: int
  gpu_total :: int

definition row_pct :: "gpu_row \<Rightarrow> real" where
  "row_pct r = gpu_pct (gpu_used r) (gpu_total r)"

definition gpu_ok :: "real \<Rightarrow> gpu_row \<Rightarrow> bool" where
  "gpu_ok threshold r = (row_pct r > threshold)"

definition row_lines :: "real \<Rightarrow> gpu_row \<Rightarrow> out list" where
  "row_lines threshold r =
     (let (full, empty) = bar_cells (gpu_used r) (gpu_total r);
          bar = replicate full (CHR ''#'') @ replicate empty (CHR ''.'');
          mark = (if gpu_ok threshold r then ''[ok]'' else ''o (idle)'')
      in [Print ''  GPU {} [{}]'' [S (gpu_idx r), S (gpu_name r)],
          Print ''    {}  {}/{} MB  ({:.1f}%)  {}'' [S bar, I (gpu_used r), I (gpu_total r), R (row_pct r), S mark]])"

text \<open>The loop over the rows: what it printed, the rows, and the exception of a field that is no number.\<close>

fun gpu_scan :: "real \<Rightarrow> string list \<Rightarrow> out list \<times> gpu_row list \<times> exn option" where
  "gpu_scan threshold [] = ([], [], None)"
| "gpu_scan threshold (line # ls) =
     (let parts = map strip (split_on (CHR '','') line)
      in if length parts < 4 then gpu_scan threshold ls
         else case (py_int (parts ! 2), py_int (parts ! 3)) of
                (Some used, Some tot) \<Rightarrow>
                  (let r = \<lparr>gpu_idx = parts ! 0, gpu_name = parts ! 1, gpu_used = used, gpu_total = tot\<rparr>;
                       (os, rows, e) = gpu_scan threshold ls
                   in (row_lines threshold r @ os, r # rows, e))
              | _ \<Rightarrow> ([], [], Some ValueErr))"

definition tp_memory_verdict :: "gpu_row list \<Rightarrow> out list" where
  "tp_memory_verdict rows =
     (let loaded = map (gpu_ok 20) rows
      in Print [] []
         # (if length rows \<ge> 2 \<and> list_all id loaded
            then [Print ''  -> All participating GPUs have material memory allocation'' [],
                  Print ''  -> This is consistent with sharded model loading'' []]
            else if length rows = 1 \<or> (rows \<noteq> [] \<and> \<not> list_all id loaded)
            then [Print ''  -> [!]  Only one GPU has material allocation; TP may not be ready'' [],
                  Print ''       Wait for model loading to finish and rerun the check'' []]
            else [Print ''  -> No GPU information detected'' []]))"

definition spread :: "gpu_row list \<Rightarrow> real" where
  "spread rows = Max (set (map row_pct rows)) - Min (set (map row_pct rows))"

definition ep_memory_verdict :: "gpu_row list \<Rightarrow> out list" where
  "ep_memory_verdict rows =
     (if length rows \<ge> 2
      then Print [] []
           # (if list_all (gpu_ok 20) rows
              then [Print ''  -> Both GPUs have material allocation; this is consistent with expert sharding'' [],
                    if spread rows < 5 then Print ''  -> Memory distribution: balanced'' []
                    else Print ''  -> Memory distribution: {:.1f}% spread'' [R (spread rows)]]
              else [Print ''  -> [!]  Only one GPU has material allocation; EP may not be enabled'' []])
      else [])"

definition dp_memory_verdict :: "gpu_row list \<Rightarrow> out list" where
  "dp_memory_verdict rows =
     (if length rows \<ge> 4
      then [Print [] [],
            if spread rows < 5 then Print ''  -> Memory distribution: balanced'' []
            else Print ''  -> Memory distribution: {:.1f}% spread (KV-cache occupancy may differ)'' [R (spread rows)],
            Print ''  -> DP check: each GPU holds an independent full model replica [ok]'' []]
      else [])"

text \<open>The common frame: the rows, then the verdict, or the message of the exception that ended them.\<close>

definition memory_check :: "string \<Rightarrow> real \<Rightarrow> (gpu_row list \<Rightarrow> out list) \<Rightarrow> string res \<Rightarrow> unit io" where
  "memory_check missing threshold verdict smi =
     (case smi of
        Inl FileNotFoundErr \<Rightarrow> io_print missing []
      | Inl e \<Rightarrow> io_try (io_raise e) (\<lambda>e. io_print ''  {}'' [X e])
      | Inr outp \<Rightarrow>
          (let (os, rows, err) = gpu_scan threshold (splitlines (strip outp))
           in io_then (io_prints os)
                (case err of
                   None \<Rightarrow> io_prints (verdict rows)
                 | Some e \<Rightarrow> io_print ''  {}'' [X e])))"

definition memory_title :: "string \<Rightarrow> string" where
  "memory_title lbl = ''GPU memory'' @ (if lbl \<noteq> [] then '' - '' @ lbl else [])"

definition tp_check_gpu_memory :: "string \<Rightarrow> string res \<Rightarrow> unit io" where
  "tp_check_gpu_memory lbl smi =
     io_then (heading [memory_title lbl, ''   TP should allocate a model shard on each participating GPU''])
       (memory_check ''  nvidia-smi is not available on PATH; run this check on the GPU host'' 20 tp_memory_verdict smi)"

definition ep_check_gpu_memory :: "string \<Rightarrow> string res \<Rightarrow> unit io" where
  "ep_check_gpu_memory lbl smi =
     io_then (heading [memory_title lbl, ''   EP should allocate expert shards across participating GPUs'',
                ''   Runtime allocations may differ with expert routing and KV-cache occupancy''])
       (memory_check ''  nvidia-smi is not available on PATH'' 20 ep_memory_verdict smi)"

definition dp_check_gpu_memory :: "string res \<Rightarrow> unit io" where
  "dp_check_gpu_memory smi =
     io_then (heading [''GPU memory (DP: one full model replica per GPU)'',
                ''   Similar baseline allocation is expected across the four replicas''])
       (memory_check ''  nvidia-smi is not available on PATH'' 10 dp_memory_verdict smi)"

subsection \<open>The data-parallel workers\<close>

record dp_node =
  node_name :: string
  node_gpu :: int
  node_url :: string

definition DP_NODES :: "string \<Rightarrow> dp_node list" where
  "DP_NODES base =
     [\<lparr>node_name = ''sglang-dp-0'', node_gpu = 0, node_url = base @ '':30000''\<rparr>,
      \<lparr>node_name = ''sglang-dp-1'', node_gpu = 1, node_url = base @ '':30001''\<rparr>,
      \<lparr>node_name = ''sglang-dp-2'', node_gpu = 2, node_url = base @ '':30002''\<rparr>,
      \<lparr>node_name = ''sglang-dp-3'', node_gpu = 3, node_url = base @ '':30003''\<rparr>]"

text \<open>One worker: \<^verbatim>\<open>/health\<close>, then \<^verbatim>\<open>/get_model_info\<close>; the result says whether it is counted.\<close>

definition check_node :: "(string \<Rightarrow> call) \<Rightarrow> (string \<Rightarrow> call) \<Rightarrow> dp_node \<Rightarrow> bool io" where
  "check_node health info node =
     io_try
       (io_bind (io_lift (health (node_url node))) (\<lambda>r.
        io_bind (io_lift (res_bind (info (node_url node)) json_of)) (\<lambda>inf.
        io_bind (io_lift (py_get inf ''model'' (JStr ''?''))) (\<lambda>m1.
        io_bind (io_lift (py_get inf ''model_path'' m1)) (\<lambda>model.
        io_bind (io_lift (py_get inf ''tensor_parallel_size'' (JInt 1))) (\<lambda>t1.
        io_bind (io_lift (py_get inf ''tp_size'' t1)) (\<lambda>tp.
        let ok = (status_code r = 200)
        in io_then (io_print (if ok then ''  [ok] GPU {} [{}]  {}'' else ''  [x] GPU {} [{}]  {}'')
                      [I (node_gpu node), S (node_name node), S (node_url node)])
          (io_then (io_print ''       model={}  tp_size={} (independent DP worker)'' [J model, J tp])
             (io_return ok)))))))))
       (\<lambda>e. io_then (io_print ''  [x] GPU {} [{}]: {}'' [I (node_gpu node), S (node_name node), X e])
              (io_return False))"

fun check_nodes_loop :: "(string \<Rightarrow> call) \<Rightarrow> (string \<Rightarrow> call) \<Rightarrow> nat \<Rightarrow> dp_node list \<Rightarrow> nat io" where
  "check_nodes_loop health info healthy [] = io_return healthy"
| "check_nodes_loop health info healthy (n # ns) =
     io_bind (check_node health info n) (\<lambda>ok.
       check_nodes_loop health info (if ok then healthy + 1 else healthy) ns)"

definition check_all_nodes :: "(string \<Rightarrow> call) \<Rightarrow> (string \<Rightarrow> call) \<Rightarrow> string \<Rightarrow> nat io" where
  "check_all_nodes health info base =
     io_then (heading [''DP validation - health check for four SGLang workers''])
     (io_bind (check_nodes_loop health info 0 (DP_NODES base)) (\<lambda>healthy.
      io_then (say [[]])
     (io_then
        (if healthy = length (DP_NODES base)
         then io_print ''  [ok] {}/{} workers healthy - DP={} ready'' [I (int healthy), I (int (length (DP_NODES base))), I (int healthy)]
         else io_print ''  [!]  {}/{} workers healthy - deployment not fully ready'' [I (int healthy), I (int (length (DP_NODES base)))])
        (io_return healthy))))"

subsection \<open>The All-to-All keyword scan\<close>

definition alltoall_keywords :: "string list" where
  "alltoall_keywords =
     [''expert_parallel'', ''all_to_all'', ''AllToAll'', ''all-to-all'', ''ep_size'', ''ExpertParallel'',
      ''dispatch'', ''gather'']"

definition alltoall_found :: "string \<Rightarrow> string list" where
  "alltoall_found log_text =
     map strip (filter (\<lambda>line. list_ex (\<lambda>kw. contains (lower kw) (lower line)) alltoall_keywords) (splitlines log_text))"

definition check_alltoall_in_logs :: "(string \<times> string) res \<Rightarrow> unit io" where
  "check_alltoall_in_logs run =
     io_then (heading [''SGLang container logs - All-to-All keyword scan''])
     (case run of
        Inl FileNotFoundErr \<Rightarrow> io_print ''  docker is not available on PATH; run this check on the deployment host'' []
      | Inl e \<Rightarrow> io_try (io_raise e) (\<lambda>e. io_print ''  {}'' [X e])
      | Inr (stdout, stderr) \<Rightarrow>
          (let log_text = stdout @ stderr
           in if strip log_text = []
              then io_print ''  (container logs are empty or the container is not local)'' []
              else let found = alltoall_found log_text
                   in if found \<noteq> []
                      then io_prints (Print ''  Found {} matching log lines:'' [I (int (length found))]
                             # map (\<lambda>l. Print ''    {}'' [S l]) (take 20 found)
                             @ (if length found > 20
                                then [Print ''    ... {} additional lines in the saved container log'' [I (int (length found) - 20)]]
                                else [])
                             @ [Print [] [], Print ''  [ok] SGLang logs contain Expert Parallel / All-to-All initialization evidence'' []])
                      else io_prints
                             [Print ''  No All-to-All keyword found'' [],
                              Print ''  Log wording can vary by SGLang version'' [],
                              Print ''  Inspect manually: docker logs sglang-ep | grep -i expert'' []]))"

subsection \<open>Lemmas\<close>

lemma bar_filled_nonneg: "0 \<le> used \<Longrightarrow> bar_filled used tot = (bar_len * used) div max tot 1"
  by (cases "used = 0") (simp_all add: bar_filled_def Let_def)

lemma memory_check_total: "(\<And>e. smi = Inl e \<Longrightarrow> is_Exception e) \<Longrightarrow> result (memory_check missing th v smi) = Inr ()"
  by (auto simp: memory_check_def Let_def split: sum.splits exn.splits prod.splits option.splits)

text \<open>A worker is counted when both of its endpoints answer and \<^verbatim>\<open>/health\<close> says 200.\<close>

definition node_counted :: "(string \<Rightarrow> call) \<Rightarrow> (string \<Rightarrow> call) \<Rightarrow> dp_node \<Rightarrow> bool" where
  "node_counted health info n =
     (case health (node_url n) of
        Inl _ \<Rightarrow> False
      | Inr r \<Rightarrow> status_code r = 200 \<and> (\<exists>kv. res_bind (info (node_url n)) json_of = Inr (JObj kv)))"

definition calls_end :: "(string \<Rightarrow> call) \<Rightarrow> bool" where
  "calls_end c = (\<forall>u. call_ends (c u))"

lemma check_node_result:
  assumes "calls_end health" "calls_end info"
  shows "result (check_node health info n) = Inr (node_counted health info n)"
proof (cases "health (node_url n)")
  case (Inl e)
  then have "is_Exception e"
    using assms(1) by (auto simp: calls_end_def call_ends_def dest!: spec [where x = "node_url n"])
  with Inl show ?thesis by (simp add: check_node_def result_io_try node_counted_def)
next
  case (Inr r)
  show ?thesis
  proof (cases "res_bind (info (node_url n)) json_of")
    case (Inl e)
    then have "is_Exception e"
      using assms(2)
      by (cases "info (node_url n)") (auto simp: calls_end_def call_ends_def dest!: spec [where x = "node_url n"])
    with Inr Inl show ?thesis by (simp add: check_node_def result_io_try node_counted_def)
  next
    case (Inr j)
    with \<open>health (node_url n) = Inr r\<close> show ?thesis
      by (cases j) (simp_all add: check_node_def result_io_try node_counted_def Let_def)
  qed
qed

lemma check_nodes_loop_result:
  assumes "calls_end health" "calls_end info"
  shows "result (check_nodes_loop health info k ns) = Inr (k + length (filter (node_counted health info) ns))"
  by (induction ns arbitrary: k) (simp_all add: check_node_result [OF assms])

subsection \<open>Properties\<close>

text \<open>The memory bar of every GPU row is exactly 30 cells wide when the used memory is between 0 and the
  total, and it is full exactly when all memory is used.\<close>

theorem memory_bar_width:
  assumes "0 \<le> used" "used \<le> tot"
  shows "fst (bar_cells used tot) + snd (bar_cells used tot) = 30
    \<and> (0 < tot \<longrightarrow> (snd (bar_cells used tot) = 0 \<longleftrightarrow> used = tot))"
proof -
  let ?d = "max tot 1" and ?f = "bar_filled used tot"
  have f: "?f = (30 * used) div ?d" using assms(1) by (simp add: bar_filled_nonneg bar_len_def)
  have "0 \<le> ?f" using assms(1) by (simp add: f pos_imp_zdiv_nonneg_iff)
  moreover have "?f \<le> 30"
  proof -
    have "30 * used \<le> 30 * ?d" using assms(2) by simp
    then have "(30 * used) div ?d \<le> (30 * ?d) div ?d" by (intro zdiv_mono1) auto
    then show ?thesis by (simp add: f)
  qed
  moreover have "?f = 30 \<longleftrightarrow> used = tot" if "0 < tot"
  proof
    assume "?f = 30"
    then have "30 * used = ?d * 30 + (30 * used) mod ?d"
      using f mult_div_mod_eq [of ?d "30 * used"] by simp
    moreover have "0 \<le> (30 * used) mod ?d" by simp
    ultimately have "?d \<le> used" by linarith
    then show "used = tot" using assms(2) by simp
  next
    assume "used = tot"
    then show "?f = 30" using that f by (simp add: max_def)
  qed
  ultimately show ?thesis by (auto simp: bar_cells_def bar_len_def nat_add_distrib [symmetric])
qed

theorem memory_bar_width_witness:
  "fst (bar_cells 12288 24564) + snd (bar_cells 12288 24564) = 30"
  using memory_bar_width [of 12288 24564] by simp

text \<open>\<^verbatim>\<open>check_all_nodes\<close> returns the number of workers whose \<^verbatim>\<open>/health\<close> answers 200 and whose
  \<^verbatim>\<open>/get_model_info\<close> answers a JSON object; no answer of a worker makes it raise, and at most the four
  configured workers are counted.\<close>

theorem check_all_nodes_counts:
  assumes "calls_end health" "calls_end info"
  shows "result (check_all_nodes health info base) = Inr (length (filter (node_counted health info) (DP_NODES base)))
    \<and> length (filter (node_counted health info) (DP_NODES base)) \<le> 4"
proof -
  have "length (filter (node_counted health info) (DP_NODES base)) \<le> length (DP_NODES base)"
    by (rule length_filter_le)
  moreover have "length (DP_NODES base) = 4" by (simp add: DP_NODES_def)
  ultimately show ?thesis
    by (simp add: check_all_nodes_def check_nodes_loop_result [OF assms])
qed

theorem check_all_nodes_counts_witness:
  "result (check_all_nodes (\<lambda>u. if u = ''h:30001'' then Inl (RequestErr ''refused'') else Inr \<lparr>status_code = 200, json_of = Inl JSONDecodeErr, body_text = []\<rparr>)
     (\<lambda>u. Inr \<lparr>status_code = 200, json_of = Inr (JObj [(''model_path'', JStr ''m'')]), body_text = []\<rparr>) ''h'') = Inr 3"
  by (subst conjunct1 [OF check_all_nodes_counts])
    (auto simp: calls_end_def call_ends_def node_counted_def DP_NODES_def)

end
