(* ===== verification/Sse_Client.thy ===== *)
theory Sse_Client
  imports Py_Base
begin

section \<open>Streaming clients of the demos\<close>

text \<open>
  Models the code of the demos that reads a server-sent event stream: \<^verbatim>\<open>measure_ttft\<close> of
  \<^verbatim>\<open>tp_demo\<close>, \<^verbatim>\<open>ep_demo\<close> and \<^verbatim>\<open>pd_demo\<close> (the three are the same text), \<^verbatim>\<open>send\<close> of \<^verbatim>\<open>dp_demo\<close>,
  \<^verbatim>\<open>stream_chat\<close> of \<^verbatim>\<open>streaming_demo\<close> and \<^verbatim>\<open>chat_stream_ttft\<close> of the long-context benchmark.

  A body is the list of its lines, each with what \<^verbatim>\<open>raw.decode()\<close> gives (a blank line decodes to the
  empty string) and the clock reading when it is handled, and the way the iteration ends. The JSON
  decoder is the argument \<open>loads\<close>.
\<close>

type_synonym timed_line = "string res \<times> real"

datatype ending = Finished | Broken exn

record sse_body =
  sse_status :: int
  sse_text :: string
  sse_lines :: "timed_line list"
  sse_end :: ending

type_synonym decoder = "string \<Rightarrow> json res"

subsection \<open>One line\<close>

datatype line_kind = Skip | DoneMark | Data string

definition sse_classify :: "string \<Rightarrow> line_kind" where
  "sse_classify line =
     (if line = [] then Skip
      else if \<not> startswith line ''data:'' then Skip
      else let data_str = strip (drop 5 line)
           in if data_str = ''[DONE]'' then DoneMark else Data data_str)"

text \<open>\<^verbatim>\<open>json.loads(data_str)["choices"][0]["delta"].get("content") or ""\<close>\<close>

definition chunk_delta :: "decoder \<Rightarrow> string \<Rightarrow> json res" where
  "chunk_delta loads data_str =
     res_bind (loads data_str) (\<lambda>chunk.
     res_bind (py_item chunk ''choices'') (\<lambda>choices.
     res_bind (py_first choices) (\<lambda>choice.
     res_bind (py_item choice ''delta'') (\<lambda>delta.
     res_bind (py_get delta ''content'' JNull) (\<lambda>content.
     Inr (py_or content (JStr [])))))))"

subsection \<open>Time to first token\<close>

datatype loop_end = Found real | Stopped | Exhausted | Raised exn

text \<open>
  The loop over the lines: it stops at the first line that carries content, at \<^verbatim>\<open>[DONE]\<close>, or when an
  exception escapes; a chunk that does not decode or has another shape is ignored.
\<close>

fun ttft_loop :: "decoder \<Rightarrow> real \<Rightarrow> timed_line list \<Rightarrow> loop_end" where
  "ttft_loop loads t0 [] = Exhausted"
| "ttft_loop loads t0 ((Inl e, t) # ls) = Raised e"
| "ttft_loop loads t0 ((Inr line, t) # ls) =
     (case sse_classify line of
        Skip \<Rightarrow> ttft_loop loads t0 ls
      | DoneMark \<Rightarrow> Stopped
      | Data d \<Rightarrow>
          (case chunk_delta loads d of
             Inl e \<Rightarrow> if is_Exception e then ttft_loop loads t0 ls else Raised e
           | Inr delta \<Rightarrow> if truthy delta then Found (t - t0) else ttft_loop loads t0 ls))"

definition read_ttft :: "decoder \<Rightarrow> real \<Rightarrow> sse_body \<Rightarrow> real option res" where
  "read_ttft loads t0 body =
     (case ttft_loop loads t0 (sse_lines body) of
        Found x \<Rightarrow> Inr (Some x)
      | Stopped \<Rightarrow> Inr None
      | Raised e \<Rightarrow> Inl e
      | Exhausted \<Rightarrow> (case sse_end body of Finished \<Rightarrow> Inr None | Broken e \<Rightarrow> Inl e))"

text \<open>\<^verbatim>\<open>ttft or (time.time() - t_start)\<close>: the clock is read again when no content arrived (or at time 0).\<close>

definition ttft_or_elapsed :: "real option \<Rightarrow> real \<Rightarrow> real \<Rightarrow> real" where
  "ttft_or_elapsed ttft t0 t1 =
     (case ttft of None \<Rightarrow> t1 - t0 | Some x \<Rightarrow> if x = 0 then t1 - t0 else x)"

definition measure_ttft :: "decoder \<Rightarrow> string \<Rightarrow> real \<Rightarrow> real \<Rightarrow> sse_body res \<Rightarrow> real io" where
  "measure_ttft loads lbl t_start t_end post =
     io_try
       (io_bind (io_lift (res_bind post (read_ttft loads t_start)))
          (\<lambda>ttft. io_return (ttft_or_elapsed ttft t_start t_end)))
       (\<lambda>e. io_then (io_print ''  [x] {}: {}'' [S lbl, X e]) (io_return (- 1)))"

text \<open>\<^verbatim>\<open>send\<close> of \<^verbatim>\<open>dp_demo\<close> has no handler of its own: what the request or the stream raises reaches its caller.\<close>

definition dp_send :: "decoder \<Rightarrow> string \<Rightarrow> real \<Rightarrow> real \<Rightarrow> sse_body res \<Rightarrow> (string \<times> real) res" where
  "dp_send loads lbl t_start t_end post =
     res_bind (res_bind post (read_ttft loads t_start))
       (\<lambda>ttft. Inr (lbl, ttft_or_elapsed ttft t_start t_end))"

subsection \<open>The interactive stream\<close>

text \<open>
  \<^verbatim>\<open>stream_chat\<close> prints each piece of content and counts it. Only \<^verbatim>\<open>json.JSONDecodeError\<close> is handled
  inside the loop, so a chunk of another shape ends it.
\<close>

fun chat_loop :: "decoder \<Rightarrow> nat \<Rightarrow> timed_line list \<Rightarrow> out list \<times> nat \<times> loop_end" where
  "chat_loop loads n [] = ([], n, Exhausted)"
| "chat_loop loads n ((Inl e, t) # ls) = ([], n, Raised e)"
| "chat_loop loads n ((Inr line, t) # ls) =
     (case sse_classify line of
        Skip \<Rightarrow> chat_loop loads n ls
      | DoneMark \<Rightarrow> ([], n, Stopped)
      | Data d \<Rightarrow>
          (case chunk_delta loads d of
             Inl e \<Rightarrow> if e = JSONDecodeErr then chat_loop loads n ls else ([], n, Raised e)
           | Inr delta \<Rightarrow>
               if truthy delta
               then (let (os, m, r) = chat_loop loads (Suc n) ls in (Put ''{}'' [J delta] # os, m, r))
               else chat_loop loads n ls))"

definition chat_summary :: "nat \<Rightarrow> real \<Rightarrow> unit io" where
  "chat_summary token_count elapsed =
     io_then (say [''\<newline>'' @ dashes 50])
     (io_then (io_print ''[ok] Complete  |  elapsed: {:.2f}s  |  ~{} tokens'' [R elapsed, I (int token_count)])
       (io_when (elapsed > 0)
          (io_print ''   Throughput: ~{:.1f} tokens/s'' [R (real token_count / elapsed)])))"

definition chat_banner :: "string list" where
  "chat_banner = [''\<newline>[Gateway -> SGLang direct SSE stream]\<newline>'', dashes 50]"

definition stream_chat :: "decoder \<Rightarrow> real \<Rightarrow> real \<Rightarrow> sse_body res \<Rightarrow> unit io" where
  "stream_chat loads start t_end post =
     io_then (say chat_banner)
     (case post of
        Inl e \<Rightarrow> if e = KeyboardInterrupt then chat_summary 0 (t_end - start) else io_raise e
      | Inr body \<Rightarrow>
          if sse_status body \<noteq> 200
          then io_print ''[x] HTTP {}: {}'' [I (sse_status body), S (take 200 (sse_text body))]
          else (let (os, token_count, r) = chat_loop loads 0 (sse_lines body);
                    raised = (case r of Raised e \<Rightarrow> Some e
                              | Exhausted \<Rightarrow> (case sse_end body of Finished \<Rightarrow> None | Broken e \<Rightarrow> Some e)
                              | _ \<Rightarrow> None)
                in io_then (io_prints os)
                     (case raised of
                        Some e \<Rightarrow> if e = KeyboardInterrupt then chat_summary token_count (t_end - start)
                                   else io_raise e
                      | None \<Rightarrow> chat_summary token_count (t_end - start))))"

subsection \<open>The long-context benchmark's first chunk\<close>

text \<open>\<^verbatim>\<open>line.strip()\<close> on bytes: only ASCII white space.\<close>

definition bytes_isspace :: "char \<Rightarrow> bool" where
  "bytes_isspace c = (9 \<le> code c \<and> code c \<le> 13 \<or> code c = 32)"

fun first_chunk_time :: "(string \<times> real) list \<Rightarrow> real option" where
  "first_chunk_time [] = None"
| "first_chunk_time ((line, t) # ls) =
     (if list_ex (\<lambda>c. \<not> bytes_isspace c) line then Some t else first_chunk_time ls)"

record raw_body =
  raw_lines :: "(string \<times> real) list"
  raw_end :: ending

definition chat_stream_ttft :: "real \<Rightarrow> raw_body res \<Rightarrow> real option io" where
  "chat_stream_ttft t0 urlopen =
     io_try
       (io_lift (res_bind urlopen (\<lambda>body.
          case first_chunk_time (raw_lines body) of
            None \<Rightarrow> (case raw_end body of Finished \<Rightarrow> Inr (Some 0) | Broken e \<Rightarrow> Inl e)
          | Some t \<Rightarrow> Inr (Some (if t \<noteq> 0 then (t - t0) * 1000 else 0)))))
       (\<lambda>e. io_then (io_print ''Error getting TTFT: {}'' [X e]) (io_return None))"

subsection \<open>Lemmas\<close>

text \<open>A line without content: skipped, or a chunk the inner handler or the truth test drops.\<close>

definition no_content :: "decoder \<Rightarrow> timed_line \<Rightarrow> bool" where
  "no_content loads l =
     (case fst l of
        Inl e \<Rightarrow> False
      | Inr line \<Rightarrow>
          (case sse_classify line of
             Skip \<Rightarrow> True
           | DoneMark \<Rightarrow> False
           | Data d \<Rightarrow> (case chunk_delta loads d of Inl e \<Rightarrow> is_Exception e | Inr v \<Rightarrow> \<not> truthy v)))"

lemma ttft_loop_skip:
  "\<forall>l \<in> set ls. no_content loads l \<Longrightarrow> ttft_loop loads t0 (ls @ rest) = ttft_loop loads t0 rest"
proof (induction ls)
  case (Cons l ls)
  then show ?case
    by (cases l; cases "fst l") (auto simp: no_content_def split: line_kind.splits sum.splits if_splits)
qed simp

lemma measure_ttft_result:
  "result (measure_ttft loads lbl t0 t1 post) =
     (case res_bind post (read_ttft loads t0) of
        Inl e \<Rightarrow> if is_Exception e then Inr (- 1) else Inl e
      | Inr ttft \<Rightarrow> Inr (ttft_or_elapsed ttft t0 t1))"
  by (auto simp: measure_ttft_def result_io_try split: sum.splits)

subsection \<open>Properties\<close>


definition demo_loads :: decoder where
  "demo_loads s =
     (if s = ''{role}'' then Inr (JObj [(''choices'', JArr [JObj [(''delta'', JObj [(''role'', JStr ''assistant'')])]])])
      else if s = ''{hi}'' then Inr (JObj [(''choices'', JArr [JObj [(''delta'', JObj [(''content'', JStr ''hi'')])]])])
      else if s = ''{error}'' then Inr (JObj [(''error'', JObj [(''type'', JStr ''upstream_interrupted'')])])
      else Inl JSONDecodeErr)"


text \<open>A failed request is measured as a success: \<^verbatim>\<open>measure_ttft\<close> never looks at the HTTP status, so a response
  with any status whose body has no \<^verbatim>\<open>data:\<close> line (the gateway's JSON error answers) yields the elapsed time,
  a positive number the benchmark keeps as a sample.\<close>

theorem measure_ttft_error_status:
  assumes "\<forall>l \<in> set ls. \<exists>line t. l = (Inr line, t) \<and> \<not> startswith line ''data:''" "t0 < t1"
  shows "\<exists>x > 0. x = t1 - t0 \<and> result (measure_ttft loads lbl t0 t1
           (Inr \<lparr>sse_status = st, sse_text = txt', sse_lines = ls, sse_end = Finished\<rparr>)) = Inr x"
proof -
  have "no_content loads l" if "l \<in> set ls" for l
    using assms(1) that by (auto simp: no_content_def sse_classify_def)
  then have "ttft_loop loads t0 ls = Exhausted"
    using ttft_loop_skip [of ls loads t0 "[]"] by simp
  with assms(2) show ?thesis by (simp add: measure_ttft_result read_ttft_def ttft_or_elapsed_def)
qed

theorem measure_ttft_error_status_witness:
  "result (measure_ttft demo_loads ''short'' 0 3
     (Inr \<lparr>sse_status = 503, sse_text = ''{}'', sse_lines = [(Inr ''{error: no SGLang instance available}'', 2)], sse_end = Finished\<rparr>)) = Inr 3"
  using measure_ttft_error_status [of "[(Inr ''{error: no SGLang instance available}'', 2)]" 0 3 demo_loads "''short''" 503 "''{}''"]
  by (simp add: startswith_def)

definition content_of :: "decoder \<Rightarrow> timed_line \<Rightarrow> json list" where
  "content_of loads l =
     (case fst l of
        Inl e \<Rightarrow> []
      | Inr line \<Rightarrow>
          (case sse_classify line of
             Data d \<Rightarrow> (case chunk_delta loads d of Inl e \<Rightarrow> [] | Inr v \<Rightarrow> if truthy v then [v] else [])
           | _ \<Rightarrow> []))"

definition chat_line_ok :: "decoder \<Rightarrow> timed_line \<Rightarrow> bool" where
  "chat_line_ok loads l =
     (case fst l of
        Inl e \<Rightarrow> False
      | Inr line \<Rightarrow>
          (case sse_classify line of
             Skip \<Rightarrow> True
           | DoneMark \<Rightarrow> False
           | Data d \<Rightarrow> (case chunk_delta loads d of Inl e \<Rightarrow> e = JSONDecodeErr | Inr v \<Rightarrow> True)))"

lemma chat_loop_ok:
  "\<forall>l \<in> set ls. chat_line_ok loads l \<Longrightarrow>
   chat_loop loads n (ls @ rest) =
     (let (os, m, r) = chat_loop loads (n + length (concat (map (content_of loads) ls))) rest
      in (map (\<lambda>v. Put ''{}'' [J v]) (concat (map (content_of loads) ls)) @ os, m, r))"
proof (induction ls arbitrary: n)
  case Nil
  then show ?case by simp
next
  case (Cons l ls)
  obtain line t where l: "l = (Inr line, t)"
    using Cons.prems by (cases l; cases "fst l") (auto simp: chat_line_ok_def)
  have IH: "chat_loop loads k (ls @ rest) =
     (let (os, m, r) = chat_loop loads (k + length (concat (map (content_of loads) ls))) rest
      in (map (\<lambda>v. Put ''{}'' [J v]) (concat (map (content_of loads) ls)) @ os, m, r))" for k
    using Cons by simp
  from Cons.prems l show ?case
    by (auto simp: chat_line_ok_def content_of_def [of loads "(Inr line, t)"] IH Let_def
        split: line_kind.splits sum.splits prod.splits)
qed

text \<open>The interactive demo prints the content chunks in order and counts them: for a stream of content
  chunks and skipped lines ended by \<^verbatim>\<open>[DONE]\<close>, the printed pieces are the chunks' contents and the reported
  count is their number.\<close>

theorem stream_chat_prints_content:
  assumes "\<forall>l \<in> set ls. chat_line_ok loads l" "t0 < t1"
  shows "stream_chat loads t0 t1
           (Inr \<lparr>sse_status = 200, sse_text = txt', sse_lines = ls @ (Inr ''data: [DONE]'', t) # rest, sse_end = en\<rparr>) =
         (let cs = concat (map (content_of loads) ls)
          in (map (\<lambda>l. Print l []) chat_banner @ map (\<lambda>v. Put ''{}'' [J v]) cs
               @ [Print (''\<newline>'' @ dashes 50) [],
                  Print ''[ok] Complete  |  elapsed: {:.2f}s  |  ~{} tokens'' [R (t1 - t0), I (int (length cs))],
                  Print ''   Throughput: ~{:.1f} tokens/s'' [R (real (length cs) / (t1 - t0))]],
              Inr ()))"
  using assms
  by (simp add: stream_chat_def chat_loop_ok sse_classify_def startswith_def str_simps chat_summary_def
      io_simps Let_def)

theorem stream_chat_prints_content_witness:
  "result (stream_chat demo_loads 0 2 (Inr \<lparr>sse_status = 200, sse_text = [],
     sse_lines = [(Inr ''data: {hi}'', 1)] @ (Inr ''data: [DONE]'', 1) # [], sse_end = Finished\<rparr>)) = Inr ()"
  by (subst stream_chat_prints_content)
    (simp_all add: chat_line_ok_def sse_classify_def chunk_delta_def demo_loads_def json_simps str_simps Let_def)

text \<open>An event without \<^verbatim>\<open>choices\<close> ends the interactive demo with an uncaught exception: if a \<^verbatim>\<open>data:\<close> line
  decodes to an object that lacks the key, as the gateway's \<^verbatim>\<open>upstream_interrupted\<close> event does, the
  \<^verbatim>\<open>KeyError\<close> leaves \<^verbatim>\<open>stream_chat\<close> after the content before it was printed.\<close>

theorem stream_chat_error_event:
  assumes "\<forall>l \<in> set ls. chat_line_ok loads l" "sse_classify line = Data d"
    "loads d = Inr (JObj kv)" "map_of kv ''choices'' = None"
  shows "stream_chat loads t0 t1
           (Inr \<lparr>sse_status = 200, sse_text = txt', sse_lines = ls @ (Inr line, t) # rest, sse_end = en\<rparr>) =
         (map (\<lambda>l. Print l []) chat_banner @ map (\<lambda>v. Put ''{}'' [J v]) (concat (map (content_of loads) ls)),
          Inl KeyErr)"
  using assms
  by (simp add: stream_chat_def chat_loop_ok chunk_delta_def io_simps Let_def)

theorem stream_chat_error_event_witness:
  "result (stream_chat demo_loads 0 2 (Inr \<lparr>sse_status = 200, sse_text = [],
     sse_lines = [(Inr ''data: {hi}'', 1)] @ (Inr ''data: {error}'', 1) # [], sse_end = Finished\<rparr>)) = Inl KeyErr"
  by (subst stream_chat_error_event [where d = "''{error}''" and kv = "[(''error'', JObj [(''type'', JStr ''upstream_interrupted'')])]"])
    (simp_all add: chat_line_ok_def sse_classify_def chunk_delta_def demo_loads_def json_simps str_simps)

end
