(* ===== verification/Load_Test.thy ===== *)
theory Load_Test
  imports Sse_Client
begin

section \<open>Load tests of the demos\<close>

text \<open>
  Models \<^verbatim>\<open>benchmark_ttft\<close> and \<^verbatim>\<open>benchmark_throughput\<close> of the four parallelism demos and the concurrent
  workload of \<^verbatim>\<open>enterprise_qa_demo\<close>. A thread pool is the list of what its futures give, in the order
  \<^verbatim>\<open>as_completed\<close> yields them; every order is allowed. The clock readings a function makes are its
  arguments.
\<close>

subsection \<open>One request\<close>

definition raise_for_status :: "response \<Rightarrow> unit res" where
  "raise_for_status r =
     (if 400 \<le> status_code r \<and> status_code r < 600 then Inl (RequestErr ''HTTPError'') else Inr ())"

fun json_strip :: "json \<Rightarrow> string res" where
  "json_strip (JStr s) = Inr (strip s)"
| "json_strip _ = Inl AttributeErr"

text \<open>\<^verbatim>\<open>r.json()["choices"][0]["message"]["content"].strip()\<close>\<close>

definition chat_answer :: "json \<Rightarrow> string res" where
  "chat_answer body =
     res_bind (py_item body ''choices'') (\<lambda>choices.
     res_bind (py_first choices) (\<lambda>choice.
     res_bind (py_item choice ''message'') (\<lambda>message.
     res_bind (py_item message ''content'') json_strip)))"

type_synonym outcome = "bool \<times> real \<times> arg"

definition single :: "real \<Rightarrow> real \<Rightarrow> call \<Rightarrow> outcome res" where
  "single t0 t1 post =
     (case res_bind post (\<lambda>r.
             res_bind (raise_for_status r) (\<lambda>_.
             res_bind (json_of r) (\<lambda>body.
             res_bind (chat_answer body) (\<lambda>ans. Inr (take 40 ans))))) of
        Inr ans \<Rightarrow> Inr (True, t1 - t0, S ans)
      | Inl e \<Rightarrow> if is_Exception e then Inr (False, t1 - t0, X e) else Inl e)"

subsection \<open>Counting the outcomes\<close>

record tally =
  success :: nat
  fail :: nat
  latencies :: "real list"

definition tally0 :: tally where
  "tally0 = \<lparr>success = 0, fail = 0, latencies = []\<rparr>"

fun tally_one :: "tally \<Rightarrow> outcome \<Rightarrow> tally io" where
  "tally_one c (ok, lat, ans) =
     (if ok
      then io_then (io_print ''  [ok] {:.1f}s -> {}'' [R lat, ans])
             (io_return (c\<lparr>success := success c + 1, latencies := latencies c @ [lat]\<rparr>))
      else io_then (io_print ''  [x] {}'' [ans]) (io_return (c\<lparr>fail := fail c + 1\<rparr>)))"

fun tally_loop :: "tally \<Rightarrow> outcome res list \<Rightarrow> tally io" where
  "tally_loop c [] = io_return c"
| "tally_loop c (r # rs) =
     io_bind (io_lift r) (\<lambda>x. io_bind (tally_one c x) (\<lambda>c'. tally_loop c' rs))"

text \<open>
  \<^verbatim>\<open>sorted(latencies)[int(len(latencies) * 0.95)]\<close>. The product is taken in double precision; below
  \<open>2\<^sup>4\<^sup>5\<close> samples its integer part is that of the exact value \<open>95 n / 100\<close>, which the model uses.
\<close>

definition p95_rank :: "nat \<Rightarrow> nat" where
  "p95_rank n = n * 95 div 100"

definition py_nth :: "'a list \<Rightarrow> nat \<Rightarrow> 'a res" where
  "py_nth xs i = (if i < length xs then Inr (xs ! i) else Inl IndexErr)"

definition p95_of :: "real list \<Rightarrow> real res" where
  "p95_of xs = py_nth (sort xs) (p95_rank (length xs))"

definition report_latency :: "real list \<Rightarrow> unit io" where
  "report_latency lats =
     io_bind (io_lift (median lats)) (\<lambda>p50.
     io_bind (io_lift (p95_of lats)) (\<lambda>p95.
     io_print ''Latency: P50={:.0f}ms  P95={:.0f}ms'' [R (p50 * 1000), R (p95 * 1000)]))"

definition benchmark_throughput :: "nat \<Rightarrow> real \<Rightarrow> outcome res list \<Rightarrow> tally io" where
  "benchmark_throughput n wall completed =
     io_bind (tally_loop tally0 completed) (\<lambda>c.
      io_then (io_print ''\<newline>Wall time: {:.1f}s  |  success: {}/{}  |  failed: {}/{}''
                 [R wall, I (int (success c)), I (int n), I (int (fail c)), I (int n)])
     (io_then (io_when (latencies c \<noteq> []) (report_latency (latencies c)))
        (io_return c)))"

text \<open>\<^verbatim>\<open>dp_demo\<close> adds an estimate: four times the wall time, and its ratio to the wall time.\<close>

definition dp_scaling :: "real \<Rightarrow> real \<times> real" where
  "dp_scaling wall = (let single_node_est = wall * 4 in (single_node_est, single_node_est / max wall 0.1))"

definition dp_benchmark_throughput :: "real \<Rightarrow> outcome res list \<Rightarrow> tally io" where
  "dp_benchmark_throughput wall completed =
     io_bind (benchmark_throughput 40 wall completed) (\<lambda>c.
     io_then
       (io_when (latencies c \<noteq> [])
          (let (est, ratio) = dp_scaling wall
           in io_then (io_print ''\<newline>Illustrative DP scaling estimate (not a measured single-GPU baseline):'' [])
             (io_then (io_print ''  Measured wall time for 40 concurrent requests: {:.1f}s'' [R wall])
             (io_then (io_print ''  Sequential estimate from this run: ~{:.1f}s'' [R est])
                (io_print ''  Estimated ratio: ~{:.1f}x'' [R ratio])))))
       (io_return c))"

text \<open>The prompts \<^verbatim>\<open>dp_demo\<close> cycles through, and the prompt of each of the 40 requests.\<close>

definition SYSTEM_PROMPTS :: "string list" where
  "SYSTEM_PROMPTS =
     [''You are a helpful assistant for the engineering team.'',
      ''You are a helpful assistant for the finance team.'',
      ''You are a helpful assistant for the sales team.'',
      ''You are a helpful assistant for the legal team.'']"

definition dp_payload_prompts :: "string list" where
  "dp_payload_prompts = map (\<lambda>i. SYSTEM_PROMPTS ! (i mod 4)) [0..<40]"

subsection \<open>Time to first token, five runs per prompt\<close>

fun ttft_runs :: "(nat \<Rightarrow> real io) \<Rightarrow> nat list \<Rightarrow> real list io" where
  "ttft_runs run [] = io_return []"
| "ttft_runs run (i # is) =
     io_bind (run i) (\<lambda>t.
     io_then (io_prints [Put ''.'' []])
     (io_bind (ttft_runs run is) (\<lambda>ts. io_return (if t > 0 then t # ts else ts))))"

fun benchmark_ttft :: "(string \<times> string) list \<Rightarrow> (string \<Rightarrow> string \<Rightarrow> nat \<Rightarrow> real io) \<Rightarrow> (string \<times> real) list io" where
  "benchmark_ttft [] run = io_return []"
| "benchmark_ttft ((name, prompt) # ps) run =
     io_then (io_prints [Put ''\<newline>[{}] ~{}-word prompt'' [S name, I (int (length (split_ws prompt)))]])
     (io_bind (ttft_runs (run prompt name) [0..<5]) (\<lambda>times.
      if times \<noteq> []
      then io_bind (io_lift (median times)) (\<lambda>med.
           io_then (io_print ''  median TTFT: {:.1f}ms  (min={:.1f}ms)'' [R (med * 1000), R (Min (set times) * 1000)])
           (io_bind (benchmark_ttft ps run) (\<lambda>rest. io_return ((name, med) # rest))))
      else io_then (io_print ''  failed'' []) (benchmark_ttft ps run)))"

subsection \<open>The internal-assistant workload\<close>

definition DEPARTMENT_PROMPTS :: "(string \<times> string) list" where
  "DEPARTMENT_PROMPTS =
     [(''Engineering'', ''You are a helpful AI assistant serving the Engineering department. Be concise and accurate.''),
      (''HR'', ''You are a helpful AI assistant serving the HR department. Be concise and friendly.''),
      (''Finance'', ''You are a helpful AI assistant serving the Finance department. Be concise and precise.''),
      (''Product'', ''You are a helpful AI assistant serving the Product department. Be concise and clear.''),
      (''Marketing'', ''You are a helpful AI assistant serving the Marketing department. Be concise and engaging.'')]"

definition DEPARTMENTS :: "string list" where
  "DEPARTMENTS = map fst DEPARTMENT_PROMPTS"

definition EMPLOYEE_QUESTIONS :: "string list" where
  "EMPLOYEE_QUESTIONS =
     [''I want to know about the revolutionary RadixAttention approach.'',
      ''Which framework uses RadixAttention and what does it do?'',
      ''Where is the Eiffel Tower located and who built it?'',
      ''Could you tell me the capital of France?'',
      ''Hello! Write a 1-sentence greeting for our team.'',
      ''How much is 1 + 1? Be concise.'']"

definition employee_dept :: "nat \<Rightarrow> string" where
  "employee_dept i = DEPARTMENTS ! (i mod length DEPARTMENTS)"

definition employee_question :: "nat \<Rightarrow> string" where
  "employee_question i = EMPLOYEE_QUESTIONS ! (i mod length EMPLOYEE_QUESTIONS)"

definition simulate_employee :: "nat \<Rightarrow> real \<Rightarrow> real \<Rightarrow> call \<Rightarrow> (bool \<times> out) res" where
  "simulate_employee i start t1 post =
     (let dept = employee_dept i; question = employee_question i
      in case res_bind post (\<lambda>resp.
                if status_code resp \<noteq> 200
                then Inr (False, Print ''[{}][user {}] [x] HTTP {}: {}''
                       [S dept, I (int i), I (status_code resp), S (take 100 (body_text resp))])
                else res_bind (json_of resp) (\<lambda>body.
                     res_bind (chat_answer body) (\<lambda>answer.
                     Inr (True, Print (''[{}][user {}] latency {:.2f}s [ok]\<newline>  prompt: {}\<newline>  answer: {}\<newline>'' @ dashes 50)
                       [S dept, I (int i), R (t1 - start), S question,
                        S (map (\<lambda>c. if c = CHR 0x0A then CHR '' '' else c) (take 80 answer))])))) of
           Inr x \<Rightarrow> Inr x
         | Inl e \<Rightarrow> if is_Exception e then Inr (False, Print ''[{}][user {}] error: {}'' [S dept, I (int i), X e])
                     else Inl e)"

fun employee_loop :: "nat \<times> nat \<Rightarrow> (bool \<times> out) res list \<Rightarrow> (nat \<times> nat) io" where
  "employee_loop c [] = io_return c"
| "employee_loop c (r # rs) =
     io_bind (io_lift r) (\<lambda>(ok, msg).
     io_then (io_prints [msg])
       (employee_loop (if ok then (fst c + 1, snd c) else (fst c, snd c + 1)) rs))"

definition all_completed :: string where
  "all_completed = ''[ok] All submitted requests completed in this run.''"

definition enterprise_run :: "real \<Rightarrow> (bool \<times> out) res list \<Rightarrow> (nat \<times> nat) io" where
  "enterprise_run elapsed completed =
     io_then (io_print ''\<newline>Sending {} requests across {} departments'' [I 30, I (int (length DEPARTMENTS))])
     (io_then (say [dashes 60])
     (io_bind (employee_loop (0, 0) completed) (\<lambda>(success_count, fail_count).
      io_then (say [ruler, ''Workload complete.''])
     (io_then (io_print ''   Wall time: {:.1f}s'' [R elapsed])
     (io_then (io_print ''   Requests:  {}'' [I 30])
     (io_then (io_print ''   Success:   {}'' [I (int success_count)])
     (io_then (io_print ''   Failed:    {}'' [I (int fail_count)])
     (io_then (io_when (fail_count = 0) (say [all_completed]))
     (io_then (say [ruler])
        (io_return (success_count, fail_count)))))))))))"

subsection \<open>Lemmas\<close>

definition tally_of :: "tally \<Rightarrow> outcome list \<Rightarrow> tally" where
  "tally_of c xs =
     \<lparr>success = success c + length (filter fst xs),
      fail = fail c + length (filter (\<lambda>x. \<not> fst x) xs),
      latencies = latencies c @ map (\<lambda>x. fst (snd x)) (filter fst xs)\<rparr>"

lemma tally_loop_result: "result (tally_loop c (map Inr xs)) = Inr (tally_of c xs)"
proof (induction xs arbitrary: c)
  case Nil
  then show ?case by (simp add: tally_of_def)
next
  case (Cons x xs)
  then show ?case by (cases x) (auto simp: tally_of_def)
qed

interpretation p95: rank_statistic p95_rank
  by unfold_locales (simp add: p95_rank_def)

lemma p95_of_ok: "xs \<noteq> [] \<Longrightarrow> p95_of xs = Inr (sort xs ! p95_rank (length xs))"
  using p95.rank_in_sorted [of xs] by (simp add: p95_of_def py_nth_def)

lemma report_latency_ok: "lats \<noteq> [] \<Longrightarrow> result (report_latency lats) = Inr ()"
  using median_ok [of lats] by (auto simp: report_latency_def p95_of_ok)

lemma median_perm: "mset xs = mset ys \<Longrightarrow> median xs = median ys"
proof -
  assume h: "mset xs = mset ys"
  have "sort xs = sort ys" "length xs = length ys"
    by (rule sort_mset_eq [OF h], rule mset_eq_length [OF h])
  then show ?thesis by (simp add: median_def)
qed

lemma p95_of_perm: "mset xs = mset ys \<Longrightarrow> p95_of xs = p95_of ys"
proof -
  assume h: "mset xs = mset ys"
  have "sort xs = sort ys" "length xs = length ys"
    by (rule sort_mset_eq [OF h], rule mset_eq_length [OF h])
  then show ?thesis by (simp add: p95_of_def)
qed

lemma benchmark_throughput_result:
  "result (benchmark_throughput n wall (map Inr xs)) = Inr (tally_of tally0 xs)"
  using report_latency_ok [of "latencies (tally_of tally0 xs)"]
  by (auto simp: benchmark_throughput_def tally_loop_result)

lemma employee_loop_result:
  "result (employee_loop (s, f) (map Inr xs)) =
     Inr (s + length (filter fst xs), f + length (filter (\<lambda>x. \<not> fst x) xs))"
proof (induction xs arbitrary: s f)
  case (Cons x xs)
  then show ?case by (cases x) auto
qed simp

lemma ttft_runs_result:
  "(\<And>i. result (run i) = Inr (smp i)) \<Longrightarrow>
   result (ttft_runs run is) = Inr (filter (\<lambda>t. t > 0) (map smp is))"
  by (induction "is") auto

subsection \<open>Properties\<close>

text \<open>C35. The throughput report accounts for every request: whatever the outcomes and their order, the report
  completes without an exception (the P95 index is always inside the sample), successes and failures add
  up to the number of futures, and there is one latency per success.\<close>

theorem throughput_accounts:
  "\<exists>c. result (benchmark_throughput n wall (map Inr xs)) = Inr c
     \<and> success c + fail c = length xs \<and> length (latencies c) = success c
     \<and> mset (latencies c) = image_mset (\<lambda>x. fst (snd x)) (filter_mset fst (mset xs))"
proof -
  have "length (filter fst xs) + length (filter (\<lambda>x. \<not> fst x) xs) = length xs"
    by (rule sum_length_filter_compl)
  then show ?thesis
    by (simp add: benchmark_throughput_result tally_of_def tally0_def)
qed

text \<open>The reported latency percentiles do not depend on the order in which the threads finish: two
  completion orders of the same outcomes give the same latency line.\<close>

theorem latency_report_order_independent:
  assumes "mset xs = mset ys"
  shows "report_latency (latencies (tally_of tally0 xs)) = report_latency (latencies (tally_of tally0 ys))"
proof -
  have "mset (latencies (tally_of tally0 xs)) = mset (latencies (tally_of tally0 ys))"
    using assms by (simp add: tally_of_def tally0_def)
  then have "median (latencies (tally_of tally0 xs)) = median (latencies (tally_of tally0 ys))"
    "p95_of (latencies (tally_of tally0 xs)) = p95_of (latencies (tally_of tally0 ys))"
    by (rule median_perm, rule p95_of_perm)
  then show ?thesis by (simp add: report_latency_def)
qed

theorem latency_report_order_independent_witness:
  "report_latency (latencies (tally_of tally0 [(True, 2, S []), (False, 9, S []), (True, 1, S [])]))
   = report_latency (latencies (tally_of tally0 [(True, 1, S []), (True, 2, S []), (False, 9, S [])]))"
  by (rule latency_report_order_independent) simp

text \<open>The value printed as P95 is one of the measured latencies, and at least 95 percent of the latencies
  are no larger than it.\<close>

theorem p95_of_covers:
  assumes "xs \<noteq> []"
  shows "\<exists>v \<in> set xs. p95_of xs = Inr v \<and> 95 * length xs \<le> 100 * length (filter (\<lambda>x. x \<le> v) xs)"
proof -
  have "length xs * 95 < 100 * Suc (p95_rank (length xs))"
    using dividend_less_times_div [of 100 "length xs * 95"] by (simp add: p95_rank_def)
  also have "\<dots> \<le> 100 * length (filter (\<lambda>x. x \<le> sort xs ! p95_rank (length xs)) xs)"
    using p95.picked_count_le [OF assms] by simp
  finally have "95 * length xs \<le> 100 * length (filter (\<lambda>x. x \<le> sort xs ! p95_rank (length xs)) xs)"
    by simp
  with p95.picked_in_sample [OF assms] p95_of_ok [OF assms] show ?thesis by blast
qed

theorem p95_of_covers_witness:
  "\<exists>v \<in> set [3, 1, 2 :: real]. p95_of [3, 1, 2] = Inr v
     \<and> 95 * length [3, 1, 2 :: real] \<le> 100 * length (filter (\<lambda>x. x \<le> v) [3, 1, 2])"
  by (rule p95_of_covers) simp

text \<open>The estimated scaling ratio that \<^verbatim>\<open>dp_demo\<close> prints carries no measurement: for every wall time of at
  least a tenth of a second it is exactly 4.\<close>

theorem dp_scaling_constant:
  assumes "0.1 \<le> wall"
  shows "dp_scaling wall = (4 * wall, 4)"
  using assms by (simp add: dp_scaling_def Let_def max_def)

theorem dp_scaling_constant_witness: "dp_scaling 2.5 = (4 * 2.5, 4)"
  by (rule dp_scaling_constant) simp

text \<open>The 30 simulated employees cover every pair of a department and a question exactly once, and the 40
  requests of \<^verbatim>\<open>dp_demo\<close> use each of the four system prompts exactly ten times.\<close>

theorem workload_spread:
  "distinct (map (\<lambda>i. (employee_dept i, employee_question i)) [0..<30])
   \<and> set (map (\<lambda>i. (employee_dept i, employee_question i)) [0..<30]) = set DEPARTMENTS \<times> set EMPLOYEE_QUESTIONS
   \<and> map (count_list dp_payload_prompts) SYSTEM_PROMPTS = [10, 10, 10, 10]"
proof (intro conjI)
  show "distinct (map (\<lambda>i. (employee_dept i, employee_question i)) [0..<30])" by code_simp
  show "set (map (\<lambda>i. (employee_dept i, employee_question i)) [0..<30]) = set DEPARTMENTS \<times> set EMPLOYEE_QUESTIONS"
    by code_simp
  show "map (count_list dp_payload_prompts) SYSTEM_PROMPTS = [10, 10, 10, 10]" by code_simp
qed

text \<open>The enterprise workload counts every employee once and claims that all requests completed exactly when
  none of them failed.\<close>

theorem enterprise_run_counts:
  "result (enterprise_run elapsed (map Inr xs)) = Inr (length (filter fst xs), length (filter (\<lambda>x. \<not> fst x) xs))
   \<and> (Print all_completed [] = last (butlast (printed (enterprise_run elapsed (map Inr xs)))) \<longleftrightarrow> list_all fst xs)"
proof -
  obtain os where loop: "employee_loop (0, 0) (map Inr xs) =
      (os, Inr (length (filter fst xs), length (filter (\<lambda>x. \<not> fst x) xs)))"
    using employee_loop_result [of 0 0 xs] by (cases "employee_loop (0, 0) (map Inr xs)") auto
  have "length (filter (\<lambda>x. \<not> fst x) xs) = 0 \<longleftrightarrow> list_all fst xs"
    by (auto simp: filter_empty_conv list_all_iff)
  then show ?thesis by (auto simp: enterprise_run_def all_completed_def io_simps loop butlast_append)
qed

text \<open>The first-token benchmark reports, for each prompt, the median of its positive samples, and leaves a
  prompt out exactly when none of its five samples is positive.\<close>

theorem benchmark_ttft_medians:
  assumes "\<And>p n i. result (run p n i) = Inr (smp p n i)"
  shows "result (benchmark_ttft ps run) =
     Inr (List.map_filter (\<lambda>(name, prompt).
       case median (filter (\<lambda>t. t > 0) (map (smp prompt name) [0..<5])) of
         Inl e \<Rightarrow> None | Inr m \<Rightarrow> Some (name, m)) ps)"
proof (induction ps)
  case Nil
  then show ?case by (simp add: map_filter_simps)
next
  case (Cons p ps)
  obtain name prompt where p: "p = (name, prompt)" by (cases p)
  let ?ts = "filter (\<lambda>t. t > 0) (map (smp prompt name) [0..<5])"
  have runs: "result (ttft_runs (run prompt name) [0..<5]) = Inr ?ts"
    by (rule ttft_runs_result) (rule assms)
  show ?case
  proof (cases "?ts = []")
    case True
    then have "median ?ts = Inl StatisticsErr" by (simp add: median_def)
    with True runs Cons p show ?thesis by (simp add: map_filter_simps del: upt_rec_numeral)
  next
    case False
    then obtain m where "median ?ts = Inr m" using median_ok by blast
    with False runs Cons p show ?thesis by (simp add: map_filter_simps del: upt_rec_numeral)
  qed
qed

theorem benchmark_ttft_medians_witness:
  "result (benchmark_ttft [(''short'', ''Say hi.''), (''down'', ''Say hi.'')]
     (\<lambda>p n i. io_return (if n = ''short'' then 1 else - 1))) = Inr [(''short'', 1)]"
  by (subst benchmark_ttft_medians [where smp = "\<lambda>p n i. if n = ''short'' then 1 else - 1"])
    (simp_all add: map_filter_simps median_def map_replicate_const sorted_sort_id)

end
