(* ===== verification/Log_Utils.thy ===== *)
theory Log_Utils
  imports Py_Base
begin

section \<open>Container-log collection and hardware summaries (examples/\_log\_utils.py)\<close>

text \<open>
  Models \<^verbatim>\<open>examples/_log_utils.py\<close>: the hardware summary and its machine tag, the loading of
  \<^verbatim>\<open>.env\<close>, and the collection of container logs from the local Docker daemon or over SSH. The
  subprocesses (\<^verbatim>\<open>nvidia-smi\<close>, \<^verbatim>\<open>docker\<close>, \<^verbatim>\<open>ssh\<close>) are the fields of \<open>host_env\<close>; the environment
  variables and the files written are the fields of \<open>world\<close>.
\<close>

definition CONTAINERS :: "string list" where
  "CONTAINERS =
     [''gateway'',
      ''sglang-dp-0'', ''sglang-dp-1'', ''sglang-dp-2'', ''sglang-dp-3'',
      ''sglang-ep'',
      ''sglang-tp'',
      ''sglang-router'', ''sglang-prefill'', ''sglang-decode'']"

subsection \<open>The hardware summary\<close>

text \<open>
  The loop over the rows of \<^verbatim>\<open>nvidia-smi\<close>: what it printed, the names collected so far and the
  exception that ended it, if any. A memory field that is not a number raises after the name was
  appended.
\<close>

fun hw_scan :: "string list \<Rightarrow> string list \<Rightarrow> out list \<times> string list \<times> exn option" where
  "hw_scan names [] = ([], names, None)"
| "hw_scan names (line # ls) =
     (let parts = map strip (split_on (CHR '','') line)
      in if length parts < 3 then hw_scan names ls
         else let idx = parts ! 0; name = parts ! 1; mem = parts ! 2; names' = names @ [name]
              in case py_int mem of
                   None \<Rightarrow> ([], names', Some ValueErr)
                 | Some m \<Rightarrow>
                     (let (os, ns, e) = hw_scan names' ls
                      in (Print ''  GPU {}: {}  ({} GB)'' [S idx, S name, I (m div 1024)] # os, ns, e)))"

text \<open>The first \<^verbatim>\<open>try\<close> block: the names and \<^verbatim>\<open>gpu_count\<close>, which is only assigned when the loop ends.\<close>

definition hw_gpus :: "string res \<Rightarrow> (string list \<times> nat) io" where
  "hw_gpus smi =
     (case smi of
        Inl e \<Rightarrow> io_try (io_raise e)
          (\<lambda>e. io_then (io_print ''  nvidia-smi unavailable: {}'' [X e]) (io_return ([], 0)))
      | Inr outp \<Rightarrow>
          (let (os, names, err) = hw_scan [] (splitlines (strip outp))
           in case err of
                None \<Rightarrow> io_then (io_prints os) (io_return (names, length names))
              | Some e \<Rightarrow> io_then (io_prints os)
                  (io_then (io_print ''  nvidia-smi unavailable: {}'' [X e]) (io_return (names, 0)))))"

definition hw_link_type :: "string res \<Rightarrow> string res" where
  "hw_link_type topo =
     (case topo of
        Inl e \<Rightarrow> if is_Exception e then Inr ''PCIe (assumed)'' else Inl e
      | Inr t \<Rightarrow>
          (let lines = filter (\<lambda>l. strip l \<noteq> [] \<and> \<not> startswith l ''GPU'') (splitlines t);
               nvlink_found = list_ex (\<lambda>l. contains ''NV'' l) lines
           in Inr (if nvlink_found then ''NVLink'' else ''PCIe'')))"

definition hw_short_name :: "string list \<Rightarrow> string" where
  "hw_short_name gpu_names =
     (case gpu_names of
        [] \<Rightarrow> ''UnknownGPU''
      | raw # _ \<Rightarrow>
          if contains ''H100'' raw then ''H100''
          else if contains ''H800'' raw then ''H800''
          else if contains ''A100'' raw then ''A100''
          else if contains ''A10'' raw then ''A10''
          else if contains ''4090'' raw then ''RTX4090''
          else if contains ''3090'' raw then ''RTX3090''
          else if contains ''L40'' raw then ''L40''
          else take 12 (remove_char (CHR ''/'') (remove_char (CHR '' '') raw)))"

definition hw_tag :: "nat \<Rightarrow> string list \<Rightarrow> string \<Rightarrow> string" where
  "hw_tag gpu_count gpu_names link_type =
     show_nat gpu_count @ ''x'' @ hw_short_name gpu_names @ ''_''
       @ (if contains ''NVLink'' link_type then ''NVLink'' else ''PCIe'')"

definition print_hw_info :: "string res \<Rightarrow> string res \<Rightarrow> string io" where
  "print_hw_info smi topo =
     io_then (heading [''Hardware''])
     (io_bind (hw_gpus smi) (\<lambda>(gpu_names, gpu_count).
      io_bind (io_lift (hw_link_type topo)) (\<lambda>link_type.
      io_then (io_print ''\<newline>  GPU count    : {}'' [I (int gpu_count)])
     (io_then (io_print ''  Interconnect : {}'' [S link_type])
     (io_then
        (if startswith link_type ''NVLink''
         then say [''  -> NVLink is available for TP All-Reduce and EP All-to-All traffic'']
         else say [''  -> PCIe topology detected; measure collective overhead on this host'',
                   ''     because TP/EP behavior depends on the model, batch, and NCCL path''])
     (let tag = hw_tag gpu_count gpu_names link_type
      in io_then (io_print ''\<newline>  Host tag     : {}  (included in the log filename)'' [S tag])
        (io_then (say [ruler])
           (io_return tag))))))))"

subsection \<open>The \_Tee output and the log file's name\<close>

text \<open>
  The demos replace \<^verbatim>\<open>sys.stdout\<close> by a \<^verbatim>\<open>_Tee\<close> over the terminal and the log file. A target is what was
  written to it, how much of it has been flushed, and whether it is closed; a write to a closed
  target raises and the targets after it are not reached.
\<close>

record target =
  buffer :: string
  flushed :: nat
  closed :: bool

fun tee_write :: "target list \<Rightarrow> string \<Rightarrow> target list \<times> unit res" where
  "tee_write [] s = ([], Inr ())"
| "tee_write (t # ts) s =
     (if closed t then (t # ts, Inl ValueErr)
      else (let (ts', r) = tee_write ts s in (t\<lparr>buffer := buffer t @ s\<rparr> # ts', r)))"

fun tee_flush :: "target list \<Rightarrow> target list \<times> unit res" where
  "tee_flush [] = ([], Inr ())"
| "tee_flush (t # ts) =
     (if closed t then (t # ts, Inl ValueErr)
      else (let (ts', r) = tee_flush ts in (t\<lparr>flushed := length (buffer t)\<rparr> # ts', r)))"

text \<open>
  \<^verbatim>\<open>_log_path = os.path.join(_LOG_DIR, f"<demo>_{stamp}.log")\<close> at the top of each demo and the time
  stamp that its \<open>main\<close> takes back out of the name.
\<close>

definition log_path_of :: "string \<Rightarrow> string \<Rightarrow> string \<Rightarrow> string" where
  "log_path_of log_dir demo stamp = path_join log_dir (demo @ ''_'' @ stamp @ ''.log'')"

definition log_ts :: "string \<Rightarrow> string \<Rightarrow> string" where
  "log_ts demo log_path = remove_sub ''.log'' (remove_sub (demo @ ''_'') (path_basename log_path))"

subsection \<open>Container logs\<close>

record world =
  environ :: "string \<Rightarrow> string option"
  files :: "string \<Rightarrow> string option"

record host_env =
  which_docker :: bool
  docker_info_rc :: int
  docker_ps :: "string \<Rightarrow> string res"
  docker_logs :: "string \<Rightarrow> string res"
  ssh_ps :: "string \<Rightarrow> string \<Rightarrow> string \<Rightarrow> string res"
  ssh_logs :: "string \<Rightarrow> string \<Rightarrow> string \<Rightarrow> string res"
  can_open :: "string \<Rightarrow> bool"
  env_file :: "string list option"

definition docker_local_ok :: "host_env \<Rightarrow> bool" where
  "docker_local_ok h = (if \<not> which_docker h then False else docker_info_rc h = 0)"

definition container_log_path :: "string \<Rightarrow> string \<Rightarrow> string \<Rightarrow> string" where
  "container_log_path log_dir ts name = path_join log_dir (name @ ''_'' @ ts @ ''.log'')"

text \<open>
  One pass over the containers, with the command that lists a container and the one that prints its
  log as arguments. The log file is opened (and so emptied) before the log command runs.
\<close>

fun save_loop :: "(string \<Rightarrow> string res) \<Rightarrow> (string \<Rightarrow> string res) \<Rightarrow> (string \<Rightarrow> bool)
    \<Rightarrow> string \<Rightarrow> string \<Rightarrow> string list \<Rightarrow> (string \<Rightarrow> string option)
    \<Rightarrow> (string \<Rightarrow> string option) \<times> (string \<times> string) list res" where
  "save_loop ps lg opn log_dir ts [] fs = (fs, Inr [])"
| "save_loop ps lg opn log_dir ts (name # names) fs =
     (case ps name of
        Inl e \<Rightarrow> (fs, Inl e)
      | Inr stdout \<Rightarrow>
          if \<not> contains name stdout then save_loop ps lg opn log_dir ts names fs
          else let out_path = container_log_path log_dir ts name
               in if \<not> opn out_path then (fs, Inl OSErr)
                  else (case lg name of
                          Inl e \<Rightarrow> (fs(out_path \<mapsto> []), Inl e)
                        | Inr logtxt \<Rightarrow>
                            (let (fs', r) = save_loop ps lg opn log_dir ts names (fs(out_path \<mapsto> logtxt))
                             in (fs', res_bind r (\<lambda>saved. Inr ((name, out_path) # saved))))))"

definition save_via_local :: "host_env \<Rightarrow> string \<Rightarrow> string \<Rightarrow> (string \<Rightarrow> string option)
    \<Rightarrow> (string \<Rightarrow> string option) \<times> (string \<times> string) list res" where
  "save_via_local h log_dir ts fs =
     save_loop (docker_ps h) (docker_logs h) (can_open h) log_dir ts CONTAINERS fs"

definition ssh_host_port :: "string \<Rightarrow> string \<times> string" where
  "ssh_host_port ssh_target =
     (let parts = rsplit1 (CHR '':'') ssh_target
      in (parts ! 0, if length parts = 2 then parts ! 1 else ''22''))"

definition save_via_ssh :: "host_env \<Rightarrow> string \<Rightarrow> string \<Rightarrow> string \<Rightarrow> (string \<Rightarrow> string option)
    \<Rightarrow> (string \<Rightarrow> string option) \<times> (string \<times> string) list res" where
  "save_via_ssh h log_dir ts ssh_target fs =
     (let (host, port) = ssh_host_port ssh_target
      in save_loop (ssh_ps h port host) (ssh_logs h port host) (can_open h) log_dir ts CONTAINERS fs)"

subsection \<open>The .env file\<close>

text \<open>One line of the file; \<open>None\<close> for the lines the loop skips.\<close>

definition parse_env_line :: "string \<Rightarrow> (string \<times> string) option" where
  "parse_env_line raw =
     (let line = strip raw
      in if line = [] \<or> startswith line ''#'' \<or> \<not> contains ''='' line then None
         else let (k, _, v) = partition_on (CHR ''='') line;
                  key = strip k;
                  val = strip_chars [CHR 0x27] (strip_chars [CHR 0x22] (strip v))
              in if key = [] then None else Some (key, val))"

fun load_env_lines :: "string list \<Rightarrow> (string \<Rightarrow> string option) \<Rightarrow> (string \<Rightarrow> string option)" where
  "load_env_lines [] env = env"
| "load_env_lines (raw # ls) env =
     (case parse_env_line raw of
        None \<Rightarrow> load_env_lines ls env
      | Some (key, val) \<Rightarrow>
          load_env_lines ls (if env key = None then env(key \<mapsto> val) else env))"

definition load_env_file :: "host_env \<Rightarrow> world \<Rightarrow> world" where
  "load_env_file h w =
     (case env_file h of
        None \<Rightarrow> w
      | Some ls \<Rightarrow> w\<lparr>environ := load_env_lines ls (environ w)\<rparr>)"

definition report_saved :: "(string \<times> string) list \<Rightarrow> unit io" where
  "report_saved saved =
     (if saved \<noteq> []
      then io_prints (Print ''\<newline>[container logs saved]'' []
             # map (\<lambda>(name, path). Print ''  {} -> {}'' [S name, S path]) saved)
      else io_print ''\<newline>[container logs] No running PD containers found; skipping.'' [])"

definition save_container_logs :: "host_env \<Rightarrow> string \<Rightarrow> string \<Rightarrow> world \<Rightarrow> world \<times> unit io" where
  "save_container_logs h log_dir ts w0 =
     (let w = load_env_file h w0
      in if docker_local_ok h
         then (let (fs, r) = save_via_local h log_dir ts (files w)
               in (w\<lparr>files := fs\<rparr>, io_bind (io_lift r) report_saved))
         else (let ssh_target = (case environ w ''SSH_TARGET'' of None \<Rightarrow> [] | Some v \<Rightarrow> v)
               in if ssh_target = []
                  then (w, say [''\<newline>[container logs] Local Docker is unavailable. Configure either:'',
                      ''  1. Shell: echo '' @ quoted (''export SSH_TARGET='' @ [CHR 0x22] @ ''root@203.0.113.10:22'' @ [CHR 0x22]) @ '' >> ~/.zshrc'',
                      ''  2. Project: echo '' @ quoted ''SSH_TARGET=root@203.0.113.10:22'' @ '' >> .env''])
                  else (let (fs, r) = save_via_ssh h log_dir ts ssh_target (files w)
                        in (w\<lparr>files := fs\<rparr>, io_bind (io_lift r) report_saved))))"

subsection \<open>Lemmas\<close>

lemma load_env_lines_eq:
  "load_env_lines ls env = map_of (List.map_filter parse_env_line ls) ++ env"
proof (induction ls arbitrary: env)
  case Nil
  then show ?case by (simp add: map_filter_simps)
next
  case (Cons raw ls)
  show ?case
  proof (cases "parse_env_line raw")
    case None
    with Cons show ?thesis by (simp add: map_filter_simps)
  next
    case (Some kv)
    with Cons show ?thesis
      by (cases kv) (auto simp: map_filter_simps map_add_def split: option.splits intro!: ext)
  qed
qed

definition hw_rows :: "string \<Rightarrow> string list list" where
  "hw_rows outp = filter (\<lambda>p. 3 \<le> length p) (map (\<lambda>l. map strip (split_on (CHR '','') l)) (splitlines (strip outp)))"

lemma hw_scan_split:
  "hw_scan names ls = (os, ns, e) \<Longrightarrow>
   rows = filter (\<lambda>p. 3 \<le> length p) (map (\<lambda>l. map strip (split_on (CHR '','') l)) ls) \<Longrightarrow>
   if \<forall>p \<in> set rows. py_int (p ! 2) \<noteq> None
   then e = None \<and> ns = names @ map (\<lambda>p. p ! 1) rows
   else e = Some ValueErr"
proof (induction names ls arbitrary: os ns e rows rule: hw_scan.induct)
  case (1 names)
  then show ?case by simp
next
  case (2 names line ls)
  let ?parts = "map strip (split_on (CHR '','') line)"
  show ?case
  proof (cases "length ?parts < 3")
    case True
    with 2 show ?thesis by (simp add: Let_def)
  next
    case False
    note long = this
    show ?thesis
    proof (cases "py_int (?parts ! 2)")
      case None
      with long 2(3,4) show ?thesis by (auto simp: Let_def)
    next
      case (Some m)
      obtain os' ns' e' where rest: "hw_scan (names @ [?parts ! 1]) ls = (os', ns', e')"
        by (cases "hw_scan (names @ [?parts ! 1]) ls") auto
      from 2(2) [OF refl long refl refl refl refl Some rest refl] Some long 2(3,4) rest
      show ?thesis by (auto simp: Let_def split: if_splits)
    qed
  qed
qed

lemma tee_write_eq:
  "tee_write ts s =
     (map (\<lambda>t. t\<lparr>buffer := buffer t @ s\<rparr>) (takeWhile (\<lambda>t. \<not> closed t) ts) @ dropWhile (\<lambda>t. \<not> closed t) ts,
      if list_ex closed ts then Inl ValueErr else Inr ())"
  by (induction ts) (auto simp: Let_def)

lemma map_upd_fold_eq:
  "foldl (\<lambda>m (p, t). m(p \<mapsto> t)) fs xs = fs ++ map_of (rev xs)"
proof (induction xs arbitrary: fs)
  case (Cons x xs)
  then show ?case by (cases x) (simp add: map_add_def fun_eq_iff split: option.splits)
qed simp

lemma save_loop_all:
  assumes "\<And>n. n \<in> set names \<Longrightarrow> ps n = Inr (stdout n)" "\<And>n. n \<in> set names \<Longrightarrow> lg n = Inr (logtxt n)"
    "\<And>p. opn p"
  shows "save_loop ps lg opn log_dir ts names fs =
     (let running = filter (\<lambda>n. contains n (stdout n)) names
      in (foldl (\<lambda>m (p, t). m(p \<mapsto> t)) fs (map (\<lambda>n. (container_log_path log_dir ts n, logtxt n)) running),
          Inr (map (\<lambda>n. (n, container_log_path log_dir ts n)) running)))"
  using assms by (induction names arbitrary: fs) (auto simp: Let_def)

lemma save_container_logs_environ:
  "environ (fst (save_container_logs h log_dir ts w)) = environ (load_env_file h w)"
  by (simp add: save_container_logs_def Let_def split: prod.splits)

fun tee_writes :: "target list \<Rightarrow> string list \<Rightarrow> target list \<times> unit res" where
  "tee_writes ts [] = (ts, Inr ())"
| "tee_writes ts (s # ss) =
     (case tee_write ts s of (ts', Inl e) \<Rightarrow> (ts', Inl e) | (ts', Inr _) \<Rightarrow> tee_writes ts' ss)"

lemma tee_write_open:
  "\<forall>t \<in> set ts. \<not> closed t \<Longrightarrow> tee_write ts s = (map (\<lambda>t. t\<lparr>buffer := buffer t @ s\<rparr>) ts, Inr ())"
proof -
  assume h: "\<forall>t \<in> set ts. \<not> closed t"
  then have "takeWhile (\<lambda>t. \<not> closed t) ts = ts" "dropWhile (\<lambda>t. \<not> closed t) ts = []"
    by (auto simp: takeWhile_eq_all_conv dropWhile_eq_Nil_conv)
  moreover have "\<not> list_ex closed ts" using h by (simp add: list_ex_iff)
  ultimately show ?thesis by (simp only: tee_write_eq) simp
qed

subsection \<open>Properties\<close>

text \<open>The interconnect line ignores the topology matrix: the rows of \<^verbatim>\<open>nvidia-smi topo -m\<close> start with
  \<^verbatim>\<open>GPU\<close>, the filter drops every line that does, so whatever links the rows show (NV\<^emph>\<open>n\<close>, PHB, SYS), the
  result is the one for the remaining lines alone (the header and the legend).\<close>

theorem hw_link_ignores_gpu_rows:
  assumes "\<forall>r \<in> set rows. startswith r ''GPU'' \<and> (\<forall>c \<in> set r. \<not> is_linebreak c)"
  shows "hw_link_type (Inr (unlines rows @ rest)) = hw_link_type (Inr rest)"
proof -
  have "splitlines (unlines rows @ rest) = rows @ splitlines rest"
    using assms by (intro splitlines_unlines) auto
  moreover have "filter (\<lambda>l. strip l \<noteq> [] \<and> \<not> startswith l ''GPU'') rows = []"
    using assms by (auto simp: filter_empty_conv)
  ultimately show ?thesis by (simp add: hw_link_type_def Let_def)
qed

theorem hw_link_ignores_gpu_rows_witness:
  "hw_link_type (Inr (unlines [''GPU0  X  NV12'', ''GPU1  NV12  X''] @ ''CPU Affinity'')) = Inr ''PCIe''
   \<and> hw_link_type (Inr (unlines [''GPU0  X  PHB'', ''GPU1  PHB  X''] @ ''NV#  = bonded NVLinks'')) = Inr ''NVLink''"
proof
  show "hw_link_type (Inr (unlines [''GPU0  X  NV12'', ''GPU1  NV12  X''] @ ''CPU Affinity'')) = Inr ''PCIe''"
    by (subst hw_link_ignores_gpu_rows)
      (simp_all add: str_simps hw_link_type_def)
  show "hw_link_type (Inr (unlines [''GPU0  X  PHB'', ''GPU1  PHB  X''] @ ''NV#  = bonded NVLinks'')) = Inr ''NVLink''"
    by (subst hw_link_ignores_gpu_rows)
      (simp_all add: str_simps hw_link_type_def)
qed

text \<open>Loading \<^verbatim>\<open>.env\<close> before the logs are collected: a variable already set is never overwritten, and
  each other key takes its first binding in the file; every key of the file is loaded, not only
  \<^verbatim>\<open>SSH_TARGET\<close>.\<close>

theorem save_container_logs_env:
  "environ (fst (save_container_logs h log_dir ts w)) =
     (case env_file h of
        None \<Rightarrow> environ w
      | Some ls \<Rightarrow> map_of (List.map_filter parse_env_line ls) ++ environ w)"
  by (simp add: save_container_logs_environ load_env_file_def load_env_lines_eq split: option.split)

text \<open>The SSH target is split at its last colon: \<^verbatim>\<open>host:port\<close> gives back the host and the port, and a
  target without a colon gets port 22.\<close>

theorem ssh_host_port_roundtrip:
  assumes "CHR '':'' \<notin> set port"
  shows "ssh_host_port (host @ '':'' @ port) = (host, port)
    \<and> (CHR '':'' \<notin> set host \<longrightarrow> ssh_host_port host = (host, ''22''))"
  using assms rsplit1_colon [of "CHR '':''" port host] rsplit1_none [of "CHR '':''" host]
  by (simp add: ssh_host_port_def Let_def)

theorem ssh_host_port_roundtrip_witness:
  "ssh_host_port ''root@203.0.113.10:22'' = (''root@203.0.113.10'', ''22'')
   \<and> ssh_host_port ''root@host'' = (''root@host'', ''22'')"
  using ssh_host_port_roundtrip [of "''22''" "''root@203.0.113.10''"]
    ssh_host_port_roundtrip [of "''22''" "''root@host''"] by simp

text \<open>The time stamp a demo takes back out of its log file's name is the one it put in, for any demo
  name whose first character occurs neither in the stamp nor in the extension.\<close>

theorem log_ts_roundtrip:
  assumes "demo \<noteq> []" "hd demo \<notin> set (stamp @ ''.log'')" "CHR ''/'' \<notin> set (demo @ stamp)" "CHR ''.'' \<notin> set stamp"
  shows "log_ts demo (log_path_of log_dir demo stamp) = stamp"
proof -
  have "path_basename (log_path_of log_dir demo stamp) = (demo @ ''_'') @ stamp @ ''.log''"
    unfolding log_path_of_def using assms by (subst path_basename_join) auto
  moreover have "remove_sub (demo @ ''_'') ((demo @ ''_'') @ stamp @ ''.log'') = stamp @ ''.log''"
    using assms(1,2) by (subst remove_sub_front) (auto intro!: remove_sub_absent)
  moreover have "remove_sub ''.log'' (stamp @ ''.log'') = stamp"
    using assms(4) remove_sub_skip [of "''.log''" stamp "''.log''"] by (simp add: startswith_def)
  ultimately show ?thesis by (simp add: log_ts_def)
qed

theorem log_ts_roundtrip_witness:
  "log_ts ''dp_demo'' (log_path_of ''examples/logs'' ''dp_demo'' ''20260727_101500'') = ''20260727_101500''"
  by (rule log_ts_roundtrip) simp_all


definition demo_host :: host_env where
  "demo_host = \<lparr>which_docker = True, docker_info_rc = 0, docker_ps = (\<lambda>n. Inr (if n = ''gateway'' then n else [])),
     docker_logs = (\<lambda>n. Inr ''log''), ssh_ps = (\<lambda>_ _ _. Inl OSErr), ssh_logs = (\<lambda>_ _ _. Inl OSErr),
     can_open = (\<lambda>_. True), env_file = None\<rparr>"


text \<open>The terminal and the log file receive the same text: over any sequence of prints, each open target
  of the \<^verbatim>\<open>_Tee\<close> has exactly the concatenation of what was printed appended, and nothing raises.\<close>

theorem tee_mirrors:
  assumes "\<forall>t \<in> set ts. \<not> closed t"
  shows "tee_writes ts ss = (map (\<lambda>t. t\<lparr>buffer := buffer t @ concat ss\<rparr>) ts, Inr ())"
  using assms
proof (induction ss arbitrary: ts)
  case Nil
  then show ?case by simp
next
  case (Cons s ss)
  have "\<forall>t \<in> set (map (\<lambda>t. t\<lparr>buffer := buffer t @ s\<rparr>) ts). \<not> closed t"
    using Cons.prems by auto
  from Cons.IH [OF this] show ?case
    by (simp add: tee_write_open [OF Cons.prems] comp_def)
qed

theorem tee_mirrors_witness:
  "tee_writes [\<lparr>buffer = [], flushed = 0, closed = False\<rparr>, \<lparr>buffer = ''>'', flushed = 0, closed = False\<rparr>] [''ab'', ''c'']
   = ([\<lparr>buffer = ''abc'', flushed = 0, closed = False\<rparr>, \<lparr>buffer = ''>abc'', flushed = 0, closed = False\<rparr>], Inr ())"
  by (subst tee_mirrors) simp_all

text \<open>The GPU count in the machine tag: the number of complete \<^verbatim>\<open>nvidia-smi\<close> rows when every memory
  field is a number, and 0 as soon as one is not (\<^verbatim>\<open>[N/A]\<close>), because the count is only assigned after the
  loop.\<close>

theorem hw_gpus_count:
  "\<exists>names. result (hw_gpus (Inr outp)) =
     Inr (names, if list_all (\<lambda>p. py_int (p ! 2) \<noteq> None) (hw_rows outp) then length (hw_rows outp) else 0)"
proof -
  obtain os ns e where sc: "hw_scan [] (splitlines (strip outp)) = (os, ns, e)"
    by (cases "hw_scan [] (splitlines (strip outp))") auto
  from hw_scan_split [OF this refl] sc show ?thesis
    by (auto simp: hw_gpus_def hw_rows_def list_all_iff Let_def split: if_splits)
qed

end
