(* ===== verification/Demos.thy ===== *)
theory Demos
  imports Demo_Checks Gpu_Checks Load_Test Log_Utils "HOL-Library.AList"
begin

section \<open>The demo programs\<close>

text \<open>
  The demos as they are run: \<^verbatim>\<open>main\<close> of \<^verbatim>\<open>tp_demo\<close>, \<^verbatim>\<open>ep_demo\<close>, \<^verbatim>\<open>pd_demo\<close>, \<^verbatim>\<open>dp_demo\<close>, \<^verbatim>\<open>streaming_demo\<close> and
  \<^verbatim>\<open>enterprise_qa_demo\<close>, with the benchmarks each of them defines for itself. What the machine, the gateway
  and the workers answer is a \<open>demo_env\<close>; a \<open>main\<close> takes the \<open>world\<close> (environment variables and log files) and
  gives it back beside its output and the way it ended. Text is in UTF-8.
\<close>

subsection \<open>Prompts and payloads\<close>

definition tp_PROMPTS :: "(string \<times> string) list" where
  "tp_PROMPTS =
     [(''short'', ''Say hi.''),
      (''medium'', ''Explain what Tensor Parallelism is in 3 sentences.''),
      (''long'',
       ''The following is a detailed technical document about transformer architecture. '' @
       ''Transformers use self-attention mechanisms to process sequential data. '' @
       ''Each attention head computes queries, keys, and values from the input embeddings. '' @
       ''The scaled dot-product attention formula is Attention(Q,K,V) = softmax(QK^T/'' @ [CHR 0xE2, CHR 0x88, CHR 0x9A] @ ''d_k)V. '' @
       ''Multi-head attention allows the model to attend to different representation subspaces. '' @
       ''Position encodings are added to preserve sequence order information. '' @
       ''Feed-forward networks follow each attention layer with two linear transformations. '' @
       ''Layer normalization and residual connections stabilize training. '' @
       ''With Tensor Parallelism, attention heads are split across GPUs and FFN columns are '' @
       ''partitioned, requiring an All-Reduce after each layer to synchronize activations. '' @
       ''Based on this technical context, explain why NVLink is preferred over PCIe for TP.'')]"

definition ep_PROMPTS :: "(string \<times> string) list" where
  "ep_PROMPTS =
     [(''short'', ''Say hi.''),
      (''medium'', ''Explain what Mixture of Experts is in 3 sentences.''),
      (''long'',
       ''The following is a detailed technical document about Mixture of Experts (MoE) '' @
       ''architecture in large language models. '' @
       ''In MoE models, each transformer layer contains multiple expert FFN networks. '' @
       ''A router network (gating function) selects which K experts process each token. '' @
       ''Only the selected experts are activated, keeping compute proportional to K, not N. '' @
       ''Expert Parallelism (EP) distributes these experts across multiple GPUs. '' @
       ''When a token is routed to an expert on a different GPU, '' @
       ''it must be transferred via All-to-All collective communication. '' @
       ''This All-to-All has two phases: dispatch (send tokens to expert GPUs) '' @
       ''and gather (return computed results to originating GPUs). '' @
       ''Load imbalance occurs when some experts receive many more tokens than others, '' @
       ''causing some GPUs to be idle while others are saturated. '' @
       ''Based on this context, explain the trade-off between EP degree and All-to-All overhead.'')]"

definition pd_PROMPTS :: "(string \<times> string) list" where
  "pd_PROMPTS =
     [(''short'', ''Say hi.''),
      (''medium'', ''Explain what a GPU is in 3 sentences.''),
      (''long'',
       ''The following is a detailed technical document about transformer architecture. '' @
       ''Transformers use self-attention mechanisms to process sequential data. '' @
       ''Each attention head computes queries, keys, and values from the input embeddings. '' @
       ''The scaled dot-product attention formula is Attention(Q,K,V) = softmax(QK^T/'' @ [CHR 0xE2, CHR 0x88, CHR 0x9A] @ ''d_k)V. '' @
       ''Multi-head attention allows the model to attend to different representation subspaces. '' @
       ''Position encodings are added to preserve sequence order information. '' @
       ''Feed-forward networks follow each attention layer with two linear transformations. '' @
       ''Layer normalization and residual connections stabilize training. '' @
       ''The encoder processes input sequences while the decoder generates output tokens. '' @
       ''Based on this technical context, write a one-sentence summary of transformers.'')]"

definition user_message :: "string \<Rightarrow> json" where
  "user_message content = JObj [(''role'', JStr ''user''), (''content'', JStr content)]"

definition system_message :: "string \<Rightarrow> json" where
  "system_message content = JObj [(''role'', JStr ''system''), (''content'', JStr content)]"

definition payload :: "json list \<Rightarrow> bool \<Rightarrow> int \<Rightarrow> json" where
  "payload messages stream max_tokens =
     JObj [(''messages'', JArr messages), (''stream'', JBool stream), (''max_tokens'', JInt max_tokens)]"

definition USER_QUESTION :: string where
  "USER_QUESTION = ''What is a GPU in one sentence?''"

subsection \<open>The environment of a demo\<close>

text \<open>
  A streaming request gives the clock when it starts and ends and its body, a plain request the same with its
  response; the number tells repeated requests apart. \<open>completion\<close> is the order in which \<^verbatim>\<open>as_completed\<close> yields
  the futures of a named pool of the given size.
\<close>

record demo_env =
  gateway_url :: string
  smi :: "string res"
  topo :: "string res"
  health :: call
  sglang :: sglang_env
  smi_memory :: "nat \<Rightarrow> string res"
  container_log :: "(string \<times> string) res"
  node_health :: "string \<Rightarrow> call"
  node_info :: "string \<Rightarrow> call"
  node_base :: string
  loads :: decoder
  stream_post :: "json \<Rightarrow> nat \<Rightarrow> real \<times> real \<times> sse_body res"
  plain_post :: "json \<Rightarrow> nat \<Rightarrow> real \<times> real \<times> call"
  completion :: "string \<Rightarrow> nat \<Rightarrow> nat list"
  wall :: real
  typed :: "string res"
  log_dir :: string
  log_path :: string
  host :: host_env

subsection \<open>Time to first token\<close>

definition tp_measure_ttft :: "demo_env \<Rightarrow> string \<Rightarrow> string \<Rightarrow> nat \<Rightarrow> real io" where
  "tp_measure_ttft env prompt lbl run =
     (let (t_start, t_end, post) = stream_post env (payload [user_message prompt] True 1) run
      in measure_ttft (loads env) lbl t_start t_end post)"

definition ep_measure_ttft :: "demo_env \<Rightarrow> string \<Rightarrow> string \<Rightarrow> nat \<Rightarrow> real io" where
  "ep_measure_ttft env prompt lbl run =
     (let (t_start, t_end, post) = stream_post env (payload [user_message prompt] True 1) run
      in measure_ttft (loads env) lbl t_start t_end post)"

definition pd_measure_ttft :: "demo_env \<Rightarrow> string \<Rightarrow> string \<Rightarrow> nat \<Rightarrow> real io" where
  "pd_measure_ttft env prompt lbl run =
     (let (t_start, t_end, post) = stream_post env (payload [user_message prompt] True 1) run
      in measure_ttft (loads env) lbl t_start t_end post)"

definition tp_benchmark_ttft :: "demo_env \<Rightarrow> (string \<times> real) list io" where
  "tp_benchmark_ttft env =
     io_then (heading [''TTFT benchmark'', ''   Interpret results with model size, batch, topology, and baseline held constant''])
       (benchmark_ttft tp_PROMPTS (tp_measure_ttft env))"

definition ep_benchmark_ttft :: "demo_env \<Rightarrow> (string \<times> real) list io" where
  "ep_benchmark_ttft env =
     io_then (heading [''TTFT benchmark'', ''   Interpret results with model, batch, topology, and NCCL settings recorded''])
       (benchmark_ttft ep_PROMPTS (ep_measure_ttft env))"

definition pd_benchmark_ttft :: "demo_env \<Rightarrow> (string \<times> real) list io" where
  "pd_benchmark_ttft env =
     io_then (heading [''TTFT benchmark'', ''   Report these values beside a separately measured combined-mode baseline''])
       (benchmark_ttft pd_PROMPTS (pd_measure_ttft env))"

subsection \<open>Concurrent load\<close>

definition dict_item :: "(string \<times> string) list \<Rightarrow> string \<Rightarrow> string res" where
  "dict_item d k = of_opt KeyErr (map_of d k)"

definition tp_single :: "demo_env \<Rightarrow> json \<Rightarrow> nat \<Rightarrow> outcome res" where
  "tp_single env p i = (let (t, t', post) = plain_post env p i in single t t' post)"

definition ep_single :: "demo_env \<Rightarrow> json \<Rightarrow> nat \<Rightarrow> outcome res" where
  "ep_single env p i = (let (t, t', post) = plain_post env p i in single t t' post)"

definition pd_single :: "demo_env \<Rightarrow> json \<Rightarrow> nat \<Rightarrow> outcome res" where
  "pd_single env p i = (let (t, t', post) = plain_post env p i in single t t' post)"

definition tp_benchmark_throughput :: "demo_env \<Rightarrow> tally io" where
  "tp_benchmark_throughput env =
     io_then (heading [''Concurrent load test (20 medium prompts)'', ''   TP primarily enables models that do not fit on one GPU''])
     (io_bind (io_lift (dict_item tp_PROMPTS ''medium'')) (\<lambda>prompt.
      benchmark_throughput 20 (wall env) (map (tp_single env (payload [user_message prompt] False 64)) (completion env ''load'' 20))))"

definition ep_benchmark_throughput :: "demo_env \<Rightarrow> tally io" where
  "ep_benchmark_throughput env =
     io_then (heading [''Concurrent load test (20 medium prompts)'', ''   Report batch and topology because collective efficiency depends on both''])
     (io_bind (io_lift (dict_item ep_PROMPTS ''medium'')) (\<lambda>prompt.
      benchmark_throughput 20 (wall env) (map (ep_single env (payload [user_message prompt] False 64)) (completion env ''load'' 20))))"

definition pd_benchmark_throughput :: "demo_env \<Rightarrow> tally io" where
  "pd_benchmark_throughput env =
     io_then (heading [''Concurrent load test (30 medium prompts)''])
     (io_bind (io_lift (dict_item pd_PROMPTS ''medium'')) (\<lambda>prompt.
      benchmark_throughput 30 (wall env) (map (pd_single env (payload [user_message prompt] False 64)) (completion env ''load'' 30))))"

definition dp_payloads :: "json list" where
  "dp_payloads =
     map (\<lambda>sys_prompt. payload [system_message sys_prompt, user_message ''Explain GPU parallelism in 2 sentences.''] False 64)
       dp_payload_prompts"

definition dp_single :: "demo_env \<Rightarrow> nat \<Rightarrow> outcome res" where
  "dp_single env i = (let (t, t', post) = plain_post env (dp_payloads ! i) i in single t t' post)"

definition dp_run_throughput :: "demo_env \<Rightarrow> tally io" where
  "dp_run_throughput env =
     io_then (heading [''Concurrent load test (40 requests across four prefixes)'',
                ''   Four independent replicas serve separate requests without model collectives''])
       (dp_benchmark_throughput (wall env) (map (dp_single env) (completion env ''load'' 40)))"

subsection \<open>Cold and warm prefixes\<close>

type_synonym times = "(string \<times> real) list"

definition prefix_label :: "nat \<Rightarrow> string" where
  "prefix_label i = ''prefix-'' @ show_nat i"

definition dp_send_prefix :: "demo_env \<Rightarrow> nat \<Rightarrow> nat \<Rightarrow> (string \<times> real) res" where
  "dp_send_prefix env rnd i =
     (let (t, t', post) =
        stream_post env (payload [system_message (SYSTEM_PROMPTS ! i), user_message USER_QUESTION] True 1) rnd
      in dp_send (loads env) (prefix_label i) t t' post)"

fun cold_loop :: "times \<Rightarrow> (string \<times> real) res list \<Rightarrow> times io" where
  "cold_loop cold [] = io_return cold"
| "cold_loop cold (r # rs) =
     io_bind (io_lift r) (\<lambda>(lbl, ttft).
     io_then (io_print ''  {}: TTFT={:.1f}ms'' [S lbl, R (ttft * 1000)])
       (cold_loop (AList.update lbl ttft cold) rs))"

fun warm_loop :: "times \<Rightarrow> times \<Rightarrow> (string \<times> real) res list \<Rightarrow> times io" where
  "warm_loop colds warm [] = io_return warm"
| "warm_loop colds warm (r # rs) =
     io_bind (io_lift r) (\<lambda>(lbl, ttft).
     let cold = (case map_of colds lbl of None \<Rightarrow> 0 | Some c \<Rightarrow> c);
         improvement = (cold - ttft) / max cold 0.001 * 100
     in io_then (io_print (if ttft < cold * 0.85
            then ''  {}: TTFT={:.1f}ms  (cold={:.1f}ms  {:+.0f}%)  likely cache hit''
            else ''  {}: TTFT={:.1f}ms  (cold={:.1f}ms  {:+.0f}%)  no material difference'')
            [S lbl, R (ttft * 1000), R (cold * 1000), R improvement])
       (warm_loop colds (AList.update lbl ttft warm) rs))"

text \<open>\<^verbatim>\<open>all(warm_times[k] < cold_times[k] * 0.9 for k in cold_times)\<close>\<close>

fun all_warm_below :: "times \<Rightarrow> times \<Rightarrow> bool res" where
  "all_warm_below warm [] = Inr True"
| "all_warm_below warm ((k, c) # cs) =
     (case map_of warm k of
        None \<Rightarrow> Inl KeyErr
      | Some t \<Rightarrow> if t < c * 0.9 then all_warm_below warm cs else Inr False)"

text \<open>The value of the model is the verdict the function prints at its end.\<close>

definition test_prefix_hash_routing :: "demo_env \<Rightarrow> bool io" where
  "test_prefix_hash_routing env =
     io_then (heading [''Prefix-affinity routing check'', ''   Repeat each system prompt and compare cold versus warm TTFT''])
     (io_then (say [''\<newline>[Round 1] Cold cache - send four different prefixes concurrently''])
     (io_bind (cold_loop [] (map (dp_send_prefix env 0) (completion env ''cold'' 4))) (\<lambda>cold_times.
      io_then (say [''\<newline>[Round 2] Warm cache - repeat the same prefixes''])
     (io_bind (warm_loop cold_times [] (map (dp_send_prefix env 1) (completion env ''warm'' 4))) (\<lambda>warm_times.
      io_then (say [[]])
     (io_bind (io_lift (all_warm_below warm_times cold_times)) (\<lambda>material.
      io_then (if material
               then say [''  [ok] Warm TTFT is materially below cold TTFT'',
                         ''     The result is consistent with prefix affinity preserving cache locality'']
               else say [''  [i]  TTFT difference is not material; the prefix may be short or already warm''])
        (io_return material))))))))"

subsection \<open>The programs\<close>

text \<open>\<^verbatim>\<open>try: ... except KeyboardInterrupt: pass\<close>\<close>

definition pass_interrupt :: "unit io \<Rightarrow> unit io" where
  "pass_interrupt m = (if result m = Inl KeyboardInterrupt then (printed m, Inr ()) else m)"

text \<open>A program: its first part, then (unless that raised) a last part that works on the world.\<close>

definition and_then :: "'a io \<Rightarrow> ('a \<Rightarrow> world \<Rightarrow> world \<times> unit io) \<Rightarrow> world \<Rightarrow> world \<times> unit io" where
  "and_then m k w =
     (case result m of
        Inl e \<Rightarrow> (w, (printed m, Inl e))
      | Inr x \<Rightarrow> (let (w', n) = k x w in (w', (printed m @ printed n, result n))))"

definition save_tagged :: "string \<Rightarrow> demo_env \<Rightarrow> string \<Rightarrow> world \<Rightarrow> world \<times> unit io" where
  "save_tagged demo env tag w =
     (let ts = log_ts demo (log_path env) @ ''_'' @ tag;
          (w', m) = save_container_logs (host env) (log_dir env) ts w
      in (w', io_then m
                (io_then (io_print ''\<newline>[log saved -> {}]'' [S (log_path env)]) (io_print ''[machine   -> {}]'' [S tag]))))"

definition save_plain :: "string \<Rightarrow> demo_env \<Rightarrow> world \<Rightarrow> world \<times> unit io" where
  "save_plain demo env w = save_container_logs (host env) (log_dir env) (log_ts demo (log_path env)) w"

text \<open>The banner of a demo: its title lines, the address of the gateway, and a ruler around them.\<close>

definition banner :: "string list \<Rightarrow> demo_env \<Rightarrow> unit io" where
  "banner ls env = io_then (say (ruler # ls)) (io_then (io_print ''   Gateway: {}'' [S (gateway_url env)]) (say [ruler]))"

definition tp_interpretation :: "string list" where
  "tp_interpretation =
     [''  Material allocation on every rank is consistent with weight sharding'',
      ''  Do not infer a TP speedup without a same-model, same-host baseline'',
      [],
      ''  TP versus PD:'',
      ''    TP - shard a model that does not fit on one GPU'',
      ''    PD - separate prefill and decode resource pools'',
      ''    TP+PD - combine both when the deployment and model justify it'',
      ruler]"

definition tp_main :: "demo_env \<Rightarrow> world \<Rightarrow> world \<times> unit io" where
  "tp_main env =
     and_then
       (io_then (banner [''RadixGates - Tensor Parallel (TP) validation'', ''   SGLang TP instance: GPU 0 + GPU 1 (:30000)''] env)
       (io_bind (print_hw_info (smi env) (topo env)) (\<lambda>hw_tag.
        io_then (check_gateway (health env))
       (io_bind (check_tp_active (sglang env)) (\<lambda>(tp_ok, tp_size_found).
        io_then (tp_check_gpu_memory ''baseline (model loaded, no active requests)'' (smi_memory env 0))
       (io_then (io_when (\<not> tp_ok)
          (say [''\<newline>[!]  TP was not confirmed; continuing, but treat results as diagnostic only'']))
       (io_then (pass_interrupt
          (io_then (tp_benchmark_ttft env) (io_then (tp_benchmark_throughput env) (io_return ()))))
       (io_then (tp_check_gpu_memory ''after the load test'' (smi_memory env 1))
       (io_then (say [''\<newline>'' @ ruler, ''Interpretation:''])
       (io_then (if tp_ok then io_print ''  tensor_parallel_size={} confirmed [ok]'' [J tp_size_found]
                 else io_print ''  tp_size was not exposed; memory distribution is supporting evidence only'' [])
       (io_then (say tp_interpretation)
          (io_return hw_tag))))))))))))
       (save_tagged ''tp_demo'' env)"

definition ep_interpretation :: "string list" where
  "ep_interpretation =
     [[],
      ''  MoE layers use All-to-All dispatch and gather collectives'',
      ''  Measure collective cost on the target topology; this script does not isolate it'',
      [],
      ''  EP trade-off:'',
      ''    [ok] Expert weights are partitioned instead of fully replicated'',
      ''    [!]  Token dispatch introduces communication overhead'',
      [],
      ''  TP, EP, and TP+EP:'',
      ''    TP partitions dense tensor operations'',
      ''    EP partitions experts and routes tokens between ranks'',
      ''    Compose them only when the model architecture and topology justify it'',
      ruler]"

definition ep_main :: "demo_env \<Rightarrow> world \<Rightarrow> world \<times> unit io" where
  "ep_main env =
     and_then
       (io_then (banner [''RadixGates - Expert Parallel (EP) + All-to-All validation'', ''   GPU 0: Expert  0-63'', ''   GPU 1: Expert 64-127'',
                   ''   Token routing across expert ranks uses All-to-All dispatch and gather''] env)
       (io_bind (print_hw_info (smi env) (topo env)) (\<lambda>hw_tag.
        io_then (ep_check_gateway (health env))
       (io_bind (check_ep_active (sglang env)) (\<lambda>(ep_ok, ep_size, tp_size).
        io_then (ep_check_gpu_memory ''baseline after model load'' (smi_memory env 0))
       (io_then (check_alltoall_in_logs (container_log env))
       (io_then (io_when (\<not> ep_ok)
          (say [''\<newline>[!]  EP was not confirmed by API/log; continuing for diagnostics only'']))
       (io_then (pass_interrupt
          (io_then (ep_benchmark_ttft env) (io_then (ep_benchmark_throughput env) (io_return ()))))
       (io_then (ep_check_gpu_memory ''after the load test'' (smi_memory env 1))
       (io_then (say [''\<newline>'' @ ruler, ''Interpretation:''])
       (io_then (if ep_ok
                 then io_then (io_print ''  expert_parallel_size={} confirmed [ok]'' [J ep_size])
                        (io_print ''  tensor_parallel_size={} (TP and EP may be composed)'' [J tp_size])
                 else io_print ''  ep_size was not confirmed; memory distribution is supporting evidence only [!]'' [])
       (io_then (say ep_interpretation)
          (io_return hw_tag)))))))))))))
       (save_tagged ''ep_demo'' env)"

definition pd_main :: "demo_env \<Rightarrow> world \<Rightarrow> world \<times> unit io" where
  "pd_main env =
     and_then
       (io_then (banner [''RadixGates - prefill/decode disaggregation validation'', ''   Prefill: GPU 0 (:30000)  Decode: GPU 1 (:30001)''] env)
       (io_then (pd_check_gateway (health env))
       (io_then (say [''\<newline>Launch options:'',
          ''  docker compose -f docker-compose.pd.yml up -d'',
          ''    -> mooncake transfer backend'',
          ''  PREFILL_BACKEND=mooncake DECODE_BACKEND=fake docker compose -f docker-compose.pd.yml up -d'',
          ''    -> routing-only validation; no real KV-cache transfer''])
       (io_then (pass_interrupt
          (io_then (pd_benchmark_ttft env) (io_then (pd_benchmark_throughput env) (io_return ()))))
          (heading [''Interpretation:'',
             ''  Compare TTFT and throughput with a same-model combined-mode baseline'',
             ''  This script alone validates the PD path; it does not establish a speedup''])))))
       (\<lambda>_. save_plain ''pd_demo'' env)"

definition dp_interpretation :: "string list" where
  "dp_interpretation =
     [''Interpretation:'',
      ''  Four healthy workers establish that DP=4 is ready'',
      ''  Warm-versus-cold TTFT checks whether affinity preserves cache locality'',
      ''  The 40-request result is measured; the scaling ratio above is only an estimate'',
      [],
      ''  Choosing a parallel mode:'',
      ''    DP - replicate a model that fits on one GPU for aggregate throughput'',
      ''    TP - shard dense weights when a model does not fit on one GPU'',
      ''    EP - shard experts in an MoE model and route tokens with All-to-All'']"

definition dp_main :: "demo_env \<Rightarrow> world \<Rightarrow> world \<times> unit io" where
  "dp_main env =
     and_then
       (io_then (banner [''RadixGates - Data Parallel (DP=4) validation'', ''   GPU 0 (:30000)  GPU 1 (:30001)'', ''   GPU 2 (:30002)  GPU 3 (:30003)'',
                   ''   One independent model replica per GPU''] env)
       (io_bind (print_hw_info (smi env) (topo env)) (\<lambda>hw_tag.
        io_then (dp_check_gateway (health env))
       (io_bind (check_all_nodes (node_health env) (node_info env) (node_base env)) (\<lambda>healthy.
        io_then (io_when (healthy < length (DP_NODES (node_base env)))
          (io_print ''\<newline>[!]  {} workers are not ready; continuing with partial results''
             [I (int (length (DP_NODES (node_base env))) - int healthy)]))
       (io_then (dp_check_gpu_memory (smi_memory env 0))
       (io_then (pass_interrupt
          (io_then (test_prefix_hash_routing env) (io_then (dp_run_throughput env) (io_return ()))))
       (io_then (heading dp_interpretation)
          (io_return hw_tag)))))))))
       (save_tagged ''dp_demo'' env)"

definition streaming_question :: "string \<Rightarrow> string" where
  "streaming_question inp =
     (let question = strip inp in if question = [] then ''Write a short poem about GPU computing.'' else question)"

definition chat_model :: "string \<times> json" where
  "chat_model = (''model'', JStr ''NousResearch/Meta-Llama-3-8B-Instruct'')"

definition streaming_main :: "demo_env \<Rightarrow> world \<Rightarrow> world \<times> unit io" where
  "streaming_main env =
     and_then
       (io_then (say [replicate 50 (CHR ''=''), '' RadixGates - real-time SSE streaming check (direct mode)'', replicate 50 (CHR ''='')])
       (io_then (check_mode (gateway_url env) (health env))
       (io_then (say [''[ok] Gateway: direct mode (SSE; no Kafka or WebSocket)\<newline>''])
       (io_then (io_prints [Put ''Enter a prompt (press Enter to use the default): '' []])
       (io_bind (io_lift (typed env)) (\<lambda>inp.
        let question = streaming_question inp;
            (start, t_end, post) = stream_post env
               (JObj [chat_model, (''messages'', JArr [user_message question]), (''stream'', JBool True)]) 0
        in stream_chat (loads env) start t_end post))))))
       (\<lambda>_. save_plain ''streaming_demo'' env)"

definition employee_payload :: "nat \<Rightarrow> json" where
  "employee_payload i =
     JObj [chat_model,
       (''messages'', JArr [system_message (the (map_of DEPARTMENT_PROMPTS (employee_dept i))), user_message (employee_question i)]),
       (''stream'', JBool False)]"

definition enterprise_employee :: "demo_env \<Rightarrow> nat \<Rightarrow> (bool \<times> out) res" where
  "enterprise_employee env i =
     (let (start, t', post) = plain_post env (employee_payload i) i in simulate_employee i start t' post)"

definition enterprise_main :: "demo_env \<Rightarrow> world \<Rightarrow> world \<times> unit io" where
  "enterprise_main env =
     and_then
       (io_then (banner [''Internal-assistant concurrent workload (direct mode)''] env)
       (io_then (enterprise_check_mode (health env))
          (enterprise_run (wall env) (map (enterprise_employee env) (completion env ''load'' 30)))))
       (\<lambda>_. save_plain ''enterprise_qa_demo'' env)"

subsection \<open>Lemmas\<close>

text \<open>Nothing that \<^verbatim>\<open>except Exception\<close> lets through: no interrupt and no exit.\<close>

definition quiet :: "'a res \<Rightarrow> bool" where
  "quiet r = (case r of Inl e \<Rightarrow> is_Exception e | Inr _ \<Rightarrow> True)"

definition quiet_body :: "sse_body \<Rightarrow> bool" where
  "quiet_body b =
     (list_all (\<lambda>(l, t). quiet l) (sse_lines b) \<and> (case sse_end b of Finished \<Rightarrow> True | Broken e \<Rightarrow> is_Exception e))"

definition quiet_stream :: "sse_body res \<Rightarrow> bool" where
  "quiet_stream post = (quiet post \<and> (case post of Inl e \<Rightarrow> True | Inr b \<Rightarrow> quiet_body b))"

definition uninterrupted :: "demo_env \<Rightarrow> bool" where
  "uninterrupted env \<longleftrightarrow>
     quiet (smi env) \<and> quiet (topo env) \<and> (\<forall>i. quiet (smi_memory env i))
     \<and> (\<forall>s. quiet (loads env s))
     \<and> (\<forall>p i. quiet_stream (snd (snd (stream_post env p i))))
     \<and> (\<forall>p i. call_ends (snd (snd (plain_post env p i))))
     \<and> (\<forall>n. mset (completion env ''load'' n) = mset [0..<n])"

lemma result_banner [simp]: "result (banner ls env) = Inr ()"
  by (simp add: banner_def)

lemma quiet_simps [simp]: "quiet (Inr x)" "quiet (Inl e) \<longleftrightarrow> is_Exception e"
  by (simp_all add: quiet_def)

lemma quiet_bind: "quiet r \<Longrightarrow> (\<And>x. r = Inr x \<Longrightarrow> quiet (f x)) \<Longrightarrow> quiet (res_bind r f)"
  by (cases r) auto

lemma quiet_item [simp]: "quiet (py_item j k)"
  by (cases j) (simp_all add: of_opt_def split: option.splits)

lemma quiet_get [simp]: "quiet (py_get j k d)"
  by (cases j) simp_all

lemma quiet_first [simp]: "quiet (py_first j)"
  by (induction j rule: py_first.induct) simp_all

lemma quiet_chunk_delta: "(\<And>s. quiet (lds s)) \<Longrightarrow> quiet (chunk_delta lds s)"
  unfolding chunk_delta_def by (intro quiet_bind) auto

lemma quiet_read_ttft:
  assumes "\<And>s. quiet (lds s)" "quiet_body b"
  shows "quiet (read_ttft lds t0 b)"
proof -
  have q: "chunk_delta lds s = Inl e \<Longrightarrow> is_Exception e" for s e
    using quiet_chunk_delta [of lds s] assms(1) by simp
  have "ttft_loop lds t0 ls = Raised e \<Longrightarrow> list_all (\<lambda>(l, t). quiet l) ls \<Longrightarrow> is_Exception e" for ls e
  proof (induction ls)
    case (Cons l ls)
    then show ?case
      by (cases l; cases "fst l") (auto split: line_kind.splits sum.splits if_splits dest: q)
  qed simp
  then show ?thesis
    using assms(2) by (auto simp: read_ttft_def quiet_body_def split: loop_end.splits ending.splits)
qed

lemma measure_ttft_ends:
  assumes "\<And>s. quiet (lds s)" "quiet_stream post"
  shows "\<exists>t. result (measure_ttft lds lbl t0 t1 post) = Inr t"
proof -
  have "quiet (res_bind post (read_ttft lds t0))"
    using assms(2) quiet_read_ttft [OF assms(1)] by (intro quiet_bind) (auto simp: quiet_stream_def)
  then show ?thesis by (auto simp: measure_ttft_result quiet_def split: sum.splits)
qed

lemma ttft_runs_ends: "(\<And>i. \<exists>t. result (run i) = Inr t) \<Longrightarrow> \<exists>ts. result (ttft_runs run is) = Inr ts"
proof (induction "is")
  case (Cons i "is")
  then obtain t ts where "result (run i) = Inr t" "result (ttft_runs run is) = Inr ts" by blast
  then show ?case by auto
qed simp

lemma benchmark_ttft_ends:
  "(\<And>p n i. \<exists>t. result (run p n i) = Inr t) \<Longrightarrow> \<exists>ms. result (benchmark_ttft ps run) = Inr ms"
proof (induction ps)
  case (Cons p ps)
  obtain name prompt where p: "p = (name, prompt)" by (cases p)
  obtain ts ms where "result (ttft_runs (run prompt name) [0..<5]) = Inr ts" "result (benchmark_ttft ps run) = Inr ms"
    using ttft_runs_ends [of "run prompt name" "[0..<5]"] Cons by blast
  then show ?case using median_ok [of ts] by (cases "ts = []") (auto simp: p)
qed simp

lemma quiet_strip [simp]: "quiet (json_strip j)"
  by (cases j) simp_all

lemma quiet_raise_for_status [simp]: "quiet (raise_for_status r)"
  by (simp add: raise_for_status_def)

lemma quiet_chat_answer [simp]: "quiet (chat_answer j)"
  unfolding chat_answer_def by (intro quiet_bind) simp_all

lemma call_ends_quiet: "call_ends c \<longleftrightarrow> quiet c \<and> quiet (res_bind c json_of)"
  by (auto simp: call_ends_def quiet_def split: sum.splits)

lemma single_ends:
  assumes "call_ends post"
  shows "\<exists>x. single t t' post = Inr x"
proof -
  have "quiet (res_bind post (\<lambda>r. res_bind (raise_for_status r) (\<lambda>_.
          res_bind (json_of r) (\<lambda>body. res_bind (chat_answer body) (\<lambda>ans. Inr (take 40 ans))))))"
    using assms by (intro quiet_bind) (auto simp: call_ends_quiet)
  then show ?thesis by (auto simp: single_def quiet_def split: sum.splits)
qed

lemma map_res_ends: "(\<And>i. \<exists>x. f i = Inr x) \<Longrightarrow> \<exists>xs. map f is = map Inr xs \<and> length xs = length is"
proof (induction "is")
  case (Cons i "is")
  then obtain x xs where "f i = Inr x" "map f is = map Inr xs" "length xs = length is" by blast
  then have "map f (i # is) = map Inr (x # xs)" "length (x # xs) = length (i # is)" by simp_all
  then show ?case by blast
qed simp

lemma throughput_ends:
  assumes "\<And>i. call_ends (snd (snd (req i)))"
  shows "\<exists>c. result (benchmark_throughput n w (map (\<lambda>i. case req i of (t, t', post) \<Rightarrow> single t t' post) is)) = Inr c
     \<and> success c + fail c = length is"
proof -
  have "\<exists>x. (case req i of (t, t', post) \<Rightarrow> single t t' post) = Inr x" for i
    using single_ends assms by (cases "req i") (metis case_prod_conv snd_conv)
  from map_res_ends [of "\<lambda>i. case req i of (t, t', post) \<Rightarrow> single t t' post" "is", OF this] obtain xs where
    "map (\<lambda>i. case req i of (t, t', post) \<Rightarrow> single t t' post) is = map Inr xs" "length xs = length is" by blast
  then show ?thesis using sum_length_filter_compl [of fst xs] by (simp add: benchmark_throughput_result tally_of_def tally0_def)
qed

lemma quiet_cases:
  assumes "quiet r"
  obtains (raised) e where "r = Inl e" "is_Exception e" | (ok) x where "r = Inr x"
  using assms by (cases r) auto

lemma print_hw_info_ends:
  assumes "quiet s" "quiet t"
  shows "\<exists>tag. result (print_hw_info s t) = Inr tag"
proof -
  have g: "\<exists>x. result (hw_gpus s) = Inr x" using assms(1)
    by (cases s) (auto simp: hw_gpus_def result_io_try split: prod.splits option.splits)
  have l: "\<exists>y. hw_link_type t = Inr y" using assms(2)
    by (cases t) (auto simp: hw_link_type_def Let_def)
  from g l obtain names count y where "result (hw_gpus s) = Inr (names, count)" "hw_link_type t = Inr y" by auto
  then show ?thesis by (simp add: print_hw_info_def Let_def)
qed

lemma tp_log_loop_ends: "(\<And>p r. fls p = Some r \<Longrightarrow> quiet r) \<Longrightarrow> \<exists>x. result (tp_log_loop fls ps mp) = Inr x"
proof (induction ps)
  case (Cons p ps)
  then have q: "fls p = Some r \<Longrightarrow> quiet r" for r by blast
  from Cons show ?case
    by (auto simp: Let_def simp del: split_paired_Ex split: option.splits sum.splits dest: q)
qed simp

definition sglang_quiet :: "sglang_env \<Rightarrow> bool" where
  "sglang_quiet s \<longleftrightarrow> call_ends (server_args s) \<and> call_ends (model_info s) \<and> (\<forall>p r. log_files s p = Some r \<longrightarrow> quiet r)"

lemma check_tp_active_ends:
  assumes "sglang_quiet s"
  shows "\<exists>x. result (check_tp_active s) = Inr x"
proof -
  obtain s1 where s1: "result (tp_from_args (server_args s)) = Inr s1"
    using assms tp_from_args_ends unfolding sglang_quiet_def by blast
  obtain tp mp where "result (if fst s1 = JNull then tp_log_loop (log_files s) (tp_log_candidates (sglang_log s)) (snd s1)
      else io_return s1) = Inr (tp, mp)"
    using assms tp_log_loop_ends [of "log_files s" "tp_log_candidates (sglang_log s)" "snd s1"]
    unfolding sglang_quiet_def by (cases "fst s1 = JNull"; cases s1) auto
  from check_tp_active_result [OF s1 this] assms show ?thesis unfolding sglang_quiet_def by blast
qed

lemma memory_ends [simp]:
  "quiet s \<Longrightarrow> result (tp_check_gpu_memory lbl s) = Inr ()"
  "quiet s \<Longrightarrow> result (ep_check_gpu_memory lbl s) = Inr ()"
  "quiet s \<Longrightarrow> result (dp_check_gpu_memory s) = Inr ()"
  by (auto simp: tp_check_gpu_memory_def ep_check_gpu_memory_def dp_check_gpu_memory_def intro!: memory_check_total)

lemma result_pass_interrupt [simp]:
  "result (pass_interrupt m) = (if result m = Inl KeyboardInterrupt then Inr () else result m)"
  by (simp add: pass_interrupt_def)

lemma and_then_ok:
  "result m = Inr x \<Longrightarrow> fst (and_then m k w) = fst (k x w) \<and> result (snd (and_then m k w)) = result (snd (k x w))"
  by (simp add: and_then_def split: prod.splits)

lemma and_then_raise: "result m = Inl e \<Longrightarrow> fst (and_then m k w) = w \<and> result (snd (and_then m k w)) = Inl e"
  by (simp add: and_then_def)

lemma PROMPTS_medium:
  "\<exists>p. dict_item tp_PROMPTS ''medium'' = Inr p" "\<exists>p. dict_item ep_PROMPTS ''medium'' = Inr p"
  "\<exists>p. dict_item pd_PROMPTS ''medium'' = Inr p"
  by (simp_all add: dict_item_def tp_PROMPTS_def ep_PROMPTS_def pd_PROMPTS_def)

lemma gateway_mode_quiet: "call_ends h \<Longrightarrow> quiet (gateway_mode h)"
  unfolding gateway_mode_def by (intro quiet_bind) (auto simp: call_ends_quiet)

lemma same_check_gateway [simp]: "ep_check_gateway = check_gateway" "dp_check_gateway = check_gateway"
  by (simp_all add: fun_eq_iff ep_check_gateway_def dp_check_gateway_def check_gateway_def)

lemma check_gateway_ok: "gateway_mode h = Inr m \<Longrightarrow> result (check_gateway h) = Inr ()"
  by (simp add: check_gateway_def result_io_try)

lemma pd_check_gateway_ok: "gateway_mode h = Inr (JStr ''direct'') \<Longrightarrow> result (pd_check_gateway h) = Inr ()"
  by (simp add: pd_check_gateway_def result_io_try)

lemma benchmarks_end:
  assumes "uninterrupted env"
  shows "\<exists>x. result (tp_benchmark_ttft env) = Inr x" "\<exists>x. result (ep_benchmark_ttft env) = Inr x"
    "\<exists>x. result (pd_benchmark_ttft env) = Inr x"
    "\<exists>c. result (tp_benchmark_throughput env) = Inr c \<and> success c + fail c = 20"
    "\<exists>c. result (ep_benchmark_throughput env) = Inr c \<and> success c + fail c = 20"
    "\<exists>c. result (pd_benchmark_throughput env) = Inr c \<and> success c + fail c = 30"
proof -
  have m: "\<exists>t. result (case stream_post env p i of (t0, t1, post) \<Rightarrow> measure_ttft (loads env) lbl t0 t1 post) = Inr t" for p i lbl
    using assms measure_ttft_ends [of "loads env"] unfolding uninterrupted_def by (cases "stream_post env p i") (metis case_prod_conv snd_conv)
  then show "\<exists>x. result (tp_benchmark_ttft env) = Inr x" "\<exists>x. result (ep_benchmark_ttft env) = Inr x"
    "\<exists>x. result (pd_benchmark_ttft env) = Inr x"
    by (simp_all add: tp_benchmark_ttft_def ep_benchmark_ttft_def pd_benchmark_ttft_def benchmark_ttft_ends
        tp_measure_ttft_def ep_measure_ttft_def pd_measure_ttft_def)
  have len: "length (completion env ''load'' n) = n" for n
    using assms mset_eq_length [of "completion env ''load'' n" "[0..<n]"] by (simp add: uninterrupted_def)
  have t: "\<exists>c. result (benchmark_throughput n (wall env)
        (map (\<lambda>i. case plain_post env p i of (t, t', post) \<Rightarrow> single t t' post) (completion env ''load'' n))) = Inr c
      \<and> success c + fail c = n" for n p
    using throughput_ends [of "plain_post env p" n "wall env" "completion env ''load'' n"] assms
    by (simp add: len uninterrupted_def)
  show "\<exists>c. result (tp_benchmark_throughput env) = Inr c \<and> success c + fail c = 20"
    using PROMPTS_medium(1) t by (auto simp: tp_benchmark_throughput_def tp_single_def [abs_def])
  show "\<exists>c. result (ep_benchmark_throughput env) = Inr c \<and> success c + fail c = 20"
    using PROMPTS_medium(2) t by (auto simp: ep_benchmark_throughput_def ep_single_def [abs_def])
  show "\<exists>c. result (pd_benchmark_throughput env) = Inr c \<and> success c + fail c = 30"
    using PROMPTS_medium(3) t by (auto simp: pd_benchmark_throughput_def pd_single_def [abs_def])
qed

lemma check_alltoall_ends:
  assumes "quiet run"
  shows "result (check_alltoall_in_logs run) = Inr ()"
proof (cases run)
  case (Inl e)
  with assms show ?thesis by (cases e) (simp_all add: check_alltoall_in_logs_def result_io_try)
qed (auto simp: check_alltoall_in_logs_def Let_def split: prod.splits)

lemma update_fresh: "k \<notin> fst ` set xs \<Longrightarrow> AList.update k v xs = xs @ [(k, v)]"
  by (induction xs) auto

lemma prefix_label_inj: "prefix_label i = prefix_label j \<longleftrightarrow> i = j"
  by (metis prefix_label_def py_int_show_nat same_append_eq of_nat_eq_iff option.inject)

lemma cold_loop_result:
  assumes "distinct is" "fst ` set d \<inter> prefix_label ` set is = {}"
  shows "result (cold_loop d (map (\<lambda>i. Inr (prefix_label i, c i)) is)) = Inr (d @ map (\<lambda>i. (prefix_label i, c i)) is)"
  using assms
proof (induction "is" arbitrary: d)
  case (Cons i "is")
  have "result (cold_loop (d @ [(prefix_label i, c i)]) (map (\<lambda>i. Inr (prefix_label i, c i)) is))
      = Inr ((d @ [(prefix_label i, c i)]) @ map (\<lambda>i. (prefix_label i, c i)) is)"
    using Cons.prems by (intro Cons.IH) (auto simp: prefix_label_inj)
  then show ?case using Cons.prems by (simp add: update_fresh)
qed simp

lemma warm_loop_result:
  assumes "distinct is" "fst ` set d \<inter> prefix_label ` set is = {}"
  shows "result (warm_loop colds d (map (\<lambda>i. Inr (prefix_label i, c i)) is)) = Inr (d @ map (\<lambda>i. (prefix_label i, c i)) is)"
  using assms
proof (induction "is" arbitrary: d)
  case (Cons i "is")
  have "result (warm_loop colds (d @ [(prefix_label i, c i)]) (map (\<lambda>i. Inr (prefix_label i, c i)) is))
      = Inr ((d @ [(prefix_label i, c i)]) @ map (\<lambda>i. (prefix_label i, c i)) is)"
    using Cons.prems by (intro Cons.IH) (auto simp: prefix_label_inj)
  then show ?case using Cons.prems by (simp add: update_fresh Let_def)
qed simp

lemma cold_loop_raise: "result (cold_loop d (map Inr xs @ Inl e # rest)) = Inl e"
  by (induction xs arbitrary: d) (auto split: prod.splits)

lemma map_of_prefix: "i \<in> set is \<Longrightarrow> map_of (map (\<lambda>i. (prefix_label i, c i)) is) (prefix_label i) = Some (c i)"
  by (induction "is") (auto simp: prefix_label_inj)

lemma all_warm_below_result:
  "set is \<subseteq> set js \<Longrightarrow>
   all_warm_below (map (\<lambda>i. (prefix_label i, w i)) js) (map (\<lambda>i. (prefix_label i, c i)) is) = Inr (\<forall>i \<in> set is. w i < c i * 0.9)"
  by (induction "is") (auto simp: map_of_prefix)

lemma dp_main_upto:
  assumes "quiet (smi env)" "quiet (topo env)" "quiet (smi_memory env 0)" "gateway_mode (health env) = Inr m"
    "calls_end (node_health env)" "calls_end (node_info env)"
  obtains tag where "result (print_hw_info (smi env) (topo env)) = Inr tag"
    "result (pass_interrupt (io_then (test_prefix_hash_routing env) (io_then (dp_run_throughput env) (io_return ())))) = Inl e
       \<Longrightarrow> fst (dp_main env w) = w \<and> result (snd (dp_main env w)) = Inl e"
    "result (pass_interrupt (io_then (test_prefix_hash_routing env) (io_then (dp_run_throughput env) (io_return ())))) = Inr ()
       \<Longrightarrow> fst (dp_main env w) = fst (save_tagged ''dp_demo'' env tag w)
         \<and> result (snd (dp_main env w)) = result (snd (save_tagged ''dp_demo'' env tag w))"
proof -
  obtain tag where tag: "result (print_hw_info (smi env) (topo env)) = Inr tag"
    using print_hw_info_ends [OF assms(1,2)] by blast
  have "\<exists>n. result (check_all_nodes (node_health env) (node_info env) (node_base env)) = Inr n"
    by (simp add: check_all_nodes_def check_nodes_loop_result [OF assms(5,6)])
  then obtain n where n: "result (check_all_nodes (node_health env) (node_info env) (node_base env)) = Inr n" by blast
  note s = tag n check_gateway_ok [OF assms(4)] memory_ends(3) [OF assms(3)]
  show ?thesis
    by (rule that [OF tag]; unfold dp_main_def; rule and_then_raise and_then_ok; simp add: s del: result_pass_interrupt)
qed

subsection \<open>Properties\<close>

text \<open>C6. Whatever the workers and the gateway answer to the requests of the benchmarks (refused connections, error
  statuses, broken streams, malformed chunks), \<^verbatim>\<open>tp_demo\<close>, \<^verbatim>\<open>ep_demo\<close> (once its check of the server parameters
  returned) and \<^verbatim>\<open>pd_demo\<close> run to the end: they reach the collection of the container logs, change the world exactly as
  it does and end as it ends.\<close>

theorem demos_reach_log_collection:
  assumes "uninterrupted env"
  shows "(sglang_quiet (sglang env) \<and> gateway_mode (health env) = Inr m \<longrightarrow>
      (\<exists>tag. fst (tp_main env w) = fst (save_tagged ''tp_demo'' env tag w)
        \<and> result (snd (tp_main env w)) = result (snd (save_tagged ''tp_demo'' env tag w))))
    \<and> (result (check_ep_active (sglang env)) = Inr v \<and> gateway_mode (health env) = Inr m
         \<and> quiet (container_log env) \<longrightarrow>
      (\<exists>tag. fst (ep_main env w) = fst (save_tagged ''ep_demo'' env tag w)
        \<and> result (snd (ep_main env w)) = result (snd (save_tagged ''ep_demo'' env tag w))))
    \<and> (gateway_mode (health env) = Inr (JStr ''direct'') \<longrightarrow>
      fst (pd_main env w) = fst (save_plain ''pd_demo'' env w)
        \<and> result (snd (pd_main env w)) = result (snd (save_plain ''pd_demo'' env w)))"
proof (intro conjI impI; (elim conjE)?)
  note b = benchmarks_end [OF assms]
  have q: "quiet (smi env)" "quiet (topo env)" "quiet (smi_memory env i)" for i
    using assms by (simp_all add: uninterrupted_def)
  obtain tag where tag: "result (print_hw_info (smi env) (topo env)) = Inr tag"
    using print_hw_info_ends [OF q(1,2)] by blast
  show "\<exists>tag. fst (tp_main env w) = fst (save_tagged ''tp_demo'' env tag w)
        \<and> result (snd (tp_main env w)) = result (snd (save_tagged ''tp_demo'' env tag w))"
    if s: "sglang_quiet (sglang env)" and g: "gateway_mode (health env) = Inr m"
  proof -
    obtain tp_ok sz where "result (check_tp_active (sglang env)) = Inr (tp_ok, sz)"
      using check_tp_active_ends [OF s] by auto
    then show ?thesis unfolding tp_main_def using b(1,4) tag check_gateway_ok [OF g]
      by (intro exI [of _ tag] and_then_ok) (auto simp: q)
  qed
  show "\<exists>tag. fst (ep_main env w) = fst (save_tagged ''ep_demo'' env tag w)
        \<and> result (snd (ep_main env w)) = result (snd (save_tagged ''ep_demo'' env tag w))"
    if c: "result (check_ep_active (sglang env)) = Inr v" and g: "gateway_mode (health env) = Inr m"
      and l: "quiet (container_log env)"
  proof -
    have "result (check_alltoall_in_logs (container_log env)) = Inr ()"
      using l by (rule check_alltoall_ends)
    then show ?thesis unfolding ep_main_def using b(2,5) tag check_gateway_ok [OF g] c
      by (intro exI [of _ tag] and_then_ok) (cases v; auto simp: q)
  qed
  show "fst (pd_main env w) = fst (save_plain ''pd_demo'' env w)"
    "result (snd (pd_main env w)) = result (snd (save_plain ''pd_demo'' env w))"
    if g: "gateway_mode (health env) = Inr (JStr ''direct'')"
    using b(3,6) pd_check_gateway_ok [OF g] unfolding pd_main_def by (auto intro: and_then_ok [THEN conjunct1] and_then_ok [THEN conjunct2])
qed

definition quiet_demo :: demo_env where
  "quiet_demo =
     \<lparr>gateway_url = ''http://localhost:8080'', smi = Inl FileNotFoundErr, topo = Inl FileNotFoundErr, health = health_answer ''direct'', sglang = tp_demo_env,
      smi_memory = (\<lambda>i. Inl FileNotFoundErr), container_log = Inl FileNotFoundErr,
      node_health = (\<lambda>u. Inl (RequestErr ''refused'')), node_info = (\<lambda>u. Inl (RequestErr ''refused'')),
      node_base = ''http://localhost'', loads = (\<lambda>s. Inl JSONDecodeErr),
      stream_post = (\<lambda>p i. (0, 1, Inl (RequestErr ''refused''))),
      plain_post = (\<lambda>p i. (0, 1, Inl (RequestErr ''refused''))),
      completion = (\<lambda>pool n. [0..<n]), wall = 1, typed = Inr [], log_dir = ''logs'',
      log_path = ''logs/tp_demo_20250101_120000.log'', host = demo_host\<rparr>"

lemma quiet_demo_ends: "uninterrupted quiet_demo" "gateway_mode (health quiet_demo) = Inr (JStr ''direct'')"
  by (simp_all add: uninterrupted_def quiet_demo_def quiet_stream_def call_ends_def health_answer_def gateway_mode_def)

theorem demos_reach_log_collection_witness:
  "fst (pd_main quiet_demo \<lparr>environ = Map.empty, files = Map.empty\<rparr>)
   = fst (save_plain ''pd_demo'' quiet_demo \<lparr>environ = Map.empty, files = Map.empty\<rparr>)"
  using demos_reach_log_collection [OF quiet_demo_ends(1)] quiet_demo_ends(2) by blast

text \<open>C11. No demo touches anything without a gateway: if \<^verbatim>\<open>/health\<close> is unreachable or unreadable, every \<^verbatim>\<open>main\<close> ends with
  exit status 1, before any benchmark and before the log collection, leaving environment and files as they were.\<close>

theorem demos_stop_without_gateway:
  assumes "call_ends (health env)" "gateway_mode (health env) = Inl e" "quiet (smi env)" "quiet (topo env)"
    "prog \<in> {tp_main, ep_main, dp_main, pd_main, streaming_main, enterprise_main}"
  shows "fst (prog env w) = w \<and> result (snd (prog env w)) = Inl (SystemExit 1)"
proof -
  have ex: "is_Exception e" using gateway_mode_quiet [OF assms(1)] assms(2) by simp
  obtain tag where tag: "result (print_hw_info (smi env) (topo env)) = Inr tag"
    using print_hw_info_ends [OF assms(3,4)] by blast
  have "result (check_gateway (health env)) = Inl (SystemExit 1)" "result (pd_check_gateway (health env)) = Inl (SystemExit 1)"
    "result (check_mode (gateway_url env) (health env)) = Inl (SystemExit 1)" "result (enterprise_check_mode (health env)) = Inl (SystemExit 1)"
    using ex assms(2) by (simp_all add: check_gateway_def pd_check_gateway_def check_mode_def enterprise_check_mode_def
        result_io_try unreachable_def unreachable_at_def)
  then show ?thesis using assms(5) tag
    by (auto simp: tp_main_def ep_main_def dp_main_def pd_main_def streaming_main_def enterprise_main_def and_then_def)
qed

definition no_gateway_demo :: demo_env where
  "no_gateway_demo = quiet_demo\<lparr>health := Inl (RequestErr ''refused'')\<rparr>"

theorem demos_stop_without_gateway_witness:
  "fst (dp_main no_gateway_demo \<lparr>environ = Map.empty, files = Map.empty\<rparr>) = \<lparr>environ = Map.empty, files = Map.empty\<rparr>
   \<and> result (snd (dp_main no_gateway_demo \<lparr>environ = Map.empty, files = Map.empty\<rparr>)) = Inl (SystemExit 1)"
  by (rule demos_stop_without_gateway [where e = "RequestErr ''refused''"])
    (simp_all add: no_gateway_demo_def quiet_demo_def call_ends_def gateway_mode_def)

text \<open>C37. A single failed request ends \<^verbatim>\<open>dp_demo\<close>: its \<^verbatim>\<open>send\<close> has no handler and \<^verbatim>\<open>main\<close> only absorbs an interrupt, so when
  the first failing request of the cold round raises anything else, \<^verbatim>\<open>main\<close> raises it and collects no container log;
  after an interrupt it goes on and collects them.\<close>

theorem dp_main_request_error:
  assumes "quiet (smi env)" "quiet (topo env)" "quiet (smi_memory env 0)" "gateway_mode (health env) = Inr m"
    "calls_end (node_health env)" "calls_end (node_info env)"
    "map (dp_send_prefix env 0) (completion env ''cold'' 4) = map Inr xs @ Inl e # rest"
  shows "\<exists>tag. fst (dp_main env w) = (if e = KeyboardInterrupt then fst (save_tagged ''dp_demo'' env tag w) else w)
    \<and> result (snd (dp_main env w)) =
        (if e = KeyboardInterrupt then result (snd (save_tagged ''dp_demo'' env tag w)) else Inl e)"
proof -
  have t: "result (test_prefix_hash_routing env) = Inl e"
    by (simp add: test_prefix_hash_routing_def assms(7) cold_loop_raise)
  obtain tag where
    raise: "result (pass_interrupt (io_then (test_prefix_hash_routing env) (io_then (dp_run_throughput env) (io_return ())))) = Inl e
       \<Longrightarrow> fst (dp_main env w) = w \<and> result (snd (dp_main env w)) = Inl e" and
    fine: "result (pass_interrupt (io_then (test_prefix_hash_routing env) (io_then (dp_run_throughput env) (io_return ())))) = Inr ()
       \<Longrightarrow> fst (dp_main env w) = fst (save_tagged ''dp_demo'' env tag w)
         \<and> result (snd (dp_main env w)) = result (snd (save_tagged ''dp_demo'' env tag w))"
    by (rule dp_main_upto [OF assms(1-6)]) blast
  show ?thesis
  proof (cases "e = KeyboardInterrupt")
    case True
    then show ?thesis using fine t by (intro exI [of _ tag]) simp
  next
    case False
    then show ?thesis using raise t by auto
  qed
qed

theorem dp_main_request_error_witness:
  "fst (dp_main quiet_demo \<lparr>environ = Map.empty, files = Map.empty\<rparr>) = \<lparr>environ = Map.empty, files = Map.empty\<rparr>
   \<and> result (snd (dp_main quiet_demo \<lparr>environ = Map.empty, files = Map.empty\<rparr>)) = Inl (RequestErr ''refused'')"
proof -
  have "map (dp_send_prefix quiet_demo 0) (completion quiet_demo ''cold'' 4)
      = map Inr [] @ Inl (RequestErr ''refused'') # replicate 3 (Inl (RequestErr ''refused''))"
    by (simp add: dp_send_prefix_def dp_send_def quiet_demo_def upt_rec numeral_eq_Suc)
  from dp_main_request_error [OF _ _ _ quiet_demo_ends(2) _ _ this, of "\<lparr>environ = Map.empty, files = Map.empty\<rparr>"]
  show ?thesis by (simp add: quiet_demo_def calls_end_def call_ends_def)
qed


definition warm_demo :: demo_env where
  "warm_demo = quiet_demo\<lparr>stream_post := (\<lambda>p rnd. (0, if rnd = 0 then 4 else 1,
      Inr \<lparr>sse_status = 200, sse_text = [], sse_lines = [], sse_end = Finished\<rparr>)),
    completion := (\<lambda>pool n. if pool = ''warm'' then rev [0..<n] else [0..<n])\<rparr>"


end
