(* ===== verification/Demo_Setup.thy ===== *)
theory Demo_Setup
  imports Demos
begin

section \<open>The demo scripts as a whole\<close>

text \<open>
  What each demo does when it is run: its module body (the import of \<^verbatim>\<open>requests\<close>, the addresses taken from the environment, the log directory
  and file, the doubled standard output) and then \<^verbatim>\<open>main\<close>. A \<open>script_run\<close> is what is left at the end: the world, what the terminal shows, what
  the log file holds (\<open>None\<close> when it was never opened) and how the script ended. \<open>net\<close> gives the answers of the servers at the addresses in use.
\<close>

record module_env =
  requests_ok :: bool
  script_dir :: string
  now_stamp :: string
  makedirs :: "string \<Rightarrow> unit res"
  open_w :: "string \<Rightarrow> unit res"

record script_run =
  run_world :: world
  screen :: "out list"
  logged :: "out list option"
  ended :: "unit res"

definition environ_get :: "world \<Rightarrow> string \<Rightarrow> string \<Rightarrow> string" where
  "environ_get w k d = (case environ w k of None \<Rightarrow> d | Some v \<Rightarrow> v)"

definition import_or_exit :: "string \<Rightarrow> module_env \<Rightarrow> unit io" where
  "import_or_exit hint me = (if requests_ok me then io_return () else io_then (io_print hint []) (io_raise (SystemExit 1)))"

definition open_log :: "string \<Rightarrow> module_env \<Rightarrow> world \<Rightarrow> (string \<times> string \<times> world) res" where
  "open_log demo me w =
     (let dir = path_join (script_dir me) ''logs'';
          path = log_path_of dir demo (now_stamp me)
      in res_bind (makedirs me dir) (\<lambda>_. res_bind (open_w me path) (\<lambda>_.
         Inr (dir, path, w\<lparr>files := (files w)(path \<mapsto> [])\<rparr>))))"

text \<open>Once standard output is the \<^verbatim>\<open>_Tee\<close>, every line goes to the terminal and to the log file.\<close>

definition run_script :: "unit io \<Rightarrow> string \<Rightarrow> (string \<Rightarrow> string \<Rightarrow> world \<Rightarrow> world \<times> unit io) \<Rightarrow> module_env \<Rightarrow> world \<Rightarrow> script_run" where
  "run_script imports demo main me w =
     (case result imports of
        Inl e \<Rightarrow> \<lparr>run_world = w, screen = printed imports, logged = None, ended = Inl e\<rparr>
      | Inr _ \<Rightarrow>
          (case open_log demo me w of
             Inl e \<Rightarrow> \<lparr>run_world = w, screen = printed imports, logged = None, ended = Inl e\<rparr>
           | Inr (dir, path, w1) \<Rightarrow>
               (let (w2, m) = main dir path w1;
                    lines = Print ''[log -> {}]'' [S path] # printed m
                in \<lparr>run_world = w2, screen = printed imports @ lines, logged = Some lines, ended = result m\<rparr>)))"

text \<open>The module's globals: the address of the gateway, the log directory and the log file; \<^verbatim>\<open>tp_demo\<close> and \<^verbatim>\<open>ep_demo\<close> also know the server.\<close>

definition with_log :: "demo_env \<Rightarrow> string \<Rightarrow> string \<Rightarrow> string \<Rightarrow> demo_env" where
  "with_log env url dir path = env\<lparr>gateway_url := url, log_dir := dir, log_path := path\<rparr>"

definition with_server :: "demo_env \<Rightarrow> string \<Rightarrow> demo_env" where
  "with_server env url = env\<lparr>sglang := (sglang env)\<lparr>sglang_url := url\<rparr>\<rparr>"

definition tp_script :: "(string list \<Rightarrow> demo_env) \<Rightarrow> module_env \<Rightarrow> world \<Rightarrow> script_run" where
  "tp_script net me w =
     (let GATEWAY_URL = environ_get w ''GATEWAY_URL'' ''http://localhost:8080'';
          SGLANG_URL = environ_get w ''SGLANG_URL'' ''http://localhost:30000''
      in run_script (import_or_exit ''pip3 install requests'' me) ''tp_demo''
           (\<lambda>dir path. tp_main (with_log (with_server (net [GATEWAY_URL, SGLANG_URL]) SGLANG_URL) GATEWAY_URL dir path)) me w)"

definition ep_script :: "(string list \<Rightarrow> demo_env) \<Rightarrow> module_env \<Rightarrow> world \<Rightarrow> script_run" where
  "ep_script net me w =
     (let GATEWAY_URL = environ_get w ''GATEWAY_URL'' ''http://localhost:8080'';
          SGLANG_URL = environ_get w ''SGLANG_URL'' ''http://localhost:30000''
      in run_script (import_or_exit ''pip3 install requests'' me) ''ep_demo''
           (\<lambda>dir path. ep_main (with_log (with_server (net [GATEWAY_URL, SGLANG_URL]) SGLANG_URL) GATEWAY_URL dir path)) me w)"

definition dp_script :: "(string list \<Rightarrow> demo_env) \<Rightarrow> module_env \<Rightarrow> world \<Rightarrow> script_run" where
  "dp_script net me w =
     (let GATEWAY_URL = environ_get w ''GATEWAY_URL'' ''http://localhost:8080'';
          base = environ_get w ''SGLANG_BASE_URL'' ''http://localhost''
      in run_script (import_or_exit ''pip3 install requests'' me) ''dp_demo''
           (\<lambda>dir path. dp_main ((with_log (net [GATEWAY_URL]) GATEWAY_URL dir path)\<lparr>node_base := base\<rparr>)) me w)"

definition pd_script :: "(string list \<Rightarrow> demo_env) \<Rightarrow> module_env \<Rightarrow> world \<Rightarrow> script_run" where
  "pd_script net me w =
     (let GATEWAY_URL = environ_get w ''GATEWAY_URL'' ''http://localhost:8080''
      in run_script (import_or_exit ''pip3 install requests'' me) ''pd_demo''
           (\<lambda>dir path. pd_main (with_log (net [GATEWAY_URL]) GATEWAY_URL dir path)) me w)"

definition streaming_script :: "(string list \<Rightarrow> demo_env) \<Rightarrow> module_env \<Rightarrow> world \<Rightarrow> script_run" where
  "streaming_script net me w =
     (let GATEWAY_URL = environ_get w ''GATEWAY_URL'' ''http://localhost:8080''
      in run_script (import_or_exit ''Please install requests: pip3 install requests'' me) ''streaming_demo''
           (\<lambda>dir path. streaming_main (with_log (net [GATEWAY_URL]) GATEWAY_URL dir path)) me w)"

text \<open>\<^verbatim>\<open>enterprise_qa_demo\<close> imports \<^verbatim>\<open>requests\<close> without a handler.\<close>

definition enterprise_script :: "(string list \<Rightarrow> demo_env) \<Rightarrow> module_env \<Rightarrow> world \<Rightarrow> script_run" where
  "enterprise_script net me w =
     (let GATEWAY_URL = environ_get w ''GATEWAY_URL'' ''http://localhost:8080''
      in run_script (if requests_ok me then io_return () else io_raise ImportErr) ''enterprise_qa_demo''
           (\<lambda>dir path. enterprise_main (with_log (net [GATEWAY_URL]) GATEWAY_URL dir path)) me w)"

subsection \<open>Lemmas\<close>

text \<open>Two file systems that differ only at the given paths.\<close>

definition changed_only :: "string set \<Rightarrow> (string \<Rightarrow> string option) \<Rightarrow> (string \<Rightarrow> string option) \<Rightarrow> bool" where
  "changed_only P fs fs' \<longleftrightarrow> (\<forall>p. p \<notin> P \<longrightarrow> fs' p = fs p)"

lemma changed_only_refl [simp]: "changed_only P fs fs"
  by (simp add: changed_only_def)

lemma changed_only_trans: "changed_only P fs fs' \<Longrightarrow> changed_only P fs' fs'' \<Longrightarrow> changed_only P fs fs''"
  by (simp add: changed_only_def)

lemma changed_only_upd: "p \<in> P \<Longrightarrow> changed_only P fs (fs(p \<mapsto> t))"
  by (auto simp: changed_only_def)

lemma changed_only_mono: "changed_only P fs fs' \<Longrightarrow> P \<subseteq> Q \<Longrightarrow> changed_only Q fs fs'"
  by (auto simp: changed_only_def)

lemma save_loop_changes:
  "set names \<subseteq> N \<Longrightarrow> changed_only (container_log_path dir ts ` N) fs (fst (save_loop ps lg opn dir ts names fs))"
proof (induction names arbitrary: fs)
  case (Cons name names)
  let ?p = "container_log_path dir ts name"
  have u: "changed_only (container_log_path dir ts ` N) fs (fs(?p \<mapsto> t))" for t
    using Cons.prems by (intro changed_only_upd) simp
  have IH: "changed_only (container_log_path dir ts ` N) g (fst (save_loop ps lg opn dir ts names g))" for g
    using Cons by simp
  show ?case
    using u IH changed_only_trans [OF u IH] by (auto simp: Let_def case_prod_beta split: sum.splits)
qed simp

lemma save_container_logs_changes:
  "changed_only (container_log_path dir ts ` set CONTAINERS) (files w) (files (fst (save_container_logs h dir ts w)))"
proof -
  have e: "files (load_env_file h w) = files w" by (simp add: load_env_file_def split: option.split)
  have "changed_only (container_log_path dir ts ` set CONTAINERS) fs (fst (save_loop ps lg opn dir ts CONTAINERS fs))" for ps lg opn fs
    by (rule save_loop_changes) simp
  then show ?thesis
    by (auto simp: save_container_logs_def save_via_local_def save_via_ssh_def Let_def e split: prod.splits) (metis fst_conv)+
qed

text \<open>What a demo may write: container logs that carry its time stamp, possibly with a tag.\<close>

definition own_logs :: "string \<Rightarrow> string \<Rightarrow> string set" where
  "own_logs dir stamp = {container_log_path dir (stamp @ tag) n |tag n. n \<in> set CONTAINERS}"

lemma and_then_changes:
  assumes "\<And>x. changed_only P (files w) (files (fst (k x w)))"
  shows "changed_only P (files w) (files (fst (and_then m k w)))"
  using assms by (auto simp: and_then_def split: sum.splits prod.splits) (metis fst_conv)

lemma saves_change:
  assumes "log_ts demo (log_path env) = stamp"
  shows "changed_only (own_logs (log_dir env) stamp) (files w) (files (fst (save_plain demo env w)))"
    "changed_only (own_logs (log_dir env) stamp) (files w) (files (fst (save_tagged demo env tag w)))"
proof -
  have "container_log_path (log_dir env) (stamp @ sfx) ` set CONTAINERS \<subseteq> own_logs (log_dir env) stamp" for sfx
    by (auto simp: own_logs_def)
  note sub = this [of "[]"] this [of "''_'' @ tag"]
  show "changed_only (own_logs (log_dir env) stamp) (files w) (files (fst (save_plain demo env w)))"
    using changed_only_mono [OF save_container_logs_changes sub(1) [simplified]] by (simp add: save_plain_def assms)
  show "changed_only (own_logs (log_dir env) stamp) (files w) (files (fst (save_tagged demo env tag w)))"
    using changed_only_mono [OF save_container_logs_changes sub(2)] by (simp add: save_tagged_def assms Let_def case_prod_beta)
qed

lemma mains_change:
  assumes "log_ts demo (log_path env) = stamp"
    "(prog, demo) \<in> {(tp_main, ''tp_demo''), (ep_main, ''ep_demo''), (dp_main, ''dp_demo''), (pd_main, ''pd_demo''),
       (streaming_main, ''streaming_demo''), (enterprise_main, ''enterprise_qa_demo'')}"
  shows "changed_only (own_logs (log_dir env) stamp) (files w) (files (fst (prog env w)))"
  using assms(2) saves_change [OF assms(1)]
  by (auto simp: tp_main_def ep_main_def dp_main_def pd_main_def streaming_main_def enterprise_main_def intro!: and_then_changes)


lemma run_script_effect:
  fixes dir path :: string
  assumes "dir = path_join (script_dir me) ''logs''" "path = log_path_of dir demo (now_stamp me)"
    "\<And>w. changed_only P (files w) (files (fst (main dir path w)))" "printed imports = [] \<or> (\<exists>e. result imports = Inl e)"
  shows "changed_only (insert path P) (files w) (files (run_world (run_script imports demo main me w)))
    \<and> (case logged (run_script imports demo main me w) of
         None \<Rightarrow> run_world (run_script imports demo main me w) = w \<and> (\<exists>e. ended (run_script imports demo main me w) = Inl e)
       | Some ls \<Rightarrow> screen (run_script imports demo main me w) = ls \<and> hd ls = Print ''[log -> {}]'' [S path])"
proof (cases "result imports")
  case (Inr u)
  show ?thesis
  proof (cases "open_log demo me w")
    case (Inr x)
    then have x: "x = (dir, path, w\<lparr>files := (files w)(path \<mapsto> [])\<rparr>)"
      by (auto simp: open_log_def Let_def assms(1,2) res_bind_Inr_iff)
    have "changed_only (insert path P) (files w) (files (fst (main dir path (w\<lparr>files := (files w)(path \<mapsto> [])\<rparr>))))"
      using assms(3) [of "w\<lparr>files := (files w)(path \<mapsto> [])\<rparr>"] by (auto simp: changed_only_def)
    with Inr x \<open>result imports = Inr u\<close> assms(4) show ?thesis by (auto simp: run_script_def Let_def split: prod.splits)
  qed (use Inr in \<open>simp add: run_script_def\<close>)
qed (simp add: run_script_def)

lemma import_or_exit_shape: "printed (import_or_exit hint me) = [] \<or> (\<exists>e. result (import_or_exit hint me) = Inl e)"
  by (simp add: import_or_exit_def)

lemma with_log_fields [simp]: "log_dir (with_log env url dir path) = dir" "log_path (with_log env url dir path) = path"
  by (simp_all add: with_log_def)

definition demo_mains :: "((demo_env \<Rightarrow> world \<Rightarrow> world \<times> unit io) \<times> string) set" where
  "demo_mains = {(tp_main, ''tp_demo''), (ep_main, ''ep_demo''), (dp_main, ''dp_demo''), (pd_main, ''pd_demo''),
     (streaming_main, ''streaming_demo''), (enterprise_main, ''enterprise_qa_demo'')}"

text \<open>The common shape of the six scripts.\<close>

lemma script_shape:
  assumes "(script, demo) \<in> {(tp_script, ''tp_demo''), (ep_script, ''ep_demo''), (dp_script, ''dp_demo''), (pd_script, ''pd_demo''),
      (streaming_script, ''streaming_demo''), (enterprise_script, ''enterprise_qa_demo'')}"
  shows "\<exists>imp prog env. script net me w = run_script imp demo (\<lambda>dir path. prog (env dir path)) me w
    \<and> (printed imp = [] \<or> (\<exists>e. result imp = Inl e)) \<and> (prog, demo) \<in> demo_mains
    \<and> (\<forall>dir path. log_dir (env dir path) = dir \<and> log_path (env dir path) = path)"
proof -
  let ?g = "environ_get w ''GATEWAY_URL'' ''http://localhost:8080''" and ?s = "environ_get w ''SGLANG_URL'' ''http://localhost:30000''"
    and ?imp = "import_or_exit ''pip3 install requests'' me"
  from assms [unfolded insert_iff prod.inject empty_iff] consider "script = tp_script" "demo = ''tp_demo''" | "script = ep_script" "demo = ''ep_demo''" | "script = dp_script" "demo = ''dp_demo''"
    | "script = pd_script" "demo = ''pd_demo''" | "script = streaming_script" "demo = ''streaming_demo''"
    | "script = enterprise_script" "demo = ''enterprise_qa_demo''" by (elim disjE conjE FalseE)
  then show ?thesis
  proof cases
    case 1
    then show ?thesis
      by (intro exI [of _ ?imp] exI [of _ tp_main] exI [of _ "with_log (with_server (net [?g, ?s]) ?s) ?g"])
        (simp add: tp_script_def Let_def import_or_exit_shape demo_mains_def)
  next
    case 2
    then show ?thesis
      by (intro exI [of _ ?imp] exI [of _ ep_main] exI [of _ "with_log (with_server (net [?g, ?s]) ?s) ?g"])
        (simp add: ep_script_def Let_def import_or_exit_shape demo_mains_def)
  next
    case 3
    then show ?thesis
      by (intro exI [of _ ?imp] exI [of _ dp_main]
          exI [of _ "\<lambda>dir path. (with_log (net [?g]) ?g dir path)\<lparr>node_base := environ_get w ''SGLANG_BASE_URL'' ''http://localhost''\<rparr>"])
        (simp add: dp_script_def Let_def import_or_exit_shape demo_mains_def)
  next
    case 4
    then show ?thesis
      by (intro exI [of _ ?imp] exI [of _ pd_main] exI [of _ "with_log (net [?g]) ?g"])
        (simp add: pd_script_def Let_def import_or_exit_shape demo_mains_def)
  next
    case 5
    then show ?thesis
      by (intro exI [of _ "import_or_exit ''Please install requests: pip3 install requests'' me"] exI [of _ streaming_main] exI [of _ "with_log (net [?g]) ?g"])
        (simp add: streaming_script_def Let_def import_or_exit_shape demo_mains_def)
  next
    case 6
    then show ?thesis
      by (intro exI [of _ "if requests_ok me then io_return () else io_raise ImportErr"] exI [of _ enterprise_main] exI [of _ "with_log (net [?g]) ?g"])
        (simp add: enterprise_script_def Let_def demo_mains_def)
  qed
qed

subsection \<open>Properties\<close>



definition demo_module :: module_env where
  "demo_module = \<lparr>requests_ok = True, script_dir = ''examples'', now_stamp = ''20250101_120000'', makedirs = (\<lambda>_. Inr ()), open_w = (\<lambda>_. Inr ())\<rparr>"

definition empty_world :: world where
  "empty_world = \<lparr>environ = Map.empty, files = Map.empty\<rparr>"


end
