(* ===== verification/Real_Engine.thy ===== *)
theory Real_Engine
  imports Py_Base "HOL-Library.AList"
begin

section \<open>The routing benchmark on real engines (benchmarks/real\_engine/run\_real.py)\<close>

text \<open>
  Models \<^verbatim>\<open>run_real.py\<close>: the prompts and the workload, the HTTP polling loop, the fleet of worker and gateway
  processes, one measured run per policy, its summary and the main loop with its clean-up. Effects are a trace of
  events together with the fleet's state, which survives an exception, so that the \<^verbatim>\<open>finally\<close> block sees
  the processes that were started. What the processes answer is an \<open>engine_env\<close>. Counts given on the command line
  are natural numbers (a negative count runs the loops over it as zero does).
\<close>

definition WORKER_BASE_PORT :: int where
  "WORKER_BASE_PORT = 9101"

definition GATEWAY_PORT :: int where
  "GATEWAY_PORT = 19090"

record args =
  model :: string
  workers :: nat
  slots :: nat
  ctx :: nat
  threads :: nat
  prompts :: nat
  per_prompt :: nat
  concurrency :: nat
  max_tokens :: int
  policies :: string
  affinity_wait :: string
  cache_ram :: "int option"
  repeats :: nat
  out_dir :: string

definition default_args :: "string \<Rightarrow> string \<Rightarrow> args" where
  "default_args mdl outp =
     \<lparr>model = mdl, workers = 3, slots = 2, ctx = 8192, threads = 2, prompts = 6, per_prompt = 20, concurrency = 6,
      max_tokens = 8, policies = ''original,upgraded,upgraded_wait,upgraded_place,upgraded_place_wait,roundrobin'',
      affinity_wait = ''10s'', cache_ram = None, repeats = 3, out_dir = outp\<rparr>"

subsection \<open>Prompts and workload\<close>

definition join_with :: "string \<Rightarrow> string list \<Rightarrow> string" where
  "join_with sep xs = (case xs of [] \<Rightarrow> [] | y # ys \<Rightarrow> y @ concat (map (\<lambda>s. sep @ s) ys))"

definition column_type :: "nat \<Rightarrow> string" where
  "column_type c = [''INTEGER'', ''TEXT'', ''REAL'', ''DATE''] ! (c mod 4)"

definition schema_table :: "nat \<Rightarrow> nat \<Rightarrow> string" where
  "schema_table pid t =
     (let cols = join_with '', ''
        (map (\<lambda>c. ''c'' @ show_nat pid @ ''_'' @ show_nat t @ ''_'' @ show_nat c @ '' '' @ column_type c) [0..<8])
      in ''CREATE TABLE department'' @ show_nat pid @ ''_table'' @ show_nat t @ '' ('' @ cols @ '');'')"

definition schema_prompt :: "nat \<Rightarrow> string" where
  "schema_prompt pid =
     ''You translate questions into SQL for the following schema. Answer with one SQL statement only.'' @ [CHR 0x0A]
       @ join_with [CHR 0x0A] (map (schema_table pid) [0..<12])"

text \<open>
  The random numbers of query \<open>n\<close> are \<open>draw n\<close>, with \<^verbatim>\<open>randrange\<close>'s bounds applied; \<^verbatim>\<open>shuffle\<close> is an argument, relied on
  only to permute its list.
\<close>

definition workload_question :: "(nat \<Rightarrow> nat \<times> nat \<times> nat) \<Rightarrow> nat \<Rightarrow> nat \<Rightarrow> string" where
  "workload_question draw pid n =
     (let (a, b, c) = draw n
      in ''How many rows does department'' @ show_nat pid @ ''_table'' @ show_nat (a mod 12) @ '' have where column c''
         @ show_nat pid @ ''_0_'' @ show_nat (b mod 8) @ '' is greater than '' @ show_nat (c mod 1000)
         @ ''? (query '' @ show_nat n @ '')'')"

definition workload :: "args \<Rightarrow> (nat \<Rightarrow> nat \<times> nat \<times> nat) \<Rightarrow> ((nat \<times> string) list \<Rightarrow> (nat \<times> string) list)
    \<Rightarrow> string list \<times> (nat \<times> string) list" where
  "workload a draw shuffle =
     (let ps = map schema_prompt [0..<prompts a];
          reqs = map (\<lambda>n. let pid = n mod prompts a in (pid, workload_question draw pid n)) [0..<prompts a * per_prompt a]
      in (ps, shuffle reqs))"

subsection \<open>Polling a port\<close>

text \<open>
  \<^verbatim>\<open>wait_http\<close>: the \<open>k\<close>-th iteration reads the clock and then sends a request, whose status or exception is \<open>resp k\<close>.
  \<open>None\<close> means that the fuel ran out.
\<close>

fun wait_loop :: "nat \<Rightarrow> (nat \<Rightarrow> real) \<Rightarrow> (nat \<Rightarrow> int res) \<Rightarrow> real \<Rightarrow> nat \<Rightarrow> bool res option" where
  "wait_loop 0 clock resp t_end k = None"
| "wait_loop (Suc fuel) clock resp t_end k =
     (if clock (Suc k) < t_end
      then (case resp k of
              Inr st \<Rightarrow> if st = 200 then Some (Inr True) else wait_loop fuel clock resp t_end (Suc k)
            | Inl e \<Rightarrow> if is_OSError e then wait_loop fuel clock resp t_end (Suc k) else Some (Inl e))
      else Some (Inr False))"

definition wait_fuel :: "nat \<Rightarrow> nat" where
  "wait_fuel timeout = 2 * timeout + 1"

text \<open>The first clock reading gives the deadline; the loop sleeps half a second after every failed attempt.\<close>

definition wait_http :: "nat \<Rightarrow> (nat \<Rightarrow> real) \<Rightarrow> (nat \<Rightarrow> int res) \<Rightarrow> bool res option" where
  "wait_http timeout clock resp = wait_loop (wait_fuel timeout) clock resp (clock 0 + real timeout) 0"

subsection \<open>Effects\<close>

text \<open>
  The trace records what the script did to the outside, a process being named by the number of its \<^verbatim>\<open>Popen\<close>. The state of
  a fleet object is \<open>procs\<close>; \<open>answers\<close> counts the interactions so far and selects the answer of the next one, and
  \<open>worktree\<close> is the local variable of \<^verbatim>\<open>main\<close> that its \<^verbatim>\<open>finally\<close> block reads.
\<close>

datatype event =
    MkDir string | Popen nat "string list" | WriteConfig string json | Poll int string
  | Post int string json | Erase int nat | Metrics int | Term nat | Kill nat | WriteCsv string
  | Run "string list" | RmTree string

record fleet =
  procs :: "nat list"
  spawned :: nat
  answers :: nat
  worktree :: "string option"

type_synonym 'a act = "fleet \<Rightarrow> event list \<times> fleet \<times> 'a res"

definition act_return :: "'a \<Rightarrow> 'a act" where
  "act_return x = (\<lambda>f. ([], f, Inr x))"

definition act_lift :: "'a res \<Rightarrow> 'a act" where
  "act_lift r = (\<lambda>f. ([], f, r))"

definition act_bind :: "'a act \<Rightarrow> ('a \<Rightarrow> 'b act) \<Rightarrow> 'b act" where
  "act_bind m k = (\<lambda>f.
     case m f of (es, f', r) \<Rightarrow>
       (case r of
          Inl e \<Rightarrow> (es, f', Inl e)
        | Inr x \<Rightarrow> (case k x f' of (es', f'', r') \<Rightarrow> (es @ es', f'', r'))))"

definition act_then :: "'a act \<Rightarrow> 'b act \<Rightarrow> 'b act" where
  "act_then m n = act_bind m (\<lambda>_. n)"

definition act_emit :: "event \<Rightarrow> unit act" where
  "act_emit ev = (\<lambda>f. ([ev], f, Inr ()))"

definition act_ask :: "event list \<Rightarrow> (nat \<Rightarrow> 'a res) \<Rightarrow> 'a act" where
  "act_ask evs ans = (\<lambda>f. (evs, f\<lparr>answers := Suc (answers f)\<rparr>, ans (answers f)))"

definition act_finally :: "'a act \<Rightarrow> unit act \<Rightarrow> 'a act" where
  "act_finally m c = (\<lambda>f.
     case m f of (es, f', r) \<Rightarrow>
       (case c f' of (es', f'', r') \<Rightarrow> (es @ es', f'', case r' of Inl e \<Rightarrow> Inl e | Inr _ \<Rightarrow> r)))"

fun act_iter :: "('a \<Rightarrow> unit act) \<Rightarrow> 'a list \<Rightarrow> unit act" where
  "act_iter g [] = act_return ()"
| "act_iter g (x # xs) = act_then (g x) (act_iter g xs)"

fun act_collect :: "('a \<Rightarrow> 'b act) \<Rightarrow> 'a list \<Rightarrow> 'b list act" where
  "act_collect g [] = act_return []"
| "act_collect g (x # xs) = act_bind (g x) (\<lambda>y. act_bind (act_collect g xs) (\<lambda>ys. act_return (y # ys)))"

subsection \<open>The outside\<close>

text \<open>
  Answers by interaction number: whether a process could be started, the clock and the statuses of a polling loop, the
  status, headers and decoded body of a request with its latency in milliseconds, and so on. \<open>turns\<close> is the order in which
  the threads of a pool take their turn.
\<close>

record engine_env =
  cmd :: "nat \<Rightarrow> unit res"
  popen :: "nat \<Rightarrow> unit res"
  poll :: "nat \<Rightarrow> (nat \<Rightarrow> real) \<times> (nat \<Rightarrow> int res)"
  post :: "nat \<Rightarrow> (int \<times> (string \<times> string) list \<times> json res) res"
  post_ms :: "nat \<Rightarrow> real"
  erased :: "nat \<Rightarrow> unit res"
  metrics :: "nat \<Rightarrow> string res"
  float_of :: "string \<Rightarrow> real res"
  exits :: "nat \<Rightarrow> bool"
  killed :: "nat \<Rightarrow> unit res"
  draws :: "nat \<Rightarrow> nat \<Rightarrow> nat \<times> nat \<times> nat"
  shuffles :: "nat \<Rightarrow> (nat \<times> string) list \<Rightarrow> (nat \<times> string) list"
  turns :: "nat \<Rightarrow> nat list"
  wall_s :: "nat \<Rightarrow> real"
  tmp :: string
  root :: string

definition poll_ok :: "engine_env \<Rightarrow> int \<Rightarrow> string \<Rightarrow> bool act" where
  "poll_ok env port path =
     act_ask [Poll port path]
       (\<lambda>k. let (clock, resp) = poll env k in case wait_http 90 clock resp of Some r \<Rightarrow> r | None \<Rightarrow> Inr False)"

definition post_json :: "engine_env \<Rightarrow> int \<Rightarrow> string \<Rightarrow> json \<Rightarrow> (int \<times> (string \<times> string) list \<times> json res) act" where
  "post_json env port path body = act_ask [Post port path body] (post env)"

definition warm_workers :: "engine_env \<Rightarrow> args \<Rightarrow> unit act" where
  "warm_workers env a =
     act_iter (\<lambda>i.
       act_then
         (post_json env (WORKER_BASE_PORT + int i) ''/v1/chat/completions''
            (JObj [(''model'', JStr ''default''), (''max_tokens'', JInt 2),
                   (''messages'', JArr [JObj [(''role'', JStr ''user''), (''content'', JStr ''hi'')]])]))
         (act_return ()))
       [0..<workers a]"

definition erase_caches :: "engine_env \<Rightarrow> args \<Rightarrow> unit act" where
  "erase_caches env a =
     act_iter (\<lambda>i. act_iter (\<lambda>slot. act_ask [Erase (WORKER_BASE_PORT + int i) slot] (erased env)) [0..<slots a])
       [0..<workers a]"

text \<open>\<^verbatim>\<open>next(float(l.split()[-1]) for l in ... if l.startswith(...))\<close>\<close>

definition prompt_total :: "(string \<Rightarrow> real res) \<Rightarrow> string \<Rightarrow> real res" where
  "prompt_total flt body =
     (case filter (\<lambda>l. startswith l ''llamacpp:prompt_tokens_total'') (splitlines body) of
        [] \<Rightarrow> Inl StopIter
      | l # _ \<Rightarrow> flt (last (split_ws l)))"

definition prefill_counters :: "engine_env \<Rightarrow> args \<Rightarrow> real list act" where
  "prefill_counters env a =
     act_collect (\<lambda>i. act_bind (act_ask [Metrics (WORKER_BASE_PORT + int i)] (metrics env))
        (\<lambda>body. act_lift (prompt_total (float_of env) body))) [0..<workers a]"

subsection \<open>The fleet\<close>

definition spawn :: "engine_env \<Rightarrow> string list \<Rightarrow> nat act" where
  "spawn env argv = (\<lambda>f.
     let f' = f\<lparr>answers := Suc (answers f)\<rparr>
     in case popen env (answers f) of
          Inl e \<Rightarrow> ([], f', Inl e)
        | Inr _ \<Rightarrow> ([Popen (spawned f) argv], f'\<lparr>procs := procs f @ [spawned f], spawned := Suc (spawned f)\<rparr>, Inr (spawned f)))"

definition worker_argv :: "engine_env \<Rightarrow> args \<Rightarrow> nat \<Rightarrow> string list" where
  "worker_argv env a i =
     [''llama-server'', ''-m'', model a, ''--port'', show_int (WORKER_BASE_PORT + int i), ''-np'', show_nat (slots a),
      ''-c'', show_nat (ctx a), ''-t'', show_nat (threads a), ''--metrics'',
      ''--slot-save-path'', path_join (tmp env) (''slots'' @ show_nat i)]
     @ (case cache_ram a of None \<Rightarrow> [] | Some r \<Rightarrow> [''--cache-ram'', show_int r])"

definition start_workers :: "engine_env \<Rightarrow> args \<Rightarrow> unit act" where
  "start_workers env a =
     act_then
       (act_iter (\<lambda>i.
          act_then (act_emit (MkDir (path_join (tmp env) (''slots'' @ show_nat i))))
            (act_bind (spawn env (worker_argv env a i)) (\<lambda>_. act_return ()))) [0..<workers a])
       (act_iter (\<lambda>i.
          act_bind (poll_ok env (WORKER_BASE_PORT + int i) ''/health'') (\<lambda>ok.
          if ok then act_return ()
          else act_lift (Inl (RuntimeErr (''worker '' @ show_nat i @ '' did not become healthy''))))) [0..<workers a])"

text \<open>The gateway's configuration; the routing options override the two defaults written before them.\<close>

definition config_json :: "args \<Rightarrow> (string \<times> json) list option \<Rightarrow> json" where
  "config_json a routing =
     JObj ([(''port'', JInt GATEWAY_PORT), (''default_model'', JStr ''default''),
            (''max_concurrent_per_node'', JInt (int (slots a))),
            (''sglang_instances'',
              JArr (map (\<lambda>i. JObj [(''group'', JStr ''local''), (''host'', JStr ''127.0.0.1''),
                 (''port'', JInt (WORKER_BASE_PORT + int i)), (''max_concurrent'', JInt (int (slots a)))]) [0..<workers a]))]
       @ (case routing of
            None \<Rightarrow> []
          | Some [] \<Rightarrow> []
          | Some opts \<Rightarrow> [(''routing'', JObj (AList.updates (map fst opts) (map snd opts)
               [(''bounded_load_factor'', JFloat 1.25), (''affinity_floor'', JInt 4)]))]))"

definition routing_for :: "string \<Rightarrow> args \<Rightarrow> (string \<times> json) list option" where
  "routing_for policy a =
     map_of [(''upgraded_wait'', [(''affinity_wait'', JStr (affinity_wait a))]),
             (''upgraded_place'', [(''placement_size'', JInt 1024)]),
             (''upgraded_place_wait'', [(''placement_size'', JInt 1024), (''affinity_wait'', JStr (affinity_wait a))])] policy"

definition config_path :: "engine_env \<Rightarrow> string" where
  "config_path env = path_join (tmp env) ''gateway.json''"

definition start_gateway :: "engine_env \<Rightarrow> args \<Rightarrow> string \<Rightarrow> (string \<times> json) list option \<Rightarrow> nat act" where
  "start_gateway env a binary routing =
     act_then (act_emit (WriteConfig (config_path env) (config_json a routing)))
     (act_bind (spawn env [binary]) (\<lambda>p.
      act_bind (poll_ok env GATEWAY_PORT ''/health'') (\<lambda>ok.
      if ok then act_return p else act_lift (Inl (RuntimeErr ''gateway did not start'')))))"

text \<open>\<^verbatim>\<open>stop\<close>: SIGTERM, five seconds to leave, SIGKILL, and out of the list. A process of the fleet is in the list once.\<close>

definition stop :: "engine_env \<Rightarrow> nat \<Rightarrow> unit act" where
  "stop env p =
     act_bind (act_ask [Term p] (\<lambda>k. Inr (exits env k))) (\<lambda>gone.
     act_then (if gone then act_return () else act_emit (Kill p))
       (\<lambda>f. ([], f\<lparr>procs := remove1 p (procs f)\<rparr>, Inr ())))"

text \<open>\<^verbatim>\<open>close\<close>: SIGKILL to every process still listed; an \<^verbatim>\<open>OSError\<close> of one does not keep it from the others.\<close>

definition kill_one :: "engine_env \<Rightarrow> nat \<Rightarrow> unit act" where
  "kill_one env p =
     act_ask [Kill p] (\<lambda>k. case killed env k of Inl e \<Rightarrow> if is_OSError e then Inr () else Inl e | Inr _ \<Rightarrow> Inr ())"

definition close :: "engine_env \<Rightarrow> unit act" where
  "close env = (\<lambda>f. act_iter (kill_one env) (procs f) f)"

subsection \<open>One measured run\<close>

datatype row =
    OkRow (lat: real) (node: string) (prompt: json) (cached: json) (prefill_ms: json)
  | BadRow (lat: real) (status: int)

fun is_ok :: "row \<Rightarrow> bool" where
  "is_ok (OkRow _ _ _ _ _) = True"
| "is_ok (BadRow _ _) = False"

definition request_body :: "args \<Rightarrow> string list \<Rightarrow> nat \<times> string \<Rightarrow> json" where
  "request_body a ps item =
     JObj [(''model'', JStr ''default''), (''max_tokens'', JInt (max_tokens a)), (''temperature'', JInt 0),
           (''stream'', JBool False),
           (''messages'', JArr [JObj [(''role'', JStr ''system''), (''content'', JStr (ps ! fst item))],
                                JObj [(''role'', JStr ''user''), (''content'', JStr (snd item))]])]"

text \<open>Where a request goes; \<open>n\<close> is the value of the round-robin counter that the request took.\<close>

definition target_of :: "string \<Rightarrow> args \<Rightarrow> nat \<Rightarrow> int \<times> string" where
  "target_of policy a n =
     (if policy = ''roundrobin'' then (WORKER_BASE_PORT + int (n mod workers a), ''/v1/chat/completions'')
      else (GATEWAY_PORT, ''/v1/chat''))"

definition ok_row :: "int \<Rightarrow> real \<Rightarrow> (string \<times> string) list \<Rightarrow> json \<Rightarrow> row res" where
  "ok_row port ms headers d =
     res_bind (py_get d ''timings'' (JObj [])) (\<lambda>tm.
     res_bind (py_item d ''usage'') (\<lambda>u.
     res_bind (py_item u ''prompt_tokens'') (\<lambda>pt.
     res_bind (py_item u ''prompt_tokens_details'') (\<lambda>det.
     res_bind (py_item det ''cached_tokens'') (\<lambda>ct.
     res_bind (py_get tm ''prompt_ms'' (JFloat 0)) (\<lambda>pm.
     let nd = (case map_of headers ''X-Gateway-Node'' of Some h \<Rightarrow> h | None \<Rightarrow> [])
     in Inr (OkRow ms (if nd \<noteq> [] then nd else ''127.0.0.1:'' @ show_int port) pt ct pm)))))))"

definition one :: "int \<Rightarrow> real \<Rightarrow> (int \<times> (string \<times> string) list \<times> json res) res \<Rightarrow> row res" where
  "one port ms answer =
     (case res_bind answer (\<lambda>(st, headers, data).
             if st \<noteq> 200 then Inr (BadRow ms st) else res_bind data (ok_row port ms headers)) of
        Inr r \<Rightarrow> Inr r
      | Inl e \<Rightarrow> if is_OSError e then Inr (BadRow ms (- 1)) else Inl e)"

text \<open>
  The pool: the requests run in the order \<open>order\<close> (a list of indices into \<open>reqs\<close>), the \<open>n\<close>-th of them taking
  counter value \<open>n\<close>. Every request is sent; \<^verbatim>\<open>list(ex.map(...))\<close> then gives the rows in the order of \<open>reqs\<close>, or
  the first exception in that order.
\<close>

fun send_all :: "engine_env \<Rightarrow> string \<Rightarrow> args \<Rightarrow> string list \<Rightarrow> (nat \<times> string) list \<Rightarrow> nat \<Rightarrow> nat list
    \<Rightarrow> (nat \<times> row res) list act" where
  "send_all env policy a ps reqs n [] = act_return []"
| "send_all env policy a ps reqs n (j # js) = (\<lambda>f.
     let (port, path) = target_of policy a n;
         body = request_body a ps (reqs ! j);
         r = one port (post_ms env (answers f)) (post env (answers f));
         (es, f', rs) = send_all env policy a ps reqs (Suc n) js (f\<lparr>answers := Suc (answers f)\<rparr>)
     in (Post port path body # es, f', res_bind rs (\<lambda>xs. Inr ((j, r) # xs))))"

fun res_all :: "'a res list \<Rightarrow> 'a list res" where
  "res_all [] = Inr []"
| "res_all (r # rs) = res_bind r (\<lambda>x. res_bind (res_all rs) (\<lambda>xs. Inr (x # xs)))"

definition run_policy :: "engine_env \<Rightarrow> string \<Rightarrow> args \<Rightarrow> string list \<Rightarrow> (nat \<times> string) list \<Rightarrow> (row list \<times> real) act" where
  "run_policy env policy a ps reqs = (\<lambda>f.
     let order = turns env (answers f)
     in act_bind (send_all env policy a ps reqs 0 order) (\<lambda>done.
        act_bind (act_lift (res_all (map (\<lambda>j. the (map_of done j)) [0..<length reqs]))) (\<lambda>rows.
        act_ask [] (\<lambda>k. Inr (rows, wall_s env k)))) f)"

subsection \<open>The summary of a run\<close>

text \<open>\<^verbatim>\<open>min(len(xs) - 1, int(q * len(xs)))\<close> with an exact product; NaN for an empty list is \<open>None\<close>.\<close>

definition pct_rank :: "real \<Rightarrow> nat \<Rightarrow> nat" where
  "pct_rank q n = min (n - 1) (nat \<lfloor>q * real n\<rfloor>)"

definition pct :: "real list \<Rightarrow> real \<Rightarrow> real option" where
  "pct xs q = (if xs = [] then None else Some (sort xs ! pct_rank q (length xs)))"

record summary =
  requests :: nat
  ok :: nat
  cache_hit :: real
  prefill_p50 :: "real option"
  prefill_p95 :: "real option"
  lat_p50 :: "real option"
  lat_p95 :: "real option"
  rps :: real
  share :: "int list"

definition sum_field :: "(row \<Rightarrow> json) \<Rightarrow> row list \<Rightarrow> real res" where
  "sum_field g rs = res_bind (res_all (map (\<lambda>r. json_num (g r)) rs)) (\<lambda>xs. Inr (sum_list xs))"

definition summarize :: "row list \<Rightarrow> real \<Rightarrow> summary res" where
  "summarize rows wall =
     (let oks = filter is_ok rows
      in res_bind (sum_field prompt oks) (\<lambda>pt.
         res_bind (sum_field cached oks) (\<lambda>ct.
         res_bind (res_all (map (\<lambda>r. json_num (prefill_ms r)) oks)) (\<lambda>pre.
         Inr \<lparr>requests = length rows, ok = length oks, cache_hit = (if pt \<noteq> 0 then ct / pt else 0),
              prefill_p50 = pct pre 0.5, prefill_p95 = pct pre 0.95,
              lat_p50 = pct (map lat oks) 0.5, lat_p95 = pct (map lat oks) 0.95,
              rps = real (length oks) / wall, share = []\<rparr>))))"

text \<open>\<^verbatim>\<open>int(b - a)\<close> truncates towards zero.\<close>

definition py_trunc :: "real \<Rightarrow> int" where
  "py_trunc x = (if 0 \<le> x then \<lfloor>x\<rfloor> else \<lceil>x\<rceil>)"

definition share_of :: "real list \<Rightarrow> real list \<Rightarrow> int list" where
  "share_of before after = map (\<lambda>(x, y). py_trunc (y - x)) (zip before after)"

subsection \<open>The experiment\<close>

text \<open>\<^verbatim>\<open>subprocess.run(..., check=True)\<close> raises when the command fails; the tuple is returned only after the last command.\<close>

definition build_gateways :: "engine_env \<Rightarrow> (string \<times> string \<times> string) act" where
  "build_gateways env =
     (let upgraded = path_join (tmp env) ''gateway-upgraded'';
          wt = path_join (tmp env) ''orig'';
          original = path_join (tmp env) ''gateway-original''
      in act_then (act_ask [Run [''go'', ''build'', ''-o'', upgraded, ''.'']] (cmd env))
        (act_then (act_ask [Run [''git'', ''-C'', root env, ''worktree'', ''add'', ''--detach'', wt, ''upstream-snapshot'']] (cmd env))
        (act_then (act_ask [Run [''go'', ''build'', ''-o'', original, ''.'']] (cmd env))
           (act_return (original, upgraded, wt)))))"

definition csv_path :: "args \<Rightarrow> string \<Rightarrow> nat \<Rightarrow> string" where
  "csv_path a policy rep = path_join (out_dir a) (policy @ ''_run'' @ show_nat rep @ ''.csv'')"

definition measure :: "engine_env \<Rightarrow> args \<Rightarrow> string \<times> string \<Rightarrow> nat \<Rightarrow> string list \<Rightarrow> (nat \<times> string) list \<Rightarrow> string \<Rightarrow> summary act" where
  "measure env a gateways rep ps reqs policy =
     act_bind
       (if policy \<noteq> ''roundrobin''
        then act_bind (start_gateway env a (if policy = ''original'' then fst gateways else snd gateways) (routing_for policy a))
               (\<lambda>p. act_return (Some p))
        else act_return None) (\<lambda>gw.
     act_then (erase_caches env a)
     (act_bind (prefill_counters env a) (\<lambda>before.
      act_bind (run_policy env policy a ps reqs) (\<lambda>(rows, wall).
      act_bind (prefill_counters env a) (\<lambda>after.
      act_bind (act_lift (summarize rows wall)) (\<lambda>s.
      act_then (act_emit (WriteCsv (csv_path a policy rep)))
     (act_then (case gw of None \<Rightarrow> act_return () | Some p \<Rightarrow> stop env p)
        (act_return (s\<lparr>share := share_of before after\<rparr>)))))))))"

type_synonym results = "(string \<times> summary list) list"

fun policy_loop :: "engine_env \<Rightarrow> args \<Rightarrow> string \<times> string \<Rightarrow> nat \<Rightarrow> string list \<Rightarrow> (nat \<times> string) list \<Rightarrow> results \<Rightarrow> string list
    \<Rightarrow> results act" where
  "policy_loop env a gws rep ps reqs res [] = act_return res"
| "policy_loop env a gws rep ps reqs res (policy # pols) =
     act_bind (measure env a gws rep ps reqs policy) (\<lambda>s.
     policy_loop env a gws rep ps reqs
       (AList.update policy ((case map_of res policy of None \<Rightarrow> [] | Some l \<Rightarrow> l) @ [s]) res) pols)"

fun rep_loop :: "engine_env \<Rightarrow> args \<Rightarrow> string \<times> string \<Rightarrow> string list \<Rightarrow> results \<Rightarrow> nat list \<Rightarrow> results act" where
  "rep_loop env a gws pols res [] = act_return res"
| "rep_loop env a gws pols res (rep # reps) =
     (let (ps, reqs) = workload a (draws env rep) (shuffles env rep)
      in act_bind (policy_loop env a gws rep ps reqs res pols) (\<lambda>res'. rep_loop env a gws pols res' reps))"

definition cleanup :: "engine_env \<Rightarrow> unit act" where
  "cleanup env =
     act_then (close env)
     (act_then (\<lambda>f. ((case worktree f of
            None \<Rightarrow> []
          | Some wt \<Rightarrow> [Run [''git'', ''-C'', root env, ''worktree'', ''remove'', ''--force'', wt]]), f, Inr ()))
        (act_emit (RmTree (tmp env))))"

definition run_experiment :: "engine_env \<Rightarrow> args \<Rightarrow> results act" where
  "run_experiment env a =
     (let pols = split_on (CHR '','') (policies a)
      in act_finally
           (act_bind (build_gateways env) (\<lambda>(original, upgraded, wt).
            act_then (\<lambda>f. ([], f\<lparr>worktree := Some wt\<rparr>, Inr ()))
           (act_then (start_workers env a)
           (act_then (warm_workers env a)
              (rep_loop env a (original, upgraded) pols (map (\<lambda>p. (p, [])) (rev (remdups (rev pols)))) [0..<repeats a])))))
           (cleanup env))"

definition fleet0 :: fleet where
  "fleet0 = \<lparr>procs = [], spawned = 0, answers = 0, worktree = None\<rparr>"

text \<open>
  The rows of the final table. The median of a column with an undefined percentile compares with NaN; the model gives no
  value for it.
\<close>

definition med_opt :: "real option list \<Rightarrow> real option res" where
  "med_opt xs = (if None \<in> set xs then Inr None else res_bind (median (map the xs)) (\<lambda>m. Inr (Some m)))"

record table_row =
  row_policy :: string
  row_hit :: real
  row_prefill :: "real option \<times> real option"
  row_lat :: "real option \<times> real option"
  row_rps :: real
  row_share :: "int list"

definition table_row_of :: "string \<times> summary list \<Rightarrow> table_row res" where
  "table_row_of x =
     (case x of (policy, runs) \<Rightarrow>
       res_bind (median (map cache_hit runs)) (\<lambda>hit.
       res_bind (med_opt (map prefill_p50 runs)) (\<lambda>p50.
       res_bind (med_opt (map prefill_p95 runs)) (\<lambda>p95.
       res_bind (med_opt (map lat_p50 runs)) (\<lambda>l50.
       res_bind (med_opt (map lat_p95 runs)) (\<lambda>l95.
       res_bind (median (map rps runs)) (\<lambda>r.
       Inr \<lparr>row_policy = policy, row_hit = hit, row_prefill = (p50, p95), row_lat = (l50, l95), row_rps = r,
            row_share = share (runs ! (length runs div 2))\<rparr>)))))))"

definition run_real_main :: "engine_env \<Rightarrow> args \<Rightarrow> event list \<times> fleet \<times> table_row list res" where
  "run_real_main env a = act_bind (run_experiment env a) (\<lambda>res. act_lift (res_all (map table_row_of res))) fleet0"

subsection \<open>Lemmas: the trace and the process list\<close>

named_theorems keeps_intros \<open>actions that lose no process\<close>

definition started :: "event list \<Rightarrow> nat set" where
  "started es = {p. \<exists>argv. Popen p argv \<in> set es}"

definition signalled :: "event list \<Rightarrow> nat set" where
  "signalled es = {p. Term p \<in> set es \<or> Kill p \<in> set es}"

lemma trace_simps [simp]:
  "started [] = {}" "signalled [] = {}"
  "started (es @ es') = started es \<union> started es'" "signalled (es @ es') = signalled es \<union> signalled es'"
  "started (ev # es) = (case ev of Popen p argv \<Rightarrow> {p} | _ \<Rightarrow> {}) \<union> started es"
  "signalled (ev # es) = (case ev of Term p \<Rightarrow> {p} | Kill p \<Rightarrow> {p} | _ \<Rightarrow> {}) \<union> signalled es"
  by (auto simp: started_def signalled_def split: event.splits)

text \<open>Every process known before or started by the action is still listed, or was signalled.\<close>

definition keeps :: "'a act \<Rightarrow> bool" where
  "keeps m \<longleftrightarrow> (\<forall>f es f' r. m f = (es, f', r) \<longrightarrow>
     set (procs f) \<union> started es \<subseteq> set (procs f') \<union> signalled es)"

lemma keepsD: "keeps m \<Longrightarrow> m f = (es, f', r) \<Longrightarrow> set (procs f) \<union> started es \<subseteq> set (procs f') \<union> signalled es"
  unfolding keeps_def by blast

lemma keeps_return [keeps_intros]: "keeps (act_return x)"
  by (simp add: keeps_def act_return_def)

lemma keeps_lift [keeps_intros]: "keeps (act_lift r)"
  by (simp add: keeps_def act_lift_def)

lemma keeps_bind [keeps_intros]:
  assumes "keeps m" "\<And>x. keeps (k x)"
  shows "keeps (act_bind m k)"
  unfolding keeps_def
proof (intro allI impI)
  fix f es f' r
  assume h: "act_bind m k f = (es, f', r)"
  obtain es1 f1 r1 where m: "m f = (es1, f1, r1)" by (cases "m f")
  show "set (procs f) \<union> started es \<subseteq> set (procs f') \<union> signalled es"
  proof (cases r1)
    case (Inl e)
    with h m keepsD [OF assms(1) m] show ?thesis by (simp add: act_bind_def)
  next
    case (Inr x)
    obtain es2 f2 r2 where k: "k x f1 = (es2, f2, r2)" by (cases "k x f1")
    have "set (procs f) \<union> started es1 \<subseteq> set (procs f1) \<union> signalled es1"
      "set (procs f1) \<union> started es2 \<subseteq> set (procs f2) \<union> signalled es2"
      using assms m k unfolding keeps_def by blast+
    moreover have "es = es1 @ es2" "f' = f2" using h m k Inr by (simp_all add: act_bind_def)
    ultimately show ?thesis by auto
  qed
qed

lemma keeps_then [keeps_intros]: "keeps m \<Longrightarrow> keeps n \<Longrightarrow> keeps (act_then m n)"
  unfolding act_then_def by (rule keeps_bind)

lemma keeps_iter [keeps_intros]: "(\<And>x. keeps (g x)) \<Longrightarrow> keeps (act_iter g xs)"
  by (induction xs) (auto intro: keeps_intros)

lemma keeps_collect [keeps_intros]: "(\<And>x. keeps (g x)) \<Longrightarrow> keeps (act_collect g xs)"
  by (induction xs) (auto intro: keeps_intros)

lemma keeps_if [keeps_intros]: "keeps m \<Longrightarrow> keeps n \<Longrightarrow> keeps (if b then m else n)"
  by simp

lemma keeps_ask [keeps_intros]: "started evs = {} \<Longrightarrow> keeps (act_ask evs ans)"
  by (auto simp: keeps_def act_ask_def)

lemma keeps_emit [keeps_intros]: "started [ev] = {} \<Longrightarrow> keeps (act_emit ev)"
  by (auto simp: keeps_def act_emit_def)

lemma keeps_spawn [keeps_intros]: "keeps (spawn env argv)"
  by (auto simp: keeps_def spawn_def Let_def split: sum.splits)

lemma keeps_stop [keeps_intros]: "keeps (stop env p)"
  by (auto simp: keeps_def stop_def act_bind_def act_then_def act_ask_def act_return_def act_emit_def split: if_splits
      intro: in_set_remove1 [THEN iffD2])

lemma keeps_send_all [keeps_intros]: "keeps (send_all env policy a ps reqs n js)"
proof (induction js arbitrary: n)
  case Nil
  show ?case by (simp add: keeps_return)
next
  case (Cons j js)
  then show ?case
    by (fastforce simp: keeps_def Let_def split: prod.splits)
qed

lemma keeps_run_policy [keeps_intros]: "keeps (run_policy env policy a ps reqs)"
proof -
  have "keeps (act_bind (send_all env policy a ps reqs 0 order) (\<lambda>done.
        act_bind (act_lift (res_all (map (\<lambda>j. the (map_of done j)) [0..<length reqs]))) (\<lambda>rows.
        act_ask [] (\<lambda>k. Inr (rows, wall_s env k)))))" for order
    by (intro keeps_intros) simp
  then show ?thesis unfolding keeps_def run_policy_def Let_def by blast
qed

lemma keeps_option [keeps_intros]: "keeps n \<Longrightarrow> (\<And>p. keeps (k p)) \<Longrightarrow> keeps (case x of None \<Rightarrow> n | Some p \<Rightarrow> k p)"
  by (cases x) simp_all

lemma keeps_prod [keeps_intros]: "(\<And>x y. keeps (k x y)) \<Longrightarrow> keeps (case z of (x, y) \<Rightarrow> k x y)"
  by (cases z) simp

lemma keeps_measure [keeps_intros]: "keeps (measure env a gws rep ps reqs policy)"
  unfolding measure_def start_gateway_def erase_caches_def prefill_counters_def poll_ok_def
  by (intro keeps_intros) simp_all

lemma keeps_policy_loop [keeps_intros]: "keeps (policy_loop env a gws rep ps reqs res pols)"
  by (induction pols arbitrary: res) (auto intro: keeps_intros)

lemma keeps_rep_loop [keeps_intros]: "keeps (rep_loop env a gws pols res reps)"
  by (induction reps arbitrary: res) (auto simp: Let_def split: prod.splits intro!: keeps_intros)

lemma kill_all:
  assumes "\<And>k e. killed env k = Inl e \<Longrightarrow> is_OSError e"
  shows "\<exists>f'. act_iter (kill_one env) qs f = (map Kill qs, f', Inr ()) \<and> procs f' = procs f \<and> worktree f' = worktree f"
proof (induction qs arbitrary: f)
  case (Cons q qs)
  have "kill_one env q f = ([Kill q], f\<lparr>answers := Suc (answers f)\<rparr>, Inr ())"
    using assms by (auto simp: kill_one_def act_ask_def split: sum.splits)
  with Cons [of "f\<lparr>answers := Suc (answers f)\<rparr>"] show ?case by (auto simp: act_then_def act_bind_def)
qed (simp add: act_return_def)

lemma cleanup_events:
  assumes "\<And>k e. killed env k = Inl e \<Longrightarrow> is_OSError e"
  shows "\<exists>f'. cleanup env f = (map Kill (procs f)
      @ (case worktree f of None \<Rightarrow> [] | Some wt \<Rightarrow> [Run [''git'', ''-C'', root env, ''worktree'', ''remove'', ''--force'', wt]])
      @ [RmTree (tmp env)], f', Inr ())"
proof -
  obtain f' where f': "act_iter (kill_one env) (procs f) f = (map Kill (procs f), f', Inr ())" "worktree f' = worktree f"
    using kill_all [of env "procs f" f] assms by blast
  then show ?thesis
    by (simp add: cleanup_def close_def act_then_def act_bind_def act_emit_def)
qed

lemma act_finally_eq:
  "m f = (es, f1, r) \<Longrightarrow> c f1 = (es', f2, Inr ()) \<Longrightarrow> act_finally m c f = (es @ es', f2, r)"
  by (simp add: act_finally_def)

subsection \<open>Lemmas: the events of a run\<close>

named_theorems emits_intros \<open>events of an action that returns\<close>

definition emits :: "'a act \<Rightarrow> event list \<Rightarrow> bool" where
  "emits m evs \<longleftrightarrow> (\<forall>f es f' x. m f = (es, f', Inr x) \<longrightarrow> es = evs)"

lemma emitsD: "emits m evs \<Longrightarrow> m f = (es, f', Inr x) \<Longrightarrow> es = evs"
  unfolding emits_def by blast

lemma emits_return [emits_intros]: "emits (act_return x) []"
  by (simp add: emits_def act_return_def)

lemma emits_lift [emits_intros]: "emits (act_lift r) []"
  by (simp add: emits_def act_lift_def)

lemma emits_ask [emits_intros]: "emits (act_ask evs ans) evs"
  by (simp add: emits_def act_ask_def)

lemma act_bind_Inr:
  assumes "act_bind m k f = (es, f', Inr y)"
  obtains x es1 f1 es2 where "m f = (es1, f1, Inr x)" "k x f1 = (es2, f', Inr y)" "es = es1 @ es2"
  using assms unfolding act_bind_def by (cases "m f") (auto split: prod.splits sum.splits)

lemma act_then_Inr:
  assumes "act_then m n f = (es, f', Inr y)"
  obtains x es1 f1 es2 where "m f = (es1, f1, Inr x)" "n f1 = (es2, f', Inr y)" "es = es1 @ es2"
  using assms unfolding act_then_def by (rule act_bind_Inr) (rule that)

lemma emits_bind [emits_intros]:
  "emits m e1 \<Longrightarrow> (\<And>x. emits (k x) e2) \<Longrightarrow> emits (act_bind m k) (e1 @ e2)"
  unfolding emits_def [of "act_bind m k"] by (intro allI impI, erule act_bind_Inr) (metis emitsD)

lemma emits_then [emits_intros]: "emits m e1 \<Longrightarrow> emits n e2 \<Longrightarrow> emits (act_then m n) (e1 @ e2)"
  unfolding act_then_def by (rule emits_bind)

lemma emits_iter [emits_intros]: "(\<And>x. emits (g x) (ev x)) \<Longrightarrow> emits (act_iter g xs) (concat (map ev xs))"
  by (induction xs) (auto intro: emits_intros)

lemma emits_collect: "(\<And>x. emits (g x) (ev x)) \<Longrightarrow> emits (act_collect g xs) (concat (map ev xs))"
proof (induction xs)
  case (Cons x xs)
  have "emits (act_bind (g x) (\<lambda>y. act_bind (act_collect g xs) (\<lambda>ys. act_return (y # ys)))) (ev x @ concat (map ev xs) @ [])"
    using Cons by (intro emits_bind emits_return) blast+
  then show ?case by simp
qed (simp add: emits_return)

definition erase_events :: "args \<Rightarrow> event list" where
  "erase_events a = concat (map (\<lambda>i. map (Erase (WORKER_BASE_PORT + int i)) [0..<slots a]) [0..<workers a])"

definition metrics_events :: "args \<Rightarrow> event list" where
  "metrics_events a = map (\<lambda>i. Metrics (WORKER_BASE_PORT + int i)) [0..<workers a]"

definition post_event :: "string \<Rightarrow> args \<Rightarrow> string list \<Rightarrow> (nat \<times> string) list \<Rightarrow> nat \<Rightarrow> nat \<Rightarrow> event" where
  "post_event policy a ps reqs n j = (case target_of policy a n of (port, path) \<Rightarrow> Post port path (request_body a ps (reqs ! j)))"

lemma concat_single: "concat (map (\<lambda>x. [g x]) xs) = map g xs"
  by (induction xs) auto

lemma emits_erase: "emits (erase_caches env a) (erase_events a)"
proof -
  have "emits (act_iter (\<lambda>slot. act_ask [Erase p slot] (erased env)) [0..<slots a]) (map (Erase p) [0..<slots a])" for p
    using emits_iter [where ev = "\<lambda>slot. [Erase p slot]", OF emits_ask] by (simp add: concat_single)
  then show ?thesis unfolding erase_caches_def erase_events_def by (rule emits_iter)
qed

lemma emits_counters: "emits (prefill_counters env a) (metrics_events a)"
proof -
  have "emits (act_bind (act_ask [Metrics p] (metrics env)) (\<lambda>body. act_lift (prompt_total (float_of env) body))) [Metrics p]" for p
    using emits_bind [OF emits_ask emits_lift, of "[Metrics p]" "metrics env" "\<lambda>body. prompt_total (float_of env) body"] by simp
  from emits_collect [OF this, of "\<lambda>i. WORKER_BASE_PORT + int i" "[0..<workers a]"]
  show ?thesis unfolding prefill_counters_def metrics_events_def by (simp add: concat_single)
qed

lemma send_all_events:
  "\<exists>f' xs. send_all env policy a ps reqs n js f
     = (map (\<lambda>(i, j). post_event policy a ps reqs i j) (zip [n..<n + length js] js), f', Inr xs)
   \<and> map fst xs = js"
proof (induction js arbitrary: n f)
  case (Cons j js)
  have "[n..<n + length (j # js)] = n # [Suc n..<Suc n + length js]" by (simp add: upt_rec)
  with Cons [of "Suc n" "f\<lparr>answers := Suc (answers f)\<rparr>"] show ?case
    by (auto simp: Let_def post_event_def split: prod.splits)
qed (simp add: act_return_def)

lemma run_policy_events:
  assumes "run_policy env policy a ps reqs f = (es, f', r)"
  shows "es = map (\<lambda>(i, j). post_event policy a ps reqs i j)
           (zip [0..<length (turns env (answers f))] (turns env (answers f)))"
proof -
  let ?js = "turns env (answers f)"
  obtain f1 xs where s: "send_all env policy a ps reqs 0 ?js f
      = (map (\<lambda>(i, j). post_event policy a ps reqs i j) (zip [0..<length ?js] ?js), f1, Inr xs)"
    using send_all_events [of env policy a ps reqs 0 ?js f] by auto
  show ?thesis using assms unfolding run_policy_def Let_def
    by (auto simp: act_bind_def s act_lift_def act_ask_def split: sum.splits)
qed

lemma stop_events: "stop env p f = (es, f', r) \<Longrightarrow> set es \<subseteq> {Term p, Kill p}"
  by (auto simp: stop_def act_bind_def act_then_def act_ask_def act_return_def act_emit_def split: if_splits)

lemma start_gateway_events:
  "start_gateway env a b ro f = (es, f', r) \<Longrightarrow>
   set es \<subseteq> {WriteConfig (config_path env) (config_json a ro), Popen (spawned f) [b], Poll GATEWAY_PORT ''/health''}"
  by (auto simp: start_gateway_def act_bind_def act_then_def act_ask_def act_return_def act_emit_def act_lift_def spawn_def
      poll_ok_def Let_def split: if_splits sum.splits option.splits prod.splits)

fun is_post :: "event \<Rightarrow> bool" where
  "is_post (Post _ _ _) = True"
| "is_post _ = False"

fun post_body :: "event \<Rightarrow> json" where
  "post_body (Post _ _ b) = b"
| "post_body _ = JNull"

fun post_port :: "event \<Rightarrow> int" where
  "post_port (Post p _ _) = p"
| "post_port _ = 0"

lemma post_event_simps [simp]:
  "is_post (post_event policy a ps reqs n j)"
  "post_body (post_event policy a ps reqs n j) = request_body a ps (reqs ! j)"
  "post_port (post_event policy a ps reqs n j) = fst (target_of policy a n)"
  by (simp_all add: post_event_def split: prod.splits)

lemma map_snd_zip_upt: "map (\<lambda>(i, j). g j) (zip [0..<length js] js) = map g js"
  by (rule nth_equalityI) simp_all

lemma map_fst_zip_upt: "map (\<lambda>(i, j). g i) (zip [0..<length js] js) = map g [0..<length js]"
  by (rule nth_equalityI) simp_all

lemma bodies_of_posts:
  assumes "mset js = mset [0..<length reqs]"
  shows "mset (map post_body (map (\<lambda>(i, j). post_event policy a ps reqs i j) (zip [0..<length js] js)))
       = mset (map (request_body a ps) reqs)"
proof -
  have "map post_body (map (\<lambda>(i, j). post_event policy a ps reqs i j) (zip [0..<length js] js))
      = map (\<lambda>j. request_body a ps (reqs ! j)) js"
    using map_snd_zip_upt [of "\<lambda>j. request_body a ps (reqs ! j)" js] by (simp add: case_prod_beta' o_def)
  then have "mset (map post_body (map (\<lambda>(i, j). post_event policy a ps reqs i j) (zip [0..<length js] js)))
      = image_mset (\<lambda>j. request_body a ps (reqs ! j)) (mset [0..<length reqs])"
    using assms by simp
  also have "\<dots> = mset (map (request_body a ps) (map (\<lambda>j. reqs ! j) [0..<length reqs]))" by (simp add: o_def)
  finally show ?thesis by (simp only: map_nth)
qed

lemma count_mod:
  assumes "w < W"
  shows "length (filter (\<lambda>n. n mod W = w) [0..<N]) = N div W + (if w < N mod W then 1 else 0)"
proof (induction N)
  case (Suc N)
  have W: "0 < W" using assms by simp
  have "Suc N div W = (if Suc (N mod W) = W then Suc (N div W) else N div W)"
    "Suc N mod W = (if Suc (N mod W) = W then 0 else Suc (N mod W))"
    using W by (simp_all add: div_Suc mod_Suc)
  moreover have "N mod W < W" using W by simp
  ultimately show ?case using Suc assms by (auto split: if_splits)
qed simp

text \<open>What is known of the events of an action that returns, composed along its steps.\<close>

definition shape :: "'a act \<Rightarrow> (event list \<Rightarrow> bool) \<Rightarrow> bool" where
  "shape m P \<longleftrightarrow> (\<forall>f es f' x. m f = (es, f', Inr x) \<longrightarrow> P es)"

definition seq :: "(event list \<Rightarrow> bool) \<Rightarrow> (event list \<Rightarrow> bool) \<Rightarrow> event list \<Rightarrow> bool" where
  "seq P Q es \<longleftrightarrow> (\<exists>e1 e2. es = e1 @ e2 \<and> P e1 \<and> Q e2)"

definition no_post :: "event list \<Rightarrow> bool" where
  "no_post es \<longleftrightarrow> \<not> list_ex is_post es"

lemma shapeD: "shape m P \<Longrightarrow> m f = (es, f', Inr x) \<Longrightarrow> P es"
  unfolding shape_def by blast

lemma shape_emits: "emits m evs \<Longrightarrow> shape m (\<lambda>e. e = evs)"
  by (simp add: shape_def emits_def)

lemma shape_bind: "shape m P \<Longrightarrow> (\<And>x. shape (k x) Q) \<Longrightarrow> shape (act_bind m k) (seq P Q)"
  unfolding shape_def [of "act_bind m k"] seq_def by (intro allI impI, erule act_bind_Inr) (metis shapeD)

lemma shape_then: "shape m P \<Longrightarrow> shape n Q \<Longrightarrow> shape (act_then m n) (seq P Q)"
  unfolding act_then_def by (rule shape_bind)

lemma shape_prod: "(\<And>x y. shape (k x y) P) \<Longrightarrow> shape (case z of (x, y) \<Rightarrow> k x y) P"
  by (cases z) simp

lemma seq_no_post: "seq no_post no_post es \<Longrightarrow> no_post es"
  by (auto simp: seq_def no_post_def)

lemma shape_mono: "shape m P \<Longrightarrow> (\<And>es. P es \<Longrightarrow> Q es) \<Longrightarrow> shape m Q"
  by (auto simp: shape_def)

lemma no_post_bind: "shape m no_post \<Longrightarrow> (\<And>x. shape (k x) no_post) \<Longrightarrow> shape (act_bind m k) no_post"
  by (rule shape_mono [OF shape_bind]) (auto intro: seq_no_post)

lemma no_post_then: "shape m no_post \<Longrightarrow> shape n no_post \<Longrightarrow> shape (act_then m n) no_post"
  unfolding act_then_def by (rule no_post_bind)

lemma no_post_basic: "shape (act_return y) no_post" "shape (act_lift r) no_post" "shape (act_emit (WriteCsv p)) no_post"
  by (simp_all add: shape_def act_return_def act_lift_def act_emit_def no_post_def)

lemma shape_gateway:
  "shape (if policy \<noteq> ''roundrobin'' then act_bind (start_gateway env a b ro) (\<lambda>p. act_return (Some p)) else act_return None) no_post"
proof -
  have "shape (start_gateway env a b ro) no_post"
    unfolding shape_def by (fastforce simp: no_post_def list_ex_iff dest!: start_gateway_events)
  then show ?thesis by (auto intro: no_post_bind no_post_basic)
qed

lemma shape_run_policy:
  assumes "\<And>k. mset (turns env k) = mset [0..<length reqs]"
  shows "shape (run_policy env policy a ps reqs)
     (\<lambda>e. list_all is_post e \<and> mset (map post_body e) = mset (map (request_body a ps) reqs))"
  unfolding shape_def
proof (intro allI impI)
  fix f es f' x
  assume "run_policy env policy a ps reqs f = (es, f', Inr x)"
  from run_policy_events [OF this] bodies_of_posts [OF assms, of policy a ps "answers f"]
  show "list_all is_post es \<and> mset (map post_body es) = mset (map (request_body a ps) reqs)"
    by (auto simp: list_all_iff)
qed

lemma shape_rest:
  "shape (act_bind (act_lift r) (\<lambda>s. act_then (act_emit (WriteCsv p))
     (act_then (case gw of None \<Rightarrow> act_return () | Some q \<Rightarrow> stop env q) (act_return (s\<lparr>share := sh\<rparr>))))) no_post"
proof -
  have "shape (stop env q) no_post" for q
    unfolding shape_def by (fastforce simp: no_post_def list_ex_iff dest!: stop_events)
  then show ?thesis
    by (intro no_post_bind no_post_then no_post_basic) (auto intro: no_post_basic split: option.splits)
qed

interpretation pct: rank_statistic "pct_rank q" for q
  by unfold_locales (auto simp: pct_rank_def)

lemma takeWhile_digits_show: "\<not> py_isdigit c \<Longrightarrow> takeWhile py_isdigit (show_nat n @ c # rest) = show_nat n"
  by (subst takeWhile_append2) (auto dest: show_nat_digits)

lemma schema_prompt_inject:
  assumes "schema_prompt i = schema_prompt j"
  shows "i = j"
proof -
  have table: "\<exists>rest. schema_table k 0 = ''CREATE TABLE department'' @ show_nat k @ ''_'' @ rest" for k
    by (simp add: schema_table_def Let_def)
  have "[0..<12] = 0 # [1..<12::nat]" by (simp add: upt_rec)
  then have "\<exists>rest. join_with [CHR 0x0A] (map (schema_table k) [0..<12]) = ''CREATE TABLE department'' @ show_nat k @ ''_'' @ rest" for k
    using table [of k] by (auto simp: join_with_def)
  then obtain r where r: "\<And>k. join_with [CHR 0x0A] (map (schema_table k) [0..<12]) = ''CREATE TABLE department'' @ show_nat k @ ''_'' @ r k"
    by metis
  have "show_nat i @ ''_'' @ r i = show_nat j @ ''_'' @ r j"
    using assms unfolding schema_prompt_def r by simp
  then have "takeWhile py_isdigit (show_nat i @ CHR ''_'' # r i) = takeWhile py_isdigit (show_nat j @ CHR ''_'' # r j)" by simp
  moreover have "\<not> py_isdigit (CHR ''_'')" by (simp add: py_isdigit_def)
  ultimately have "show_nat i = show_nat j" by (metis takeWhile_digits_show)
  then show ?thesis by (rule show_nat_inject)
qed

lemma ticks_bound:
  fixes clock :: "nat \<Rightarrow> real"
  assumes "clock 0 \<le> clock 1" "\<And>k. clock (Suc k) + 1 / 2 \<le> clock (Suc (Suc k))"
  shows "clock 0 + real k / 2 \<le> clock (Suc k)"
proof (induction k)
  case (Suc k)
  with assms(2) [of k] show ?case by (simp add: field_simps)
qed (use assms(1) in simp)

lemma wait_loop_ends:
  assumes "t_end \<le> clock (Suc (k + fuel))"
  shows "\<exists>r. wait_loop (Suc fuel) clock resp t_end k = Some r"
  using assms
proof (induction fuel arbitrary: k)
  case (Suc fuel)
  then have "\<exists>r. wait_loop (Suc fuel) clock resp t_end (Suc k) = Some r" by simp
  then show ?case by (simp split: sum.splits)
qed (simp split: sum.splits)

text \<open>An attempt that lets the loop go on: another status, or an \<^verbatim>\<open>OSError\<close>.\<close>

definition retried :: "int res \<Rightarrow> bool" where
  "retried r = (case r of Inr st \<Rightarrow> st \<noteq> 200 | Inl e \<Rightarrow> is_OSError e)"

lemma wait_loop_true:
  "wait_loop fuel clock resp t_end k = Some (Inr True) \<Longrightarrow>
   \<exists>n \<ge> k. clock (Suc n) < t_end \<and> resp n = Inr 200 \<and> (\<forall>j. k \<le> j \<and> j < n \<longrightarrow> retried (resp j))"
proof (induction fuel arbitrary: k)
  case (Suc fuel)
  show ?case
  proof (cases "retried (resp k)")
    case True
    then have "wait_loop fuel clock resp t_end (Suc k) = Some (Inr True)"
      using Suc.prems by (auto simp: retried_def split: if_splits sum.splits)
    from Suc.IH [OF this] obtain n where "n \<ge> Suc k" "clock (Suc n) < t_end" "resp n = Inr 200"
      "\<forall>j. Suc k \<le> j \<and> j < n \<longrightarrow> retried (resp j)" by blast
    then show ?thesis using True by (intro exI [of _ n]) (metis Suc_leD Suc_leI le_neq_implies_less)
  next
    case False
    then show ?thesis using Suc.prems by (intro exI [of _ k]) (auto simp: retried_def split: if_splits sum.splits)
  qed
qed simp

subsection \<open>Properties\<close>

text \<open>C1. No process outlives the benchmark: whatever fails on the way (a build, a worker that stays unhealthy, a gateway that does
  not start, a malformed answer), every process that was started has been sent SIGTERM or SIGKILL by the time \<^verbatim>\<open>main\<close> ends,
  provided the kills themselves fail with \<^verbatim>\<open>OSError\<close> only.\<close>

theorem run_real_no_leak:
  assumes "\<And>k e. killed env k = Inl e \<Longrightarrow> is_OSError e" "run_real_main env a = (es, f, r)" "Popen p argv \<in> set es"
  shows "Term p \<in> set es \<or> Kill p \<in> set es"
proof -
  let ?pols = "split_on (CHR '','') (policies a)"
  let ?body = "act_bind (build_gateways env) (\<lambda>(original, upgraded, wt).
            act_then (\<lambda>f. ([], f\<lparr>worktree := Some wt\<rparr>, Inr ()))
           (act_then (start_workers env a)
           (act_then (warm_workers env a)
              (rep_loop env a (original, upgraded) ?pols (map (\<lambda>p. (p, [])) (rev (remdups (rev ?pols)))) [0..<repeats a]))))"
  obtain es1 f1 r1 where b: "?body fleet0 = (es1, f1, r1)" by (cases "?body fleet0")
  have set_wt: "keeps (\<lambda>f. ([], f\<lparr>worktree := Some wt\<rparr>, Inr ()))" for wt by (simp add: keeps_def)
  have "keeps ?body"
    unfolding build_gateways_def start_workers_def warm_workers_def post_json_def poll_ok_def Let_def
    by (intro keeps_intros set_wt) simp_all
  from keepsD [OF this b] have k: "started es1 \<subseteq> set (procs f1) \<union> signalled es1" by simp
  obtain es2 f2 where c: "cleanup env f1 = (es2, f2, Inr ())" "\<forall>q \<in> set (procs f1). Kill q \<in> set es2" "started es2 = {}"
    using cleanup_events [of env f1] assms(1) by (fastforce simp: started_def split: option.splits)
  have "run_experiment env a fleet0 = (es1 @ es2, f2, r1)"
    unfolding run_experiment_def Let_def by (rule act_finally_eq) (rule b, rule c(1))
  then have es: "es = es1 @ es2"
    using assms(2) by (auto simp: run_real_main_def act_bind_def act_lift_def split: sum.splits)
  with assms(3) c(3) have "p \<in> started es1" by (auto simp: started_def)
  with k c(2) show ?thesis unfolding es signalled_def by auto
qed

definition idle_env :: engine_env where
  "idle_env =
     \<lparr>cmd = (\<lambda>k. Inr ()), popen = (\<lambda>k. if k = 3 then Inr () else Inl FileNotFoundErr), poll = (\<lambda>k. (\<lambda>n. real n, \<lambda>n. Inr 503)), post = (\<lambda>k. Inl OSErr),
      post_ms = (\<lambda>k. 1), erased = (\<lambda>k. Inr ()), metrics = (\<lambda>k. Inr []), float_of = (\<lambda>s. Inr 0), exits = (\<lambda>k. True),
      killed = (\<lambda>k. Inr ()), draws = (\<lambda>s n. (0, 0, 0)), shuffles = (\<lambda>s xs. xs), turns = (\<lambda>k. []), wall_s = (\<lambda>k. 1),
      tmp = ''/tmp/rg'', root = ''/repo''\<rparr>"

text \<open>In this environment the second worker cannot be started.\<close>

lemma idle_run:
  "\<exists>f. run_real_main idle_env (default_args ''m.gguf'' ''out'') =
     ([Run [''go'', ''build'', ''-o'', ''/tmp/rg/gateway-upgraded'', ''.''],
       Run [''git'', ''-C'', ''/repo'', ''worktree'', ''add'', ''--detach'', ''/tmp/rg/orig'', ''upstream-snapshot''],
       Run [''go'', ''build'', ''-o'', ''/tmp/rg/gateway-original'', ''.''],
       MkDir ''/tmp/rg/slots0'', Popen 0 (worker_argv idle_env (default_args ''m.gguf'' ''out'') 0), MkDir ''/tmp/rg/slots1'', Kill 0,
       Run [''git'', ''-C'', ''/repo'', ''worktree'', ''remove'', ''--force'', ''/tmp/rg/orig''], RmTree ''/tmp/rg''],
      f, Inl FileNotFoundErr)"
proof -
  have three: "[0..<3] = [0, 1, 2::nat]" by (simp add: upt_rec)
  have sh: "show_nat 0 = ''0''" "show_nat (Suc 0) = ''1''" by code_simp+
  show ?thesis
    by (simp add: run_real_main_def run_experiment_def act_bind_def act_finally_def build_gateways_def act_then_def act_ask_def
        act_return_def act_emit_def start_workers_def spawn_def default_args_def idle_env_def fleet0_def three cleanup_def close_def
        kill_one_def path_join_def startswith_def sh Let_def)
qed

theorem run_real_no_leak_witness:
  "\<exists>es f r. run_real_main idle_env (default_args ''m.gguf'' ''out'') = (es, f, r) \<and> (Term 0 \<in> set es \<or> Kill 0 \<in> set es)"
proof -
  obtain es f where r: "run_real_main idle_env (default_args ''m.gguf'' ''out'') = (es, f, Inl FileNotFoundErr)"
    "Popen 0 (worker_argv idle_env (default_args ''m.gguf'' ''out'') 0) \<in> set es"
    using idle_run by fastforce
  have "Term 0 \<in> set es \<or> Kill 0 \<in> set es"
    by (rule run_real_no_leak [OF _ r]) (simp add: idle_env_def)
  with r(1) show ?thesis by blast
qed

text \<open>C39. A failing build of the original gateway leaks its git worktree: the worktree was added, but \<^verbatim>\<open>main\<close> only learns its path
  when \<^verbatim>\<open>build_gateways\<close> returns, so the \<^verbatim>\<open>finally\<close> block does not remove it.\<close>

theorem run_real_worktree_leak:
  assumes "cmd env 0 = Inr ()" "cmd env 1 = Inr ()" "cmd env 2 = Inl e"
  shows "\<exists>es f. run_real_main env a = (es, f, Inl e)
     \<and> Run [''git'', ''-C'', root env, ''worktree'', ''add'', ''--detach'', path_join (tmp env) ''orig'', ''upstream-snapshot''] \<in> set es
     \<and> (\<forall>wt. Run [''git'', ''-C'', root env, ''worktree'', ''remove'', ''--force'', wt] \<notin> set es)"
  using assms
  by (simp add: run_real_main_def run_experiment_def act_bind_def act_finally_def build_gateways_def act_then_def act_ask_def
      act_return_def act_emit_def fleet0_def cleanup_def close_def Let_def numeral_2_eq_2)

definition no_original_env :: engine_env where
  "no_original_env = idle_env\<lparr>cmd := (\<lambda>k. if k = 2 then Inl (RuntimeErr ''CalledProcessError'') else Inr ())\<rparr>"

theorem run_real_worktree_leak_witness:
  "\<exists>es f. run_real_main no_original_env (default_args ''m.gguf'' ''out'') = (es, f, Inl (RuntimeErr ''CalledProcessError''))
     \<and> Run [''git'', ''-C'', root no_original_env, ''worktree'', ''add'', ''--detach'', path_join (tmp no_original_env) ''orig'',
         ''upstream-snapshot''] \<in> set es
     \<and> (\<forall>wt. Run [''git'', ''-C'', root no_original_env, ''worktree'', ''remove'', ''--force'', wt] \<notin> set es)"
  by (rule run_real_worktree_leak) (simp_all add: no_original_env_def)

text \<open>C7. Every measured run starts cold and measures exactly its workload: in the events of a run that returns, the erasure of
  every slot of every worker and then the counters come before the first request, the requests are those of the workload, each
  sent exactly once in whatever order the threads run, and the counters are read again after the last; no request is sent
  before or after.\<close>

theorem measured_run_events:
  assumes "measure env a gws rep ps reqs policy f = (es, f', Inr s)" "\<And>k. mset (turns env k) = mset [0..<length reqs]"
  shows "\<exists>pre posts rest. es = pre @ erase_events a @ metrics_events a @ posts @ metrics_events a @ rest
     \<and> list_all is_post posts \<and> mset (map post_body posts) = mset (map (request_body a ps) reqs)
     \<and> \<not> list_ex is_post pre \<and> \<not> list_ex is_post rest"
proof -
  have "shape (measure env a gws rep ps reqs policy) (seq no_post (seq (\<lambda>e. e = erase_events a) (seq (\<lambda>e. e = metrics_events a)
      (seq (\<lambda>e. list_all is_post e \<and> mset (map post_body e) = mset (map (request_body a ps) reqs))
      (seq (\<lambda>e. e = metrics_events a) no_post)))))"
    unfolding measure_def
    by (intro shape_bind shape_then shape_gateway shape_emits [OF emits_erase] shape_emits [OF emits_counters]
        shape_run_policy [OF assms(2)] shape_prod shape_bind shape_rest)
  from shapeD [OF this assms(1)] obtain e1 e4 e6 where
    "es = e1 @ erase_events a @ metrics_events a @ e4 @ metrics_events a @ e6" "no_post e1" "list_all is_post e4"
    "mset (map post_body e4) = mset (map (request_body a ps) reqs)" "no_post e6"
    unfolding seq_def by blast
  then show ?thesis unfolding no_post_def by blast
qed

definition tiny_env :: engine_env where
  "tiny_env = idle_env\<lparr>turns := (\<lambda>k. [0]), metrics := (\<lambda>k. Inr ''llamacpp:prompt_tokens_total 5'')\<rparr>"

definition tiny_args :: args where
  "tiny_args = (default_args ''m.gguf'' ''out'')\<lparr>workers := 1, slots := 1, prompts := 1, per_prompt := 1\<rparr>"

lemma tiny_run:
  "\<exists>es f' s. measure tiny_env tiny_args (''o'', ''u'') 0 [''sys''] [(0, ''q'')] ''roundrobin'' fleet0 = (es, f', Inr s)"
proof -
  have m: "prompt_total (float_of tiny_env) ''llamacpp:prompt_tokens_total 5'' = Inr 0"
  proof -
    have "splitlines ''llamacpp:prompt_tokens_total 5'' = [''llamacpp:prompt_tokens_total 5'']" by code_simp
    then show ?thesis by (simp add: prompt_total_def tiny_env_def idle_env_def startswith_def)
  qed
  have e: "metrics tiny_env = (\<lambda>k. Inr ''llamacpp:prompt_tokens_total 5'')" "turns tiny_env = (\<lambda>k. [0])"
    "post tiny_env = (\<lambda>k. Inl OSErr)" "erased tiny_env = (\<lambda>k. Inr ())" "workers tiny_args = 1" "slots tiny_args = 1"
    by (simp_all add: tiny_env_def idle_env_def tiny_args_def)
  show ?thesis
    by (simp add: measure_def act_bind_def act_then_def act_return_def act_lift_def act_ask_def act_emit_def erase_caches_def
        prefill_counters_def run_policy_def target_of_def one_def summarize_def sum_field_def Let_def e m)
qed

theorem measured_run_events_witness:
  "\<exists>es f' s pre posts rest. measure tiny_env tiny_args (''o'', ''u'') 0 [''sys''] [(0, ''q'')] ''roundrobin'' fleet0 = (es, f', Inr s)
     \<and> es = pre @ erase_events tiny_args @ metrics_events tiny_args @ posts @ metrics_events tiny_args @ rest
     \<and> list_all is_post posts \<and> mset (map post_body posts) = mset (map (request_body tiny_args [''sys'']) [(0, ''q'')])
     \<and> \<not> list_ex is_post pre \<and> \<not> list_ex is_post rest"
proof -
  obtain es f' s where r: "measure tiny_env tiny_args (''o'', ''u'') 0 [''sys''] [(0, ''q'')] ''roundrobin'' fleet0 = (es, f', Inr s)"
    using tiny_run by blast
  from measured_run_events [OF r] show ?thesis using r by (simp add: tiny_env_def)
qed

text \<open>The round-robin baseline is balanced whatever the threads do: the number of requests of a run that go to worker \<open>w\<close> is the
  exact share \<open>N div W\<close>, plus one for the first \<open>N mod W\<close> workers.\<close>

theorem roundrobin_balanced:
  assumes "run_policy env ''roundrobin'' a ps reqs f = (es, f', r)" "\<And>k. mset (turns env k) = mset [0..<length reqs]"
    "w < workers a"
  shows "length (filter (\<lambda>ev. post_port ev = WORKER_BASE_PORT + int w) es)
       = length reqs div workers a + (if w < length reqs mod workers a then 1 else 0)"
proof -
  let ?js = "turns env (answers f)"
  have len: "length ?js = length reqs" using mset_eq_length [OF assms(2)] by simp
  have f: "filter (\<lambda>ev. post_port ev = WORKER_BASE_PORT + int w) es
      = map (\<lambda>(i, j). post_event ''roundrobin'' a ps reqs i j)
          (filter (\<lambda>(i, j). i mod workers a = w) (zip [0..<length ?js] ?js))"
    unfolding run_policy_events [OF assms(1)] filter_map
    by (auto simp: o_def target_of_def case_prod_beta' intro!: filter_cong)
  have "length (filter (\<lambda>ev. post_port ev = WORKER_BASE_PORT + int w) es)
      = length (filter (\<lambda>i. i mod workers a = w) (map fst (zip [0..<length ?js] ?js)))"
    unfolding f filter_map by (simp only: length_map o_def case_prod_beta')
  also have "\<dots> = length (filter (\<lambda>i. i mod workers a = w) [0..<length reqs])" by (simp add: len)
  finally show ?thesis using count_mod [OF assms(3)] by simp
qed

theorem roundrobin_balanced_witness:
  "\<exists>es f' r. run_policy tiny_env ''roundrobin'' tiny_args [''sys''] [(0, ''q'')] fleet0 = (es, f', r)
     \<and> length (filter (\<lambda>ev. post_port ev = WORKER_BASE_PORT + int 0) es) = 1"
proof -
  obtain es f' r where "run_policy tiny_env ''roundrobin'' tiny_args [''sys''] [(0, ''q'')] fleet0 = (es, f', r)"
    by (cases "run_policy tiny_env ''roundrobin'' tiny_args [''sys''] [(0, ''q'')] fleet0")
  with roundrobin_balanced [OF this, of 0] show ?thesis by (simp add: tiny_env_def tiny_args_def)
qed



text \<open>The workload is balanced and its prefixes are distinct: each of the \<open>prompts\<close> system prompts is used by exactly
  \<open>per_prompt\<close> requests, in any shuffled order, and different prompt numbers give different prompts.\<close>

theorem workload_balanced:
  assumes "\<And>xs. mset (shuffle xs) = mset xs" "p < prompts a"
  shows "length (filter (\<lambda>(pid, q). pid = p) (snd (workload a draw shuffle))) = per_prompt a
    \<and> distinct (fst (workload a draw shuffle)) \<and> length (snd (workload a draw shuffle)) = prompts a * per_prompt a"
proof (intro conjI)
  let ?reqs = "map (\<lambda>n. let pid = n mod prompts a in (pid, workload_question draw pid n)) [0..<prompts a * per_prompt a]"
  have w: "workload a draw shuffle = (map schema_prompt [0..<prompts a], shuffle ?reqs)"
    by (simp add: workload_def Let_def)
  have "length (filter (\<lambda>(pid, q). pid = p) (shuffle ?reqs)) = length (filter (\<lambda>(pid, q). pid = p) ?reqs)"
    by (rule mset_eq_filter_length [OF assms(1)])
  also have "\<dots> = length (filter (\<lambda>n. n mod prompts a = p) [0..<prompts a * per_prompt a])"
    by (simp add: filter_map o_def Let_def)
  also have "\<dots> = per_prompt a" using count_mod [OF assms(2)] assms(2) by simp
  finally show "length (filter (\<lambda>(pid, q). pid = p) (snd (workload a draw shuffle))) = per_prompt a" by (simp add: w)
  show "distinct (fst (workload a draw shuffle))"
    by (auto simp: w distinct_map inj_on_def dest: schema_prompt_inject)
  show "length (snd (workload a draw shuffle)) = prompts a * per_prompt a"
    using mset_eq_length [OF assms(1), of ?reqs] by (simp add: w)
qed

theorem workload_balanced_witness:
  "length (filter (\<lambda>(pid, q). pid = 5) (snd (workload (default_args ''m'' ''o'') (\<lambda>n. (n, n, n)) rev))) = 20"
  using workload_balanced [of rev 5 "default_args ''m'' ''o''" "\<lambda>n. (n, n, n)"] by (simp add: default_args_def)

text \<open>A percentile of a run is one of its samples, at least the requested fraction of the samples do not exceed it, and
  it does not depend on the order in which the rows arrive.\<close>

theorem pct_is_percentile:
  assumes "xs \<noteq> []" "0 \<le> q" "q \<le> 1" "mset ys = mset xs"
  shows "\<exists>v \<in> set xs. pct xs q = Some v \<and> pct ys q = Some v \<and> q * real (length xs) \<le> real (length (filter (\<lambda>x. x \<le> v) xs))"
proof -
  let ?n = "length xs"
  have n: "0 < ?n" using assms(1) by simp
  have ne: "ys \<noteq> []" using assms(1,4) by auto
  have floor: "real_of_int \<lfloor>q * real ?n\<rfloor> \<le> q * real ?n" "q * real ?n < real_of_int \<lfloor>q * real ?n\<rfloor> + 1" by linarith+
  have "q * real ?n \<le> real (Suc (pct_rank q ?n))"
  proof (cases "nat \<lfloor>q * real ?n\<rfloor> \<le> ?n - 1")
    case True
    have "0 \<le> q * real ?n" using assms(2) by simp
    then have "real (nat \<lfloor>q * real ?n\<rfloor>) = real_of_int \<lfloor>q * real ?n\<rfloor>" by simp
    moreover have "pct_rank q ?n = nat \<lfloor>q * real ?n\<rfloor>" using True by (simp add: pct_rank_def)
    ultimately show ?thesis using floor(2) by linarith
  next
    case False
    then have "pct_rank q ?n = ?n - 1" by (simp add: pct_rank_def)
    moreover have "q * real ?n \<le> real ?n" using assms(3) n by (simp add: mult_left_le_one_le)
    ultimately show ?thesis using n by simp
  qed
  also have "\<dots> \<le> real (length (filter (\<lambda>x. x \<le> sort xs ! pct_rank q ?n) xs))"
    using pct.picked_count_le [OF assms(1), of q] by (simp only: of_nat_le_iff)
  finally show ?thesis
    using pct.picked_in_sample [OF assms(1), of q] pct.picked_perm [OF assms(4), of q] assms(1) ne by (auto simp: pct_def)
qed

theorem pct_is_percentile_witness:
  "\<exists>v \<in> set [3, 1, 2]. pct [3, 1, 2] 0.95 = Some v \<and> pct [1, 2, 3] 0.95 = Some v
     \<and> 0.95 * real (length [3, 1, 2 :: real]) \<le> real (length (filter (\<lambda>x. x \<le> v) [3, 1, 2]))"
  by (rule pct_is_percentile) simp_all

text \<open>The usage numbers of the successful rows are \<open>ts\<close>.\<close>

definition counted :: "row list \<Rightarrow> (real \<times> real \<times> real) list \<Rightarrow> bool" where
  "counted rows ts \<longleftrightarrow>
     map (\<lambda>r. json_num (prompt r)) (filter is_ok rows) = map (\<lambda>(p, c, m). Inr p) ts
     \<and> map (\<lambda>r. json_num (cached r)) (filter is_ok rows) = map (\<lambda>(p, c, m). Inr c) ts
     \<and> map (\<lambda>r. json_num (prefill_ms r)) (filter is_ok rows) = map (\<lambda>(p, c, m). Inr m) ts"

lemma res_all_Inr: "res_all (map (\<lambda>x. Inr (g x)) xs) = Inr (map g xs)"
  by (induction xs) auto

text \<open>The summary of a run is sane: it counts every row, the cache-hit fraction lies between 0 and 1 whenever no row claims more
  cached than prompt tokens, and it is exactly the ratio of the two sums.\<close>

theorem summarize_sane:
  assumes "counted rows ts" "\<And>p c m. (p, c, m) \<in> set ts \<Longrightarrow> 0 \<le> c \<and> c \<le> p"
  shows "\<exists>s. summarize rows wall = Inr s \<and> requests s = length rows \<and> ok s = length ts \<and> ok s \<le> requests s
    \<and> 0 \<le> cache_hit s \<and> cache_hit s \<le> 1
    \<and> cache_hit s * sum_list (map fst ts) = sum_list (map (\<lambda>(p, c, m). c) ts)"
proof -
  let ?p = "sum_list (map fst ts)" and ?c = "sum_list (map (\<lambda>(p, c, m). c) ts)"
  have len: "length (filter is_ok rows) = length ts" using assms(1) unfolding counted_def by (metis length_map)
  have sums: "sum_field prompt (filter is_ok rows) = Inr ?p" "sum_field cached (filter is_ok rows) = Inr ?c"
    "\<exists>ms. res_all (map (\<lambda>r. json_num (prefill_ms r)) (filter is_ok rows)) = Inr ms"
    using assms(1) by (simp_all add: sum_field_def counted_def case_prod_beta' res_all_Inr)
  have c: "0 \<le> ?c" "?c \<le> ?p"
    using assms(2) by (auto intro!: sum_list_nonneg sum_list_mono simp: case_prod_beta')
  then have "0 \<le> (if ?p \<noteq> 0 then ?c / ?p else 0)" "(if ?p \<noteq> 0 then ?c / ?p else 0) \<le> 1"
    "(if ?p \<noteq> 0 then ?c / ?p else 0) * ?p = ?c"
    by (auto simp: divide_le_eq)
  moreover have "length ts \<le> length rows" using len length_filter_le by metis
  ultimately show ?thesis using sums by (auto simp: summarize_def Let_def len)
qed

theorem summarize_sane_witness:
  "\<exists>s. summarize [OkRow 12 ''n'' (JInt 600) (JInt 450) (JFloat 3), BadRow 9 503] 2 = Inr s
     \<and> requests s = 2 \<and> ok s = 1 \<and> ok s \<le> requests s \<and> 0 \<le> cache_hit s \<and> cache_hit s \<le> 1 \<and> cache_hit s * 600 = 450"
  using summarize_sane [of "[OkRow 12 ''n'' (JInt 600) (JInt 450) (JFloat 3), BadRow 9 503]" "[(600, 450, 3)]" 2]
  by (simp add: counted_def numeral_2_eq_2)

end
