(* ===== verification/Long_Context.thy ===== *)
theory Long_Context
  imports Sse_Client
begin

section \<open>The long-context benchmark (scripts/benchmark\_long\_context.py)\<close>

text \<open>
  Models the requests and the main loop of \<^verbatim>\<open>benchmark_long_context.py\<close> (the loop over the streamed answer is \<open>chat_stream_ttft\<close>
  of \<open>Sse_Client\<close>). The answers of the server are a \<open>lc_env\<close>, by the URL and the body of the request: request \<open>i\<close> of a context size is
  its cold request for \<open>0\<close> and a warm one for \<open>1\<close> to \<open>3\<close>.
\<close>

definition chat_non_stream_for_tokens :: "json res \<Rightarrow> (json \<times> json) io" where
  "chat_non_stream_for_tokens answer =
     io_try
       (io_lift
          (res_bind answer (\<lambda>resp.
           res_bind (py_get resp ''usage'' (JObj [])) (\<lambda>usage.
           res_bind (py_get usage ''prompt_tokens_details'' (JObj [])) (\<lambda>details.
           res_bind (py_get details ''cached_tokens'' (JInt 0)) (\<lambda>cached.
           res_bind (py_get usage ''prompt_tokens'' (JInt 0)) (\<lambda>tot.
           Inr (cached, tot))))))))
       (\<lambda>e. io_then (io_print ''Error getting token counts: {}'' [X e]) (io_return (JInt 0, JInt 0)))"

definition repeat_text :: "nat \<Rightarrow> string \<Rightarrow> string" where
  "repeat_text n s = concat (replicate n s)"

definition context_map :: "string \<Rightarrow> (string \<times> string) list" where
  "context_map base_text =
     [(''2K'', repeat_text 40 base_text), (''4K'', repeat_text 80 base_text), (''8K'', repeat_text 150 base_text)]"

definition ctx_unique :: "string \<Rightarrow> string \<Rightarrow> string \<Rightarrow> string" where
  "ctx_unique lbl stamp ctx = ''Unique_Run_ID: '' @ lbl @ ''_'' @ stamp @ '' '' @ [CHR 0x0A] @ ctx"

text \<open>The two requests: where they go and what they carry.\<close>

definition lc_messages :: "string \<Rightarrow> string \<Rightarrow> json" where
  "lc_messages context_text question =
     JArr [JObj [(''role'', JStr ''system''), (''content'', JStr (''Context: '' @ context_text))],
           JObj [(''role'', JStr ''user''), (''content'', JStr question)]]"

definition lc_payload :: "string \<Rightarrow> string \<Rightarrow> bool \<Rightarrow> int \<Rightarrow> json" where
  "lc_payload context_text question stream max_tokens =
     JObj [(''model'', JStr ''NousResearch/Meta-Llama-3-8B-Instruct''), (''messages'', lc_messages context_text question),
           (''stream'', JBool stream), (''max_tokens'', JInt max_tokens)]"

definition lc_url :: "int \<Rightarrow> string" where
  "lc_url port = ''http://localhost:'' @ show_int port @ ''/v1/chat/completions''"

definition stream_request :: "string \<Rightarrow> string \<Rightarrow> int \<Rightarrow> string \<times> json" where
  "stream_request context_text question port = (lc_url port, lc_payload context_text question True 10)"

definition token_request :: "string \<Rightarrow> string \<Rightarrow> int \<Rightarrow> string \<times> json" where
  "token_request context_text question port = (lc_url port, lc_payload context_text question False 1)"

definition lc_question :: string where
  "lc_question = ''Please summarize the core mechanism.''"

record lc_env =
  stamp_of :: "string \<Rightarrow> string"
  urlopen :: "string \<times> json \<Rightarrow> nat \<Rightarrow> real \<times> raw_body res"
  usage_of :: "string \<times> json \<Rightarrow> json res"

definition ttft_request :: "lc_env \<Rightarrow> string \<Rightarrow> nat \<Rightarrow> real option io" where
  "ttft_request env ctx i = (let (t0, body) = urlopen env (stream_request ctx lc_question 30000) i in chat_stream_ttft t0 body)"

text \<open>\<^verbatim>\<open>if ttft: warm_ttft_list.append(ttft)\<close> drops both a failed request and a time of 0.\<close>

fun warm_runs :: "lc_env \<Rightarrow> string \<Rightarrow> nat list \<Rightarrow> real list io" where
  "warm_runs env ctx [] = io_return []"
| "warm_runs env ctx (i # is) =
     io_bind (ttft_request env ctx i) (\<lambda>ttft.
     io_bind (warm_runs env ctx is) (\<lambda>ts.
     io_return (case ttft of Some t \<Rightarrow> if t \<noteq> 0 then t # ts else ts | None \<Rightarrow> ts)))"

definition avg_of :: "real list \<Rightarrow> real" where
  "avg_of ts = (if ts \<noteq> [] then sum_list ts / real (length ts) else 0)"

record lc_row =
  lc_size :: string
  lc_tokens :: json
  lc_cold :: real
  lc_warm :: real
  lc_speedup :: real
  lc_hit_rate :: real

text \<open>The comparison and the division raise \<^verbatim>\<open>TypeError\<close> on what is not a number, outside every handler.\<close>

definition hit_rate_of :: "json \<Rightarrow> json \<Rightarrow> real res" where
  "hit_rate_of cached tot =
     res_bind (json_num tot) (\<lambda>n.
     if n > 0 then res_bind (json_num cached) (\<lambda>c. Inr (c / n * 100)) else Inr 0)"

definition lc_size_run :: "lc_env \<Rightarrow> string \<times> string \<Rightarrow> lc_row option io" where
  "lc_size_run env lc =
     (case lc of (lbl, ctx) \<Rightarrow>
       let ctx' = ctx_unique lbl (stamp_of env lbl) ctx
       in io_then (io_print ''\<newline>[ Testing Context Size: {} ]'' [S lbl])
         (io_then (io_print ''  Running Cold...'' [])
         (io_bind (ttft_request env ctx' 0) (\<lambda>cold.
          case cold of
            None \<Rightarrow> io_then (io_print ''  [x] Failed to get cold response, skipping.'' []) (io_return None)
          | Some cold_ttft \<Rightarrow>
              io_then (io_print ''  Running Warm (3 iterations)...'' [])
             (io_bind (warm_runs env ctx' [1, 2, 3]) (\<lambda>warm.
              io_bind (chat_non_stream_for_tokens (usage_of env (token_request ctx' lc_question 30000))) (\<lambda>(cached, tot).
              let avg_warm = avg_of warm;
                  speedup = (if avg_warm > 0 then cold_ttft / avg_warm else 0)
              in io_bind (io_lift (hit_rate_of cached tot)) (\<lambda>hit_rate.
                 io_then (io_prints
                   [Print ''  Metrics for ~{} actual tokens:'' [J tot],
                    Print ''     Cold TTFT : {:.2f} ms'' [R cold_ttft],
                    Print ''     Warm TTFT : {:.2f} ms (avg)'' [R avg_warm],
                    Print ''     Speedup   : {:.2f}x'' [R speedup],
                    Print ''     Cache Hit : {:.1f}% ({}/{})'' [R hit_rate, J cached, J tot]])
                   (io_return (Some \<lparr>lc_size = lbl, lc_tokens = tot, lc_cold = cold_ttft, lc_warm = avg_warm,
                      lc_speedup = speedup, lc_hit_rate = hit_rate\<rparr>))))))))))"

fun lc_loop :: "lc_env \<Rightarrow> (string \<times> string) list \<Rightarrow> lc_row list io" where
  "lc_loop env [] = io_return []"
| "lc_loop env (lc # lcs) =
     io_bind (lc_size_run env lc) (\<lambda>r.
     io_bind (lc_loop env lcs) (\<lambda>rows. io_return (case r of None \<Rightarrow> rows | Some row \<Rightarrow> row # rows)))"

definition lc_base_text :: string where
  "lc_base_text =
     (''The RadixAttention mechanism developed by SGLang dramatically optimizes inference in LLMs by utilizing a radix tree to '' @
      ''manage the Key-Value (KV) cache. Instead of recalculating the attention scores for identical prefixes across multiple '' @
      ''requests, the system intelligently hashes and retrieves previously computed states. This approach is highly effective '' @
      ''in Retrieval-Augmented Generation (RAG) paradigms, where the same large document or system prompt is frequently '' @
      ''prepended to varying user queries. '')"

definition lc_main :: "lc_env \<Rightarrow> unit io" where
  "lc_main env =
     io_then (say [replicate 62 (CHR ''=''), ''  RadixGates Long-Context TTFT Benchmark (Cold vs Warm)'', replicate 62 (CHR ''='')])
     (io_bind (lc_loop env (context_map lc_base_text)) (\<lambda>results_summary.
      io_then (say [''\<newline>'' @ replicate 25 (CHR ''='') @ '' SUMMARY '' @ replicate 25 (CHR ''=''),
         ''Size   | Tokens   | Cold TTFT    | Warm TTFT    | Speedup  | Hit Rate'', dashes 75])
     (io_then (io_prints (map (\<lambda>res. Print ''{:<6} | {:<8} | {:.2f} ms | {:.2f} ms | {:.2f}x | {:.1f}%''
         [S (lc_size res), J (lc_tokens res), R (lc_cold res), R (lc_warm res), R (lc_speedup res), R (lc_hit_rate res)])
         results_summary))
        (say [replicate 59 (CHR ''='')]))))"

subsection \<open>Lemmas\<close>

definition cold_ok :: "lc_env \<Rightarrow> string \<times> string \<Rightarrow> bool" where
  "cold_ok env lc = (\<exists>c. result (ttft_request env (ctx_unique (fst lc) (stamp_of env (fst lc)) (snd lc)) 0) = Inr (Some c))"

text \<open>What a row of the summary says.\<close>

definition row_ok :: "lc_row \<Rightarrow> bool" where
  "row_ok r = ((lc_warm r > 0 \<longrightarrow> lc_speedup r * lc_warm r = lc_cold r) \<and> (lc_warm r \<le> 0 \<longrightarrow> lc_speedup r = 0)
     \<and> (case lc_tokens r of JInt n \<Rightarrow> n \<le> 0 \<longrightarrow> lc_hit_rate r = 0 | _ \<Rightarrow> True))"

lemma lc_size_run_result:
  assumes "result (lc_size_run env lc) = Inr r"
  shows "(r = None \<longleftrightarrow> \<not> cold_ok env lc) \<and> (\<forall>row. r = Some row \<longrightarrow> lc_size row = fst lc \<and> row_ok row)"
proof -
  obtain lbl ctx where lc: "lc = (lbl, ctx)" by (cases lc)
  let ?c = "ctx_unique lbl (stamp_of env lbl) ctx"
  obtain cold where cold: "result (ttft_request env ?c 0) = Inr cold"
    using assms by (auto simp: lc_size_run_def lc Let_def res_bind_Inr_iff)
  show ?thesis
  proof (cases cold)
    case None
    then show ?thesis using assms cold by (auto simp: lc_size_run_def lc Let_def cold_ok_def)
  next
    case (Some x)
    then obtain w tot cached h where h: "hit_rate_of cached tot = Inr h"
      and r: "r = Some \<lparr>lc_size = lbl, lc_tokens = tot, lc_cold = x, lc_warm = avg_of w,
          lc_speedup = (if avg_of w > 0 then x / avg_of w else 0), lc_hit_rate = h\<rparr>"
      using assms cold by (auto simp: lc_size_run_def lc Let_def res_bind_Inr_iff)
    have "case tot of JInt n \<Rightarrow> n \<le> 0 \<longrightarrow> h = 0 | _ \<Rightarrow> True"
      using h by (cases tot) (auto simp: hit_rate_of_def split: if_splits)
    then show ?thesis using cold Some by (cases tot) (simp_all add: r lc cold_ok_def row_ok_def)
  qed
qed

subsection \<open>Properties\<close>


definition lc_demo :: lc_env where
  "lc_demo = \<lparr>stamp_of = (\<lambda>l. ''0''),
     urlopen = (\<lambda>ctx i. (0, Inr \<lparr>raw_lines = [(''data: x'', if i = 0 then 4 else 2)], raw_end = Finished\<rparr>)),
     usage_of = (\<lambda>ctx. Inr (JObj [(''usage'', JObj [(''prompt_tokens'', JInt 2000),
        (''prompt_tokens_details'', JObj [(''cached_tokens'', JInt 1900)])])]))\<rparr>"

lemma lc_demo_rows:
  "result (lc_loop lc_demo [(''2K'', ''t'')]) =
     Inr [\<lparr>lc_size = ''2K'', lc_tokens = JInt 2000, lc_cold = 4000, lc_warm = 2000, lc_speedup = 2, lc_hit_rate = 95\<rparr>]"
  by (simp add: lc_size_run_def ttft_request_def lc_demo_def chat_stream_ttft_def result_io_try bytes_isspace_def
      chat_non_stream_for_tokens_def hit_rate_of_def avg_of_def Let_def)


text \<open>A \<^verbatim>\<open>null\<close> in place of the cache details loses the prompt-token count as well: the chained \<^verbatim>\<open>get\<close> raises on \<^verbatim>\<open>None\<close> and the
  handler returns two zeros, whatever \<^verbatim>\<open>prompt_tokens\<close> says.\<close>

theorem token_counts_null_details:
  assumes "map_of kv ''usage'' = Some (JObj u)" "map_of u ''prompt_tokens_details'' = Some JNull"
  shows "result (chat_non_stream_for_tokens (Inr (JObj kv))) = Inr (JInt 0, JInt 0)"
  using assms by (simp add: chat_non_stream_for_tokens_def result_io_try)

theorem token_counts_null_details_witness:
  "result (chat_non_stream_for_tokens (Inr (JObj [(''usage'',
     JObj [(''prompt_tokens'', JInt 2000), (''prompt_tokens_details'', JNull)])]))) = Inr (JInt 0, JInt 0)"
  by (rule token_counts_null_details [where u = "[(''prompt_tokens'', JInt 2000), (''prompt_tokens_details'', JNull)]"]) simp_all

end
