(* ===== verification/Breaker.thy ===== *)
theory Breaker
  imports RG_Prelude "HOL-Library.Word"
begin

section \<open>The circuit breaker (gateway-go/breaker/breaker.go)\<close>

text \<open>
  Models package \<^verbatim>\<open>breaker\<close>. Every method runs under the breaker's mutex, so each is one atomic function of the breaker and of
  the clock readings it makes (nanoseconds). The generation is the \<^verbatim>\<open>uint64\<close> of the source and the doubling of the cool-down wraps
  as \<^verbatim>\<open>int64\<close> does. The callback \<^verbatim>\<open>onChange\<close> is modelled by the list of the calls made to it.
\<close>

subsection \<open>State and operations\<close>

datatype state = Closed | Open | HalfOpen

record config =
  FailureThreshold :: int
  OpenDuration :: int
  MaxOpenDuration :: int
  HalfOpenMax :: int

record ticket =
  probe :: bool
  gen :: "64 word"

record breaker =
  cfg :: config
  bstate :: state
  bgen :: "64 word"
  consecFail :: int
  openUntil :: int
  curOpen :: int
  halfInFlight :: int
  onChange :: "(state \<times> state) list"

definition clamp :: "config \<Rightarrow> config" where
  "clamp c =
     (let c = (if FailureThreshold c < 1 then c\<lparr>FailureThreshold := 1\<rparr> else c);
          c = (if HalfOpenMax c < 1 then c\<lparr>HalfOpenMax := 1\<rparr> else c);
          c = (if OpenDuration c \<le> 0 then c\<lparr>OpenDuration := 1000000000\<rparr> else c);
          c = (if MaxOpenDuration c < OpenDuration c then c\<lparr>MaxOpenDuration := OpenDuration c\<rparr> else c)
      in c)"

definition new_breaker :: "config \<Rightarrow> breaker" where
  "new_breaker c =
     \<lparr>cfg = clamp c, bstate = Closed, bgen = 0, consecFail = 0, openUntil = 0, curOpen = OpenDuration (clamp c),
      halfInFlight = 0, onChange = []\<rparr>"

definition setLocked :: "state \<Rightarrow> breaker \<Rightarrow> breaker" where
  "setLocked to b =
     (if bstate b = to then b
      else b\<lparr>bstate := to, bgen := bgen b + 1, onChange := onChange b @ [(bstate b, to)]\<rparr>)"

definition advanceLocked :: "int \<Rightarrow> breaker \<Rightarrow> breaker" where
  "advanceLocked now b =
     (if bstate b = Open \<and> \<not> now < openUntil b then setLocked HalfOpen (b\<lparr>halfInFlight := 0\<rparr>) else b)"

definition tripLocked :: "int \<Rightarrow> breaker \<Rightarrow> breaker" where
  "tripLocked now b = setLocked Open (b\<lparr>consecFail := 0, openUntil := now + curOpen b\<rparr>)"

definition State :: "int \<Rightarrow> breaker \<Rightarrow> state \<times> breaker" where
  "State now b = (let b = advanceLocked now b in (bstate b, b))"

definition Available :: "int \<Rightarrow> breaker \<Rightarrow> bool \<times> breaker" where
  "Available now b =
     (let b = advanceLocked now b
      in ((case bstate b of
             Closed \<Rightarrow> True
           | HalfOpen \<Rightarrow> halfInFlight b < HalfOpenMax (cfg b)
           | Open \<Rightarrow> False), b))"

definition Allow :: "int \<Rightarrow> breaker \<Rightarrow> ticket option \<times> breaker" where
  "Allow now b =
     (let b = advanceLocked now b
      in case bstate b of
           Closed \<Rightarrow> (Some \<lparr>probe = False, gen = bgen b\<rparr>, b)
         | HalfOpen \<Rightarrow>
             if halfInFlight b < HalfOpenMax (cfg b)
             then (Some \<lparr>probe = True, gen = bgen b\<rparr>, b\<lparr>halfInFlight := halfInFlight b + 1\<rparr>)
             else (None, b)
         | Open \<Rightarrow> (None, b))"

definition wrap64 :: "int \<Rightarrow> int" where
  "wrap64 x = sint (word_of_int x :: 64 word)"

text \<open>\<^verbatim>\<open>Done\<close> reads the clock once to advance and, if it trips the breaker, once more.\<close>

definition Done :: "int \<Rightarrow> int \<Rightarrow> ticket \<Rightarrow> bool \<Rightarrow> breaker \<Rightarrow> breaker" where
  "Done now now' t success b =
     (let b = advanceLocked now b
      in if gen t \<noteq> bgen b then b
         else case bstate b of
                Closed \<Rightarrow>
                  if success then b\<lparr>consecFail := 0\<rparr>
                  else (let b = b\<lparr>consecFail := consecFail b + 1\<rparr>
                        in if consecFail b \<ge> FailureThreshold (cfg b) then tripLocked now' b else b)
              | HalfOpen \<Rightarrow>
                  if \<not> probe t then b
                  else if success
                  then setLocked Closed (b\<lparr>consecFail := 0, curOpen := OpenDuration (cfg b)\<rparr>)
                  else tripLocked now' (b\<lparr>curOpen := min (wrap64 (curOpen b * 2)) (MaxOpenDuration (cfg b))\<rparr>)
              | Open \<Rightarrow> b)"

definition Cancel :: "ticket \<Rightarrow> breaker \<Rightarrow> breaker" where
  "Cancel t b =
     (if probe t \<and> bstate b = HalfOpen \<and> gen t = bgen b \<and> halfInFlight b > 0
      then b\<lparr>halfInFlight := halfInFlight b - 1\<rparr> else b)"

subsection \<open>Invariants of a machine\<close>

text \<open>The interface between a step relation and its invariant; reachability is proved once.\<close>

locale machine =
  fixes init :: "'s \<Rightarrow> bool" and step :: "'s \<Rightarrow> 's \<Rightarrow> bool" and inv :: "'s \<Rightarrow> bool"
  assumes inv_init: "init s \<Longrightarrow> inv s"
    and inv_step: "inv s \<Longrightarrow> step s s' \<Longrightarrow> inv s'"
begin

lemma inv_reachable: "init s \<Longrightarrow> step\<^sup>*\<^sup>* s s' \<Longrightarrow> inv s'"
  by (rotate_tac 1) (induction rule: rtranclp_induct, auto intro: inv_init inv_step)

end

subsection \<open>The admission interface\<close>

text \<open>
  What the router relies on: asking whether a gate is open, and then passing it at the same instant. The provider owes that
  an open gate lets the next caller through and that asking twice at an instant changes nothing. A strict gate also turns the
  caller away when it is shut; the breaker is one, a node (which may be down and have no breaker) is only a gate.
\<close>

locale gate =
  fixes avail :: "int \<Rightarrow> 'g \<Rightarrow> bool \<times> 'g" and pass :: "int \<Rightarrow> 'g \<Rightarrow> 't option \<times> 'g"
  assumes avail_pass: "fst (avail now g) \<Longrightarrow> fst (pass now (snd (avail now g))) \<noteq> None"
    and avail_idem: "avail now (snd (avail now g)) = avail now g"
begin

lemma open_passes: "avail now g = (True, g') \<Longrightarrow> \<exists>t g''. pass now g' = (Some t, g'')"
  using avail_pass [of now g] by (cases "pass now g'") auto

lemma still_open: "avail now g = (b, g') \<Longrightarrow> avail now g' = (b, g')"
  using avail_idem [of now g] by simp

end

locale strict_gate = gate +
  assumes shut_pass: "\<not> fst (avail now g) \<Longrightarrow> fst (pass now (snd (avail now g))) = None"
begin

lemma avail_iff_pass: "fst (avail now g) \<longleftrightarrow> fst (pass now (snd (avail now g))) \<noteq> None"
  by (cases "fst (avail now g)") (simp_all add: avail_pass shut_pass)

end

subsection \<open>Lemmas\<close>

lemma wrap64_id: "- (2 ^ 63) \<le> x \<Longrightarrow> x < 2 ^ 63 \<Longrightarrow> wrap64 x = x"
  unfolding wrap64_def by (simp add: sint_sbintrunc' signed_take_bit_int_eq_self)

definition cfg_ok :: "config \<Rightarrow> bool" where
  "cfg_ok c \<longleftrightarrow> 1 \<le> FailureThreshold c \<and> 1 \<le> HalfOpenMax c \<and> 0 < OpenDuration c \<and> OpenDuration c \<le> MaxOpenDuration c"

lemma cfg_ok_clamp: "cfg_ok (clamp c)"
  by (auto simp: clamp_def cfg_ok_def Let_def)

text \<open>The doubling cannot overflow while the longest cool-down is below \<open>2\<^sup>6\<^sup>2\<close> ns, which is 146 years.\<close>

definition brk_ok :: "breaker \<Rightarrow> bool" where
  "brk_ok b \<longleftrightarrow> cfg_ok (cfg b) \<and> MaxOpenDuration (cfg b) < 2 ^ 62
     \<and> 0 \<le> halfInFlight b \<and> halfInFlight b \<le> HalfOpenMax (cfg b)
     \<and> 0 \<le> consecFail b \<and> consecFail b < FailureThreshold (cfg b)
     \<and> OpenDuration (cfg b) \<le> curOpen b \<and> curOpen b \<le> MaxOpenDuration (cfg b)"

lemma brk_ok_new: "MaxOpenDuration (clamp c) < 2 ^ 62 \<Longrightarrow> brk_ok (new_breaker c)"
  using cfg_ok_clamp [of c] by (auto simp: brk_ok_def new_breaker_def cfg_ok_def)

lemma cfg_setLocked [simp]: "cfg (setLocked to b) = cfg b"
  by (simp add: setLocked_def)

lemma setLocked_fields [simp]:
  "bstate (setLocked to b) = to" "halfInFlight (setLocked to b) = halfInFlight b" "consecFail (setLocked to b) = consecFail b"
  "curOpen (setLocked to b) = curOpen b" "openUntil (setLocked to b) = openUntil b"
  by (simp_all add: setLocked_def)

lemma brk_ok_setLocked [simp]: "brk_ok (setLocked to b) = brk_ok b"
  by (simp add: brk_ok_def)

lemma brk_ok_advance [simp]: "brk_ok b \<Longrightarrow> brk_ok (advanceLocked now b)"
  by (auto simp: advanceLocked_def brk_ok_def cfg_ok_def)

lemma advance_fields [simp]:
  "cfg (advanceLocked now b) = cfg b" "curOpen (advanceLocked now b) = curOpen b"
  "consecFail (advanceLocked now b) = consecFail b" "openUntil (advanceLocked now b) = openUntil b"
  by (simp_all add: advanceLocked_def)

lemma advance_idem [simp]: "advanceLocked now (advanceLocked now b) = advanceLocked now b"
  by (simp add: advanceLocked_def)

lemma double_ok:
  assumes "brk_ok b"
  shows "wrap64 (curOpen b * 2) = curOpen b * 2"
  using assms by (intro wrap64_id) (auto simp: brk_ok_def cfg_ok_def)

lemma brk_ok_trip: "brk_ok b \<Longrightarrow> brk_ok (tripLocked now b)"
  by (auto simp: tripLocked_def brk_ok_def cfg_ok_def)

lemma brk_ok_Available: "brk_ok b \<Longrightarrow> brk_ok (snd (Available now b))"
  by (simp add: Available_def Let_def)

lemma brk_ok_Allow: "brk_ok b \<Longrightarrow> brk_ok (snd (Allow now b))"
  using brk_ok_advance [of b now] by (auto simp: Allow_def Let_def brk_ok_def split: state.splits)

lemma brk_ok_Done:
  assumes "brk_ok b"
  shows "brk_ok (Done now now' t ok b)"
proof -
  define b' where "b' = advanceLocked now b"
  have ok: "brk_ok b'" using assms by (simp add: b'_def)
  have "brk_ok (b'\<lparr>curOpen := min (wrap64 (curOpen b' * 2)) (MaxOpenDuration (cfg b'))\<rparr>)"
    using ok double_ok [OF ok] by (auto simp: brk_ok_def cfg_ok_def)
  moreover have "brk_ok (tripLocked now' (b'\<lparr>consecFail := n\<rparr>))" for n
    using ok by (auto simp: tripLocked_def brk_ok_def cfg_ok_def)
  moreover have "brk_ok (b'\<lparr>consecFail := 0, curOpen := OpenDuration (cfg b')\<rparr>)" "brk_ok (b'\<lparr>consecFail := 0\<rparr>)"
    using ok by (auto simp: brk_ok_def cfg_ok_def)
  moreover have "consecFail b' + 1 < FailureThreshold (cfg b') \<Longrightarrow> brk_ok (b'\<lparr>consecFail := consecFail b' + 1\<rparr>)"
    using ok by (auto simp: brk_ok_def)
  ultimately show ?thesis
    using ok unfolding Done_def b'_def [symmetric] by (auto simp: Let_def brk_ok_trip split: state.splits)
qed

lemma brk_ok_Cancel: "brk_ok b \<Longrightarrow> brk_ok (Cancel t b)"
  by (auto simp: Cancel_def brk_ok_def)

lemmas brk_ok_ops = brk_ok_Available brk_ok_Allow brk_ok_Done brk_ok_Cancel

interpretation brk: strict_gate Available Allow
  by unfold_locales (auto simp: Available_def Allow_def Let_def split: state.splits)

subsection \<open>The ledger of tickets\<close>

text \<open>
  A breaker with the tickets that were handed out and not yet given back. A step that would wrap the generation around is not
  taken: it would need \<open>2\<^sup>6\<^sup>4\<close> state changes.
\<close>

inductive lstep :: "breaker \<times> ticket list \<Rightarrow> breaker \<times> ticket list \<Rightarrow> bool" where
  ask: "Available now b = (a, b') \<Longrightarrow> bgen b \<le> bgen b' \<Longrightarrow> lstep (b, ts) (b', ts)"
| admit: "Allow now b = (Some t, b') \<Longrightarrow> bgen b \<le> bgen b' \<Longrightarrow> lstep (b, ts) (b', t # ts)"
| refuse: "Allow now b = (None, b') \<Longrightarrow> bgen b \<le> bgen b' \<Longrightarrow> lstep (b, ts) (b', ts)"
| finish: "t \<in> set ts \<Longrightarrow> b' = Done now now' t ok b \<Longrightarrow> bgen b \<le> bgen (advanceLocked now b) \<Longrightarrow>
    bgen (advanceLocked now b) \<le> bgen b' \<Longrightarrow> lstep (b, ts) (b', remove1 t ts)"
| cancel: "t \<in> set ts \<Longrightarrow> lstep (b, ts) (Cancel t b, remove1 t ts)"

definition probes :: "breaker \<Rightarrow> ticket list \<Rightarrow> ticket list" where
  "probes b ts = filter (\<lambda>t. probe t \<and> gen t = bgen b) ts"

fun legal :: "state \<times> state \<Rightarrow> bool" where
  "legal (Closed, Open) = True"
| "legal (Open, HalfOpen) = True"
| "legal (HalfOpen, Closed) = True"
| "legal (HalfOpen, Open) = True"
| "legal _ = False"

fun path_ok :: "state \<Rightarrow> (state \<times> state) list \<Rightarrow> state \<Rightarrow> bool" where
  "path_ok s [] s' = (s = s')"
| "path_ok s (c # cs) s' = (fst c = s \<and> legal c \<and> path_ok (snd c) cs s')"

lemma path_ok_snoc [simp]: "path_ok s (cs @ [c]) s' \<longleftrightarrow> path_ok s cs (fst c) \<and> legal c \<and> snd c = s'"
  by (induction cs arbitrary: s) auto

fun ledger_ok :: "breaker \<times> ticket list \<Rightarrow> bool" where
  "ledger_ok (b, ts) \<longleftrightarrow> brk_ok b \<and> list_all (\<lambda>t. gen t \<le> bgen b) ts
     \<and> (if bstate b = HalfOpen then halfInFlight b = int (length (probes b ts)) else probes b ts = [])
     \<and> path_ok Closed (onChange b) (bstate b)"

lemma no_wrap: "(g :: 64 word) \<le> g + 1 \<Longrightarrow> g < g + 1"
  by (metis add_cancel_right_right order_le_imp_less_or_eq zero_neq_one)

lemma fresh_probes: "list_all (\<lambda>t. gen t \<le> g) ts \<Longrightarrow> g < g' \<Longrightarrow> filter (\<lambda>t. probe t \<and> gen t = g') ts = []"
  by (auto simp: list_all_iff filter_empty_conv)

lemma older: "list_all (\<lambda>t. gen t \<le> g) ts \<Longrightarrow> g \<le> g' \<Longrightarrow> list_all (\<lambda>t. gen t \<le> g') ts"
  by (auto simp: list_all_iff)

lemma older_remove: "list_all (\<lambda>t. gen t \<le> g) ts \<Longrightarrow> list_all (\<lambda>t. gen t \<le> g) (remove1 x ts)"
  using set_remove1_subset [of x ts] by (auto simp: list_all_iff)

text \<open>A state change starts a new generation, which no outstanding ticket has.\<close>

lemma ledger_change:
  assumes "ledger_ok (b, ts)" "legal (bstate b, to)" "bgen b \<le> bgen b + 1" "brk_ok b'" "bstate b' = bstate b" "bgen b' = bgen b"
    "onChange b' = onChange b" "to = HalfOpen \<longrightarrow> halfInFlight b' = 0"
  shows "ledger_ok (setLocked to b', ts)"
proof -
  have ne: "bstate b \<noteq> to" using assms(2) by (cases "(bstate b, to)" rule: legal.cases) auto
  have "list_all (\<lambda>t. gen t \<le> bgen b + 1) ts"
    using older [of "bgen b" ts "bgen b + 1"] assms(1,3) by simp
  moreover have "list_all (\<lambda>t. gen t \<le> bgen b) ts" using assms(1) by simp
  from fresh_probes [OF this no_wrap [OF assms(3)]] have "filter (\<lambda>t. probe t \<and> gen t = bgen b + 1) ts = []" .
  moreover have "bgen (setLocked to b') = bgen b + 1" "onChange (setLocked to b') = onChange b @ [(bstate b, to)]"
    using ne assms(5-7) by (simp_all add: setLocked_def)
  ultimately show ?thesis using assms by (auto simp: probes_def)
qed

lemma ledger_advance:
  assumes "ledger_ok (b, ts)" "bgen b \<le> bgen (advanceLocked now b)"
  shows "ledger_ok (advanceLocked now b, ts)"
proof (cases "bstate b = Open \<and> \<not> now < openUntil b")
  case True
  then have "bgen (advanceLocked now b) = bgen b + 1" by (simp add: advanceLocked_def setLocked_def)
  with assms True have "ledger_ok (setLocked HalfOpen (b\<lparr>halfInFlight := 0\<rparr>), ts)"
    by (intro ledger_change [OF assms(1)]) (auto simp: brk_ok_def cfg_ok_def)
  with True show ?thesis by (simp add: advanceLocked_def)
next
  case False
  with assms(1) show ?thesis by (auto simp: advanceLocked_def)
qed

lemma probes_remove:
  "\<not> (probe t \<and> gen t = bgen b) \<Longrightarrow> probes b (remove1 t ts) = probes b ts"
  by (induction ts) (auto simp: probes_def)

lemma probes_remove_one:
  "probe t \<Longrightarrow> gen t = bgen b \<Longrightarrow> t \<in> set ts \<Longrightarrow> length (probes b ts) = Suc (length (probes b (remove1 t ts)))"
  by (induction ts) (auto simp: probes_def)

lemma ledger_remove:
  assumes "ledger_ok (b, ts)" "bstate b = HalfOpen \<Longrightarrow> \<not> (probe t \<and> gen t = bgen b)"
  shows "ledger_ok (b, remove1 t ts)"
proof -
  have "probes b ts = [] \<Longrightarrow> probes b (remove1 t ts) = []"
    using set_remove1_subset [of t ts] by (auto simp: probes_def filter_empty_conv)
  with assms older_remove [of "bgen b" ts t] show ?thesis by (auto simp: probes_remove)
qed

lemma ledger_Done:
  assumes "ledger_ok (b, ts)" "t \<in> set ts" "bgen b \<le> bgen (advanceLocked now b)"
    "bgen (advanceLocked now b) \<le> bgen (Done now now' t ok b)"
  shows "ledger_ok (Done now now' t ok b, remove1 t ts)"
proof -
  define c where "c = advanceLocked now b"
  define d where "d = Done now now' t ok b"
  have led: "ledger_ok (c, ts)" unfolding c_def by (rule ledger_advance [OF assms(1,3)])
  have ok: "brk_ok d" "brk_ok c" using assms(1) by (simp_all add: d_def c_def brk_ok_Done)
  have "ledger_ok (d, ts) \<and> (bstate d = HalfOpen \<longrightarrow> \<not> (probe t \<and> gen t = bgen d))"
  proof (cases "d = c \<or> bstate d = bstate c")
    case True
    have "d = c \<or> bstate c = Closed \<and> (\<exists>n. d = c\<lparr>consecFail := n\<rparr>)"
      using True unfolding d_def Done_def c_def [symmetric]
      by (auto simp: Let_def tripLocked_def split: state.splits if_splits)
    moreover have "bstate c = HalfOpen \<Longrightarrow> probe t \<Longrightarrow> gen t = bgen c \<Longrightarrow> bstate d \<noteq> HalfOpen"
      unfolding d_def Done_def c_def [symmetric] by (simp add: Let_def tripLocked_def)
    ultimately show ?thesis using led ok by (auto simp: probes_def)
  next
    case False
    then obtain c' to where d: "d = setLocked to c'" "legal (bstate c, to)" "bstate c' = bstate c" "bgen c' = bgen c"
      "onChange c' = onChange c" "to \<noteq> HalfOpen"
      unfolding d_def Done_def c_def [symmetric]
      by (auto simp: Let_def tripLocked_def split: state.splits if_splits)
    from d(2) have "bstate c \<noteq> to" by (cases "(bstate c, to)" rule: legal.cases) auto
    with d(1,3,4) have "bgen d = bgen c + 1" by (simp add: setLocked_def)
    then have "bgen c \<le> bgen c + 1" using assms(4) unfolding d_def [symmetric] c_def [symmetric] by simp
    moreover have "brk_ok c'" using ok(1) d(1) by simp
    ultimately have "ledger_ok (d, ts)" unfolding d(1) using d led by (intro ledger_change [OF led]) auto
    then show ?thesis using d by simp
  qed
  then show ?thesis unfolding d_def [symmetric] by (intro ledger_remove) auto
qed

lemma ledger_Allow:
  assumes "ledger_ok (b, ts)" "Allow now b = (Some t, b')" "bgen b \<le> bgen b'"
  shows "ledger_ok (b', t # ts)"
proof -
  have g: "bgen b' = bgen (advanceLocked now b)"
    using assms(2) by (auto simp: Allow_def Let_def split: state.splits if_splits)
  have "ledger_ok (advanceLocked now b, ts)" by (rule ledger_advance [OF assms(1)]) (use assms(3) g in simp)
  moreover have "brk_ok b'" using brk_ok_Allow [of b now] assms by simp
  ultimately show ?thesis using assms(2)
    by (auto simp: Allow_def Let_def probes_def split: state.splits if_splits)
qed

lemma ledger_Cancel:
  assumes "ledger_ok (b, ts)" "t \<in> set ts"
  shows "ledger_ok (Cancel t b, remove1 t ts)"
proof (cases "probe t \<and> bstate b = HalfOpen \<and> gen t = bgen b")
  case True
  then have "halfInFlight b = int (Suc (length (probes b (remove1 t ts))))"
    using assms probes_remove_one [of t b ts] by simp
  then show ?thesis using assms(1) True brk_ok_Cancel [of b t] older_remove [of "bgen b" ts t]
    by (auto simp: Cancel_def probes_def)
next
  case False
  then have "ledger_ok (b, remove1 t ts)" by (intro ledger_remove [OF assms(1)]) auto
  moreover have "Cancel t b = b" using False by (auto simp: Cancel_def)
  ultimately show ?thesis by simp
qed

lemma ledger_step: "lstep s s' \<Longrightarrow> ledger_ok s \<Longrightarrow> ledger_ok s'"
proof (induction rule: lstep.induct)
  case (ask now b a b' ts)
  then show ?case using ledger_advance [of b ts now] by (simp add: Available_def Let_def)
next
  case (refuse now b b' ts)
  then have "b' = advanceLocked now b" by (auto simp: Allow_def Let_def split: state.splits if_splits)
  with refuse show ?case using ledger_advance [of b ts now] by simp
qed (auto intro: ledger_Allow ledger_Done ledger_Cancel simp del: ledger_ok.simps)

fun fresh_ledger :: "breaker \<times> ticket list \<Rightarrow> bool" where
  "fresh_ledger (b, ts) \<longleftrightarrow> ts = [] \<and> (\<exists>c. b = new_breaker c \<and> MaxOpenDuration (clamp c) < 2 ^ 62)"

interpretation ledger: machine fresh_ledger lstep ledger_ok
proof unfold_locales
  fix s assume "fresh_ledger s"
  then show "ledger_ok s"
    by (cases s) (auto simp: brk_ok_new probes_def, auto simp: new_breaker_def)
next
  fix s s' assume "ledger_ok s" "lstep s s'"
  then show "ledger_ok s'" by (rule ledger_step [rotated])
qed

subsection \<open>Lemmas: runs of failures and back-off\<close>

lemma closed_fail:
  assumes "bstate b = Closed" "consecFail b + 1 < FailureThreshold (cfg b)"
  shows "Done now now' \<lparr>probe = p, gen = bgen b\<rparr> False b = b\<lparr>consecFail := consecFail b + 1\<rparr>"
  using assms by (simp add: Done_def advanceLocked_def Let_def)

lemma closed_fails:
  assumes "bstate b = Closed" "consecFail b + int (length ts) < FailureThreshold (cfg b)"
  shows "foldl (\<lambda>b (now, now'). Done now now' \<lparr>probe = False, gen = bgen b\<rparr> False b) b ts = b\<lparr>consecFail := consecFail b + int (length ts)\<rparr>"
  using assms
proof (induction ts arbitrary: b)
  case (Cons t ts)
  obtain now now' where t: "t = (now, now')" by (cases t)
  have "foldl (\<lambda>b (now, now'). Done now now' \<lparr>probe = False, gen = bgen b\<rparr> False b) (b\<lparr>consecFail := consecFail b + 1\<rparr>) ts
      = b\<lparr>consecFail := consecFail b + 1 + int (length ts)\<rparr>"
    using Cons.IH [of "b\<lparr>consecFail := consecFail b + 1\<rparr>"] Cons.prems by simp
  then show ?case using Cons.prems closed_fail [of b now now' False] by (simp add: t algebra_simps)
qed simp

lemma cfg_ops:
  "Available now b = (a, b') \<Longrightarrow> cfg b' = cfg b" "Allow now b = (r, b') \<Longrightarrow> cfg b' = cfg b"
  "cfg (Done now now' t ok b) = cfg b" "cfg (Cancel t b) = cfg b"
  by (auto simp: Available_def Allow_def Done_def Cancel_def tripLocked_def Let_def split: state.splits if_splits)

lemma reach_cfg: "lstep\<^sup>*\<^sup>* s s' \<Longrightarrow> cfg (fst s') = cfg (fst s)"
proof (induction rule: rtranclp_induct)
  case (step s' s'')
  from step(2) have "cfg (fst s'') = cfg (fst s')" by (cases rule: lstep.cases) (auto dest: cfg_ops(1,2) simp: cfg_ops(3,4))
  with step(3) show ?case by simp
qed simp

lemma cap_once:
  fixes m :: int
  assumes "0 \<le> m"
  shows "min (2 ^ n * min x m) m = min (2 ^ n * x) m"
proof -
  have grow: "m \<le> 2 ^ n * m" using mult_right_mono [of 1 "2 ^ n" m] assms by simp
  show ?thesis
  proof (cases "x \<le> m")
    case False
    then have "2 ^ n * m \<le> 2 ^ n * x" by (intro mult_left_mono) simp_all
    with grow have "m \<le> 2 ^ n * x" by linarith
    with grow False show ?thesis by (simp add: min_def)
  qed simp
qed

text \<open>One failed probe: an elapsed cool-down, an admission and its failure.\<close>

definition failed_probe :: "int \<times> int \<times> int \<Rightarrow> breaker \<Rightarrow> breaker" where
  "failed_probe ts b =
     (case ts of (t1, t2, t3) \<Rightarrow> case Allow t1 b of (Some t, b') \<Rightarrow> Done t2 t3 t False b' | (None, b') \<Rightarrow> b')"

text \<open>Each probe is made after the cool-down that the previous one left.\<close>

fun probed :: "breaker \<Rightarrow> (int \<times> int \<times> int) list \<Rightarrow> bool" where
  "probed b [] = True"
| "probed b ((t1, t2, t3) # ts) = (openUntil b \<le> t1 \<and> probed (failed_probe (t1, t2, t3) b) ts)"

lemma failed_probe_open:
  assumes "brk_ok b" "bstate b = Open" "openUntil b \<le> t1"
  shows "let b' = failed_probe (t1, t2, t3) b in bstate b' = Open \<and> brk_ok b' \<and> cfg b' = cfg b
    \<and> curOpen b' = min (2 * curOpen b) (MaxOpenDuration (cfg b)) \<and> openUntil b' = t3 + curOpen b'"
proof -
  have pos: "0 < HalfOpenMax (cfg b)" using assms(1) by (simp add: brk_ok_def cfg_ok_def)
  have w: "wrap64 (curOpen b * 2) = curOpen b * 2" by (rule double_ok [OF assms(1)])
  define b' where "b' = failed_probe (t1, t2, t3) b"
  have "bstate b' = Open \<and> cfg b' = cfg b \<and> curOpen b' = min (2 * curOpen b) (MaxOpenDuration (cfg b)) \<and> openUntil b' = t3 + curOpen b'"
    using assms(2,3) pos unfolding b'_def
    by (simp add: failed_probe_def Allow_def Done_def Let_def advanceLocked_def tripLocked_def setLocked_def w mult.commute)
  moreover have "brk_ok b'"
  proof (cases "Allow t1 b")
    case (Pair r c)
    then show ?thesis using assms(1) brk_ok_Allow [of b t1] brk_ok_Done [of c]
      unfolding b'_def by (cases r) (auto simp: failed_probe_def)
  qed
  ultimately show ?thesis by (simp add: b'_def Let_def)
qed

subsection \<open>Properties\<close>

text \<open>C4. The probe budget is exact: along any interleaving of availability checks, admissions, results and cancellations from a new
  breaker, while it is half open the number of outstanding probe tickets of the current generation equals \<^verbatim>\<open>halfInFlight\<close> and never
  exceeds \<^verbatim>\<open>HalfOpenMax\<close>; in the other states no outstanding probe ticket is current, so none can close or re-open the breaker.\<close>

theorem breaker_probe_budget:
  assumes "MaxOpenDuration (clamp c) < 2 ^ 62" "lstep\<^sup>*\<^sup>* (new_breaker c, []) (b, ts)"
  shows "(bstate b = HalfOpen \<longrightarrow> int (length (probes b ts)) = halfInFlight b \<and> halfInFlight b \<le> HalfOpenMax (clamp c))
    \<and> (bstate b \<noteq> HalfOpen \<longrightarrow> probes b ts = [])"
proof -
  have "fresh_ledger (new_breaker c, [])" using assms(1) by auto
  from ledger.inv_reachable [OF this assms(2)] have l: "ledger_ok (b, ts)" .
  have "cfg b = clamp c" using reach_cfg [OF assms(2)] by (simp add: new_breaker_def)
  with l show ?thesis by (auto simp: brk_ok_def split: if_splits)
qed

text \<open>C10. Only the documented transitions occur: along any such run the calls of \<^verbatim>\<open>onChange\<close> form one path from closed to the current
  state whose steps are closed to open, open to half open, and half open to closed or open.\<close>

theorem breaker_transitions:
  assumes "MaxOpenDuration (clamp c) < 2 ^ 62" "lstep\<^sup>*\<^sup>* (new_breaker c, []) (b, ts)"
  shows "path_ok Closed (onChange b) (bstate b)"
proof -
  have "fresh_ledger (new_breaker c, [])" using assms(1) by auto
  from ledger.inv_reachable [OF this assms(2)] show ?thesis by simp
qed

text \<open>\<^verbatim>\<open>Available\<close> predicts \<^verbatim>\<open>Allow\<close>: at the same instant, \<^verbatim>\<open>Available\<close> reports true exactly when \<^verbatim>\<open>Allow\<close> would admit the caller, and
  asking consumes no probe slot.\<close>

theorem available_iff_allow:
  "(fst (Available now b) \<longleftrightarrow> fst (Allow now b) \<noteq> None) \<and> Allow now (snd (Available now b)) = Allow now b
   \<and> halfInFlight (snd (Available now b)) = halfInFlight (advanceLocked now b)"
proof -
  have "Allow now (snd (Available now b)) = Allow now b" by (simp add: Available_def Allow_def Let_def)
  then show ?thesis using brk.avail_iff_pass [of now b] by (simp add: Available_def Let_def)
qed

text \<open>The breaker trips at exactly the configured number of consecutive failures: from a closed breaker with no failure on record,
  fewer failures leave it closed, and with the \<^verbatim>\<open>FailureThreshold\<close>-th it opens until its cool-down has passed.\<close>

theorem breaker_trips_at_threshold:
  assumes "bstate b = Closed" "consecFail b = 0" "cfg_ok (cfg b)" "int (length ts) + 1 = FailureThreshold (cfg b)"
  shows "let c = foldl (\<lambda>b (now, now'). Done now now' \<lparr>probe = False, gen = bgen b\<rparr> False b) b ts
    in bstate c = Closed \<and> (let d = Done now now' \<lparr>probe = False, gen = bgen c\<rparr> False c
       in bstate d = Open \<and> openUntil d = now' + curOpen b \<and> consecFail d = 0 \<and> (\<forall>t < now' + curOpen b. fst (Allow t d) = None))"
proof -
  have "foldl (\<lambda>b (now, now'). Done now now' \<lparr>probe = False, gen = bgen b\<rparr> False b) b ts = b\<lparr>consecFail := int (length ts)\<rparr>"
    using closed_fails [of b ts] assms by simp
  then show ?thesis using assms
    by (simp add: Done_def Let_def advanceLocked_def tripLocked_def setLocked_def Allow_def)
qed

text \<open>Repeated failed probes back off exponentially up to the cap: after \<open>n\<close> probes that were each let through after the cool-down
  and failed, the cool-down is the starting one doubled \<open>n\<close> times, cut at \<^verbatim>\<open>MaxOpenDuration\<close>, with no 64-bit overflow on the way.\<close>

theorem breaker_backoff:
  assumes "brk_ok b" "bstate b = Open" "probed b ts"
  shows "let c = foldl (\<lambda>b t. failed_probe t b) b ts
    in bstate c = Open \<and> curOpen c = min (2 ^ length ts * curOpen b) (MaxOpenDuration (cfg b)) \<and> brk_ok c"
  using assms
proof (induction ts arbitrary: b)
  case Nil
  then show ?case by (simp add: brk_ok_def)
next
  case (Cons t ts)
  obtain t1 t2 t3 where t: "t = (t1, t2, t3)" by (cases t)
  define b' where "b' = failed_probe t b"
  have b': "bstate b' = Open" "brk_ok b'" "cfg b' = cfg b" "curOpen b' = min (2 * curOpen b) (MaxOpenDuration (cfg b))"
    using failed_probe_open [OF Cons.prems(1,2), of t1 t2 t3] Cons.prems(3) by (simp_all add: b'_def t Let_def)
  have "probed b' ts" using Cons.prems(3) by (simp add: b'_def t)
  from Cons.IH [OF b'(2,1) this] have "let c = foldl (\<lambda>b t. failed_probe t b) b' ts in bstate c = Open \<and>
      curOpen c = min (2 ^ length ts * min (2 * curOpen b) (MaxOpenDuration (cfg b))) (MaxOpenDuration (cfg b)) \<and> brk_ok c"
    by (simp add: b'(3,4))
  moreover have "0 \<le> MaxOpenDuration (cfg b)" using Cons.prems(1) by (simp add: brk_ok_def cfg_ok_def)
  ultimately show ?case by (simp add: b'_def cap_once Let_def mult.assoc [symmetric] mult.commute)
qed

definition demo_cfg :: config where
  "demo_cfg = \<lparr>FailureThreshold = 2, OpenDuration = 1000, MaxOpenDuration = 3000, HalfOpenMax = 1\<rparr>"

text \<open>A run: two failures open the breaker, and after the cool-down one probe is out.\<close>

definition demo_open :: breaker where
  "demo_open = \<lparr>cfg = demo_cfg, bstate = Open, bgen = 1, consecFail = 0, openUntil = 1000, curOpen = 1000, halfInFlight = 0,
     onChange = [(Closed, Open)]\<rparr>"

definition demo_half :: breaker where
  "demo_half = demo_open\<lparr>bstate := HalfOpen, bgen := 2, halfInFlight := 1, onChange := [(Closed, Open), (Open, HalfOpen)]\<rparr>"

lemma clamp_demo: "clamp demo_cfg = demo_cfg"
  by (simp add: clamp_def demo_cfg_def Let_def)

lemma demo_cfg_fields:
  "FailureThreshold demo_cfg = 2" "OpenDuration demo_cfg = 1000" "MaxOpenDuration demo_cfg = 3000" "HalfOpenMax demo_cfg = 1"
  by (simp_all add: demo_cfg_def)

lemma demo_run: "lstep\<^sup>*\<^sup>* (new_breaker demo_cfg, []) (demo_half, [\<lparr>probe = True, gen = 2\<rparr>])"
proof -
  let ?b = "new_breaker demo_cfg" and ?t = "\<lparr>probe = False, gen = 0\<rparr>"
  have a: "Allow 0 ?b = (Some ?t, ?b)"
    by (simp add: Allow_def Let_def advanceLocked_def new_breaker_def)
  let ?b1 = "?b\<lparr>consecFail := 1\<rparr>"
  have d1: "Done 0 0 ?t False ?b = ?b1"
    by (simp add: Done_def Let_def advanceLocked_def new_breaker_def clamp_demo demo_cfg_fields)
  have d2: "Done 0 0 ?t False ?b1 = demo_open"
    by (simp add: Done_def Let_def advanceLocked_def new_breaker_def clamp_demo tripLocked_def setLocked_def demo_open_def demo_cfg_fields)
  have h: "Allow 1000 demo_open = (Some \<lparr>probe = True, gen = 2\<rparr>, demo_half)"
    by (simp add: Allow_def Let_def advanceLocked_def setLocked_def demo_open_def demo_half_def demo_cfg_fields)
  have g: "bgen ?b = 0" "bgen ?b1 = 0" "advanceLocked 0 ?b = ?b" "advanceLocked 0 ?b1 = ?b1"
    by (simp_all add: new_breaker_def advanceLocked_def)
  have "lstep (?b, []) (?b, [?t])" by (rule lstep.admit [OF a]) simp
  moreover have "lstep (?b, [?t]) (?b, [?t, ?t])" by (rule lstep.admit [OF a]) simp
  moreover have "lstep (?b, [?t, ?t]) (?b1, [?t])"
    using lstep.finish [of ?t "[?t, ?t]" ?b1 0 0 False ?b] d1 g by simp
  moreover have "lstep (?b1, [?t]) (demo_open, [])"
    using lstep.finish [of ?t "[?t]" demo_open 0 0 False ?b1] d2 g by simp
  moreover have "lstep (demo_open, []) (demo_half, [\<lparr>probe = True, gen = 2\<rparr>])"
    by (rule lstep.admit [OF h]) (simp add: demo_open_def demo_half_def)
  ultimately show ?thesis by (meson converse_rtranclp_into_rtranclp rtranclp.rtrancl_refl)
qed

theorem breaker_probe_budget_witness:
  "int (length (probes demo_half [\<lparr>probe = True, gen = 2\<rparr>])) = halfInFlight demo_half \<and> halfInFlight demo_half \<le> HalfOpenMax (clamp demo_cfg)"
proof -
  have "bstate demo_half = HalfOpen" by (simp add: demo_half_def)
  with breaker_probe_budget [OF _ demo_run] show ?thesis by (simp add: clamp_demo demo_cfg_fields)
qed

theorem breaker_transitions_witness: "path_ok Closed (onChange demo_half) (bstate demo_half)"
  by (rule breaker_transitions [OF _ demo_run]) (simp add: clamp_demo demo_cfg_fields)

theorem breaker_trips_at_threshold_witness:
  "let c = foldl (\<lambda>b (now, now'). Done now now' \<lparr>probe = False, gen = bgen b\<rparr> False b) (new_breaker demo_cfg) [(0, 0)]
    in bstate c = Closed \<and> (let d = Done 5 5 \<lparr>probe = False, gen = bgen c\<rparr> False c
       in bstate d = Open \<and> openUntil d = 5 + curOpen (new_breaker demo_cfg) \<and> consecFail d = 0
         \<and> (\<forall>t < 5 + curOpen (new_breaker demo_cfg). fst (Allow t d) = None))"
  by (rule breaker_trips_at_threshold) (simp_all add: new_breaker_def clamp_demo demo_cfg_fields cfg_ok_def)

theorem breaker_backoff_witness:
  "let c = foldl (\<lambda>b t. failed_probe t b) demo_open [(1000, 1001, 1002)]
    in bstate c = Open \<and> curOpen c = min (2 ^ length [(1000, 1001, 1002) :: int \<times> int \<times> int] * curOpen demo_open) (MaxOpenDuration (cfg demo_open)) \<and> brk_ok c"
  by (rule breaker_backoff) (simp_all add: demo_open_def demo_cfg_fields brk_ok_def cfg_ok_def)

end
