(* ===== verification/Router.thy ===== *)
theory Router
  imports Breaker Py_Str
begin

section \<open>The router (gateway-go/router/router.go)\<close>

text \<open>
  Models package \<^verbatim>\<open>router\<close>: the rendezvous hashing, the candidate scan, the placement memory, the bounded-load pick and the
  admission queue. A node is named by its index in \<^verbatim>\<open>Router.nodes\<close>. A critical section under \<^verbatim>\<open>Router.mu\<close> is one function of the
  router state and of one clock reading \<open>now\<close>. \<^verbatim>\<open>placeMap\<close> and \<^verbatim>\<open>placeLRU\<close>, which the code keeps in step, are one list of
  (key, node) pairs, most recently used first.
\<close>

unbundle bit_operations_syntax

subsection \<open>Hashing\<close>

definition fnv64a :: "string \<Rightarrow> 64 word" where
  "fnv64a s = foldl (\<lambda>h c. (h XOR of_nat (of_char c)) * 1099511628211) 14695981039346656037 s"

definition mix64 :: "64 word \<Rightarrow> 64 word" where
  "mix64 x =
     (let x = x XOR drop_bit 30 x;
          x = x * 0xbf58476d1ce4e5b9;
          x = x XOR drop_bit 27 x;
          x = x * 0x94d049bb133111eb;
          x = x XOR drop_bit 31 x
      in x)"

definition hashString :: "string \<Rightarrow> 64 word" where
  "hashString s = mix64 (fnv64a s)"

definition score :: "64 word \<Rightarrow> 64 word \<Rightarrow> 64 word" where
  "score keyHash nameHash = mix64 (keyHash XOR nameHash)"

subsection \<open>Nodes and the router\<close>

record node =
  Group :: string
  Role :: string
  URL :: string
  Name :: string
  MaxConcurrent :: int
  nameHash :: "64 word"
  inflight :: int
  placed :: int
  up :: bool
  br :: "breaker option"

record options =
  BoundedLoadFactor :: real
  AffinityFloor :: int
  AffinityWait :: int
  PlacementSize :: int
  MaxQueue :: int
  BreakerCfg :: "config option"

record router =
  opts :: options
  nodes :: "node list"
  waiting :: int
  placeLRU :: "(64 word \<times> nat) list"

record instance_cfg =
  inst_group :: string
  inst_role :: string
  inst_host :: string
  inst_port :: int
  inst_max :: int

definition hostPort :: "string \<Rightarrow> int \<Rightarrow> string" where
  "hostPort host port = host @ '':'' @ show_int port"

definition new_node :: "options \<Rightarrow> int \<Rightarrow> instance_cfg \<Rightarrow> node" where
  "new_node os default_max inst =
     (let mc = (if inst_max inst \<le> 0 then default_max else inst_max inst);
          name = hostPort (inst_host inst) (inst_port inst)
      in \<lparr>Group = inst_group inst, Role = inst_role inst, URL = ''http://'' @ name, Name = name, MaxConcurrent = mc,
          nameHash = hashString name, inflight = 0, placed = 0, up = True, br = map_option new_breaker (BreakerCfg os)\<rparr>)"

definition new_router :: "instance_cfg list \<Rightarrow> int \<Rightarrow> options \<Rightarrow> router" where
  "new_router instances default_max os =
     (let os = (if BoundedLoadFactor os < 1 then os\<lparr>BoundedLoadFactor := 1\<rparr> else os);
          os = (if AffinityFloor os < 1 then os\<lparr>AffinityFloor := 1\<rparr> else os)
      in \<lparr>opts = os, nodes = map (new_node os default_max) instances, waiting = 0, placeLRU = []\<rparr>)"

definition EntryPoint :: "node \<Rightarrow> bool" where
  "EntryPoint n = (Role n \<noteq> ''prefill'')"

definition node_available :: "int \<Rightarrow> node \<Rightarrow> bool \<times> node" where
  "node_available now n =
     (if up n
      then (case br n of
              None \<Rightarrow> (True, n)
            | Some b \<Rightarrow> (let (a, b') = Available now b in (a, n\<lparr>br := Some b'\<rparr>)))
      else (False, n))"

definition node_allow :: "int \<Rightarrow> node \<Rightarrow> ticket option \<times> node" where
  "node_allow now n =
     (case br n of
        None \<Rightarrow> (Some \<lparr>probe = False, gen = 0\<rparr>, n)
      | Some b \<Rightarrow> (let (t, b') = Allow now b in (t, n\<lparr>br := Some b'\<rparr>)))"

subsection \<open>Candidates and their order\<close>

type_synonym scored = "nat \<times> 64 word"

text \<open>
  The scan asks a node's breaker only when the node is in the group, passes the filter, was not tried before and is up, so only
  those breakers may advance.
\<close>

definition eligible :: "string \<Rightarrow> (node \<Rightarrow> bool) \<Rightarrow> string list \<Rightarrow> node \<Rightarrow> bool" where
  "eligible grp flt exclude n = (\<not> (grp \<noteq> [] \<and> Group n \<noteq> grp) \<and> flt n \<and> Name n \<notin> set exclude)"

fun scan :: "int \<Rightarrow> 64 word \<Rightarrow> string \<Rightarrow> (node \<Rightarrow> bool) \<Rightarrow> string list \<Rightarrow> nat \<Rightarrow> node list \<Rightarrow> node list \<times> scored list" where
  "scan now kh grp flt exclude i [] = ([], [])"
| "scan now kh grp flt exclude i (n # ns) =
     (let (ns', cs) = scan now kh grp flt exclude (Suc i) ns
      in if eligible grp flt exclude n
         then (case node_available now n of
                 (True, n') \<Rightarrow> (n' # ns', (i, score kh (nameHash n)) # cs)
               | (False, n') \<Rightarrow> (n' # ns', cs))
         else (n # ns', cs))"

text \<open>
  \<^verbatim>\<open>slices.SortFunc\<close> with the larger score first. The order of equal scores (a full hash collision) is unspecified in Go; the
  model keeps the order of registration.
\<close>

definition ranked :: "scored list \<Rightarrow> scored list" where
  "ranked cs = sort_key (\<lambda>c. - uint (snd c)) cs"

definition Ranking :: "router \<Rightarrow> string \<Rightarrow> string list" where
  "Ranking r key =
     (let kh = hashString key;
          sc = map (\<lambda>i. (i, score kh (nameHash (nodes r ! i)))) [0..<length (nodes r)]
      in map (\<lambda>c. Name (nodes r ! fst c)) (ranked sc))"

subsection \<open>Placement memory\<close>

definition upd_node :: "nat \<Rightarrow> (node \<Rightarrow> node) \<Rightarrow> router \<Rightarrow> router" where
  "upd_node i f r = r\<lparr>nodes := (nodes r)[i := f (nodes r ! i)]\<rparr>"

definition add_placed :: "nat \<Rightarrow> int \<Rightarrow> router \<Rightarrow> router" where
  "add_placed i d = upd_node i (\<lambda>n. n\<lparr>placed := placed n + d\<rparr>)"

text \<open>The first candidate with the fewest placed keys, then the fewest requests in flight.\<close>

fun least_from :: "router \<Rightarrow> scored list \<Rightarrow> nat \<Rightarrow> nat \<Rightarrow> scored list \<Rightarrow> nat" where
  "least_from r cands best i [] = best"
| "least_from r cands best i (c # cs) =
     (let a = nodes r ! fst c; b = nodes r ! fst (cands ! best)
      in least_from r cands
           (if placed a < placed b \<or> placed a = placed b \<and> inflight a < inflight b then i else best) (Suc i) cs)"

definition leastPlaced :: "router \<Rightarrow> scored list \<Rightarrow> nat" where
  "leastPlaced r cands = least_from r cands 0 1 (tl cands)"

definition move_front :: "64 word \<Rightarrow> (64 word \<times> nat) list \<Rightarrow> (64 word \<times> nat) list" where
  "move_front key l = (case map_of l key of None \<Rightarrow> l | Some v \<Rightarrow> (key, v) # filter (\<lambda>e. fst e \<noteq> key) l)"

fun evict :: "nat \<Rightarrow> router \<Rightarrow> router" where
  "evict 0 r = r"
| "evict (Suc fuel) r =
     (if int (length (placeLRU r)) > PlacementSize (opts r) \<and> placeLRU r \<noteq> []
      then evict fuel ((add_placed (snd (last (placeLRU r))) (- 1) r)\<lparr>placeLRU := butlast (placeLRU r)\<rparr>)
      else r)"

definition setPlacement :: "64 word \<Rightarrow> nat \<Rightarrow> router \<Rightarrow> router" where
  "setPlacement key i r =
     (case map_of (placeLRU r) key of
        Some j \<Rightarrow>
          (let r = (if j \<noteq> i then add_placed i 1 (add_placed j (- 1) r) else r)
           in r\<lparr>placeLRU := (key, i) # filter (\<lambda>e. fst e \<noteq> key) (placeLRU r)\<rparr>)
      | None \<Rightarrow>
          (let r = add_placed i 1 (r\<lparr>placeLRU := (key, i) # placeLRU r\<rparr>)
           in evict (length (placeLRU r)) r))"

fun index_of :: "nat \<Rightarrow> scored list \<Rightarrow> nat option" where
  "index_of j [] = None"
| "index_of j (c # cs) = (if fst c = j then Some 0 else map_option Suc (index_of j cs))"

text \<open>The index in \<open>cands\<close> of the node that the key goes to. \<open>e.node.available()\<close> may advance that node's breaker.\<close>

definition placeLocked :: "int \<Rightarrow> 64 word \<Rightarrow> scored list \<Rightarrow> string list \<Rightarrow> router \<Rightarrow> nat \<times> router" where
  "placeLocked now key cands exclude r =
     (let fresh = (\<lambda>r. let best = leastPlaced r cands in (best, setPlacement key (fst (cands ! best)) r))
      in case map_of (placeLRU r) key of
           None \<Rightarrow> fresh r
         | Some j \<Rightarrow>
             (case index_of j cands of
                Some i \<Rightarrow> (i, r\<lparr>placeLRU := move_front key (placeLRU r)\<rparr>)
              | None \<Rightarrow>
                  if Name (nodes r ! j) \<in> set exclude
                  then (let (a, n') = node_available now (nodes r ! j); r' = upd_node j (\<lambda>_. n') r
                        in if a then (leastPlaced r' cands, r') else fresh r')
                  else fresh r))"

subsection \<open>Picking a node\<close>

datatype acquire_error = ErrNoNode | ErrQueueFull | ErrQueueTimeout | ErrContext | errAtCapacity | errPreferredBusy

record lease =
  lease_node :: nat
  lease_ticket :: ticket

definition tryLease :: "int \<Rightarrow> nat \<Rightarrow> router \<Rightarrow> lease option \<times> router" where
  "tryLease now i r =
     (case node_allow now (nodes r ! i) of
        (None, n') \<Rightarrow> (None, upd_node i (\<lambda>_. n') r)
      | (Some t, n') \<Rightarrow> (Some \<lparr>lease_node = i, lease_ticket = t\<rparr>, upd_node i (\<lambda>_. n'\<lparr>inflight := inflight n' + 1\<rparr>) r))"

definition bounded_limit :: "options \<Rightarrow> int \<Rightarrow> nat \<Rightarrow> int" where
  "bounded_limit os total_inflight n =
     max \<lceil>BoundedLoadFactor os * real_of_int (total_inflight + 1) / real n\<rceil> (AffinityFloor os)"

datatype walk = Granted lease | PreferredBusy | Exhausted bool

text \<open>The walk over the ranked candidates; \<open>Exhausted denied\<close> when none was taken.\<close>

fun walk_cands :: "int \<Rightarrow> int \<Rightarrow> bool \<Rightarrow> bool \<Rightarrow> bool \<Rightarrow> scored list \<Rightarrow> router \<Rightarrow> walk \<times> router" where
  "walk_cands now limit hold first denied [] r = (Exhausted denied, r)"
| "walk_cands now limit hold first denied (c # cs) r =
     (let n = nodes r ! fst c
      in if inflight n < min (MaxConcurrent n) limit
         then (case tryLease now (fst c) r of
                 (Some l, r') \<Rightarrow> (Granted l, r')
               | (None, r') \<Rightarrow> walk_cands now limit hold False True cs r')
         else if first \<and> hold \<and> inflight n \<ge> MaxConcurrent n \<and> inflight n < limit
         then (PreferredBusy, r)
         else walk_cands now limit hold False denied cs r)"

fun least_loaded :: "router \<Rightarrow> nat option \<Rightarrow> scored list \<Rightarrow> nat option" where
  "least_loaded r best [] = best"
| "least_loaded r best (c # cs) =
     (let n = nodes r ! fst c
      in least_loaded r
           (if inflight n < MaxConcurrent n \<and> (case best of None \<Rightarrow> True | Some j \<Rightarrow> inflight n < inflight (nodes r ! j))
            then Some (fst c) else best) cs)"

text \<open>\<^verbatim>\<open>copy(cands[1:i+1], cands[:i]); cands[0] = moved\<close>\<close>

definition promote :: "nat \<Rightarrow> 'a list \<Rightarrow> 'a list" where
  "promote i xs = (if i > 0 then xs ! i # take i xs @ drop (Suc i) xs else xs)"

text \<open>The candidates with the preferred one in front, and the choice among them.\<close>

definition ordered :: "int \<Rightarrow> 64 word \<Rightarrow> string \<Rightarrow> string list \<Rightarrow> scored list \<Rightarrow> router \<Rightarrow> scored list \<times> router" where
  "ordered now kh grp ex cands r =
     (if PlacementSize (opts r) > 0
      then (let (i, r2) = placeLocked now (mix64 (kh XOR hashString grp)) cands ex r in (promote i cands, r2))
      else (cands, r))"

definition choose_node :: "int \<Rightarrow> int \<Rightarrow> bool \<Rightarrow> scored list \<Rightarrow> router \<Rightarrow> (acquire_error + lease) \<times> router" where
  "choose_node now limit hold cands r2 =
     (case walk_cands now limit hold True False cands r2 of
        (Granted l, r3) \<Rightarrow> (Inr l, r3)
      | (PreferredBusy, r3) \<Rightarrow> (Inl errPreferredBusy, r3)
      | (Exhausted denied, r3) \<Rightarrow>
          (case least_loaded r3 None cands of
             Some j \<Rightarrow>
               (case tryLease now j r3 of
                  (Some l, r4) \<Rightarrow> (Inr l, r4)
                | (None, r4) \<Rightarrow> (Inl ErrNoNode, r4))
           | None \<Rightarrow> (Inl (if denied then ErrNoNode else errAtCapacity), r3)))"

definition tryPick :: "int \<Rightarrow> 64 word \<Rightarrow> string \<Rightarrow> (node \<Rightarrow> bool) \<Rightarrow> string list \<Rightarrow> bool \<Rightarrow> router
    \<Rightarrow> (acquire_error + lease) \<times> router" where
  "tryPick now kh grp flt exclude hold r0 =
     (let (ns, cs) = scan now kh grp flt exclude 0 (nodes r0);
          r1 = r0\<lparr>nodes := ns\<rparr>;
          tot = sum_list (map (\<lambda>c. inflight (ns ! fst c)) cs)
      in if cs = [] then (Inl ErrNoNode, r1)
         else let (cands, r2) = ordered now kh grp exclude (ranked cs) r1
              in choose_node now (bounded_limit (opts r2) tot (length cands)) hold cands r2)"

subsection \<open>Releasing a slot\<close>

definition release :: "nat \<Rightarrow> router \<Rightarrow> router" where
  "release i = upd_node i (\<lambda>n. n\<lparr>inflight := inflight n - 1\<rparr>)"

definition lease_Done :: "int \<Rightarrow> int \<Rightarrow> bool \<Rightarrow> lease \<Rightarrow> router \<Rightarrow> router" where
  "lease_Done now now' ok l r =
     release (lease_node l)
       (upd_node (lease_node l) (\<lambda>n. n\<lparr>br := map_option (Done now now' (lease_ticket l) ok) (br n)\<rparr>) r)"

definition lease_Release :: "lease \<Rightarrow> router \<Rightarrow> router" where
  "lease_Release l r =
     release (lease_node l) (upd_node (lease_node l) (\<lambda>n. n\<lparr>br := map_option (Cancel (lease_ticket l)) (br n)\<rparr>) r)"

subsection \<open>The admission queue\<close>

text \<open>
  \<^verbatim>\<open>Acquire\<close> is a loop around the pick that blocks between two attempts. A request is its arguments and the loop's variables;
  \<open>acq_try\<close> runs from taking the mutex to the outcome or to the \<^verbatim>\<open>select\<close>, \<open>acq_event\<close> from an arm of the \<^verbatim>\<open>select\<close> on.
\<close>

record request =
  req_key :: "64 word"
  req_group :: string
  req_filter :: "node \<Rightarrow> bool"
  req_exclude :: "string list"
  req_queued :: bool
  req_hold :: bool
  req_affinity :: bool

datatype acquire = Leased lease | Failed acquire_error | Waits request

datatype wakeup = Notify | AffinityEnd | Deadline | CtxDone

definition acq_try :: "int \<Rightarrow> request \<Rightarrow> router \<Rightarrow> acquire \<times> router" where
  "acq_try now q r =
     (case tryPick now (req_key q) (req_group q) (req_filter q) (req_exclude q) (req_hold q) r of
        (Inr l, r') \<Rightarrow> (Leased l, if req_queued q then r'\<lparr>waiting := waiting r' - 1\<rparr> else r')
      | (Inl e, r') \<Rightarrow>
          if e \<noteq> errAtCapacity \<and> e \<noteq> errPreferredBusy
          then (Failed e, if req_queued q then r'\<lparr>waiting := waiting r' - 1\<rparr> else r')
          else if \<not> req_queued q \<and> waiting r' \<ge> MaxQueue (opts r') then (Failed ErrQueueFull, r')
          else
            (let r'' = (if req_queued q then r' else r'\<lparr>waiting := waiting r' + 1\<rparr>)
             in (Waits (q\<lparr>req_queued := True, req_affinity := req_affinity q \<or> e = errPreferredBusy\<rparr>), r'')))"

definition new_request :: "router \<Rightarrow> string \<Rightarrow> string \<Rightarrow> (node \<Rightarrow> bool) \<Rightarrow> string list \<Rightarrow> request" where
  "new_request r prefixHash grp flt exclude =
     \<lparr>req_key = hashString prefixHash, req_group = grp, req_filter = flt, req_exclude = exclude, req_queued = False,
      req_hold = AffinityWait (opts r) > 0, req_affinity = False\<rparr>"

definition acq_event :: "int \<Rightarrow> wakeup \<Rightarrow> request \<Rightarrow> router \<Rightarrow> acquire \<times> router" where
  "acq_event now ev q r =
     (case ev of
        Notify \<Rightarrow> acq_try now q r
      | AffinityEnd \<Rightarrow> acq_try now (q\<lparr>req_hold := False, req_affinity := False\<rparr>) r
      | Deadline \<Rightarrow> (Failed ErrQueueTimeout, r\<lparr>waiting := waiting r - 1\<rparr>)
      | CtxDone \<Rightarrow> (Failed ErrContext, r\<lparr>waiting := waiting r - 1\<rparr>))"

text \<open>The readiness question and the status page ask the breakers too, and may advance them.\<close>

fun any_available :: "int \<Rightarrow> node list \<Rightarrow> bool \<times> node list" where
  "any_available now [] = (False, [])"
| "any_available now (n # ns) =
     (if EntryPoint n
      then (case node_available now n of
              (True, n') \<Rightarrow> (True, n' # ns)
            | (False, n') \<Rightarrow> (let (b, ns') = any_available now ns in (b, n' # ns')))
      else (let (b, ns') = any_available now ns in (b, n # ns')))"

definition AnyAvailable :: "int \<Rightarrow> router \<Rightarrow> bool \<times> router" where
  "AnyAvailable now r = (let (b, ns) = any_available now (nodes r) in (b, r\<lparr>nodes := ns\<rparr>))"

record node_status =
  st_name :: string
  st_group :: string
  st_role :: string
  st_up :: bool
  st_breaker :: state
  st_inflight :: int
  st_max :: int
  st_placed :: int

definition BreakerState :: "int \<Rightarrow> node \<Rightarrow> state \<times> node" where
  "BreakerState now n =
     (case br n of None \<Rightarrow> (Closed, n) | Some b \<Rightarrow> (let (st, b') = State now b in (st, n\<lparr>br := Some b'\<rparr>)))"

definition Snapshot :: "int \<Rightarrow> router \<Rightarrow> node_status list \<times> router" where
  "Snapshot now r =
     (map (\<lambda>n. \<lparr>st_name = Name n, st_group = Group n, st_role = Role n, st_up = up n, st_breaker = fst (BreakerState now n),
               st_inflight = inflight n, st_max = MaxConcurrent n, st_placed = placed n\<rparr>) (nodes r),
      r\<lparr>nodes := map (\<lambda>n. snd (BreakerState now n)) (nodes r)\<rparr>)"

definition QueueDepth :: "router \<Rightarrow> int" where
  "QueueDepth r = waiting r"

subsection \<open>Lemmas: the scan\<close>

lemma node_available_keeps: "snd (node_available now n) = n\<lparr>br := br (snd (node_available now n))\<rparr>"
  by (simp add: node_available_def split: option.splits prod.splits)

interpretation ngate: gate node_available node_allow
proof unfold_locales
  fix now n
  assume "fst (node_available now n)"
  then show "fst (node_allow now (snd (node_available now n))) \<noteq> None"
    using brk.avail_pass by (auto simp: node_available_def node_allow_def split: if_splits option.splits prod.splits) (metis fst_conv snd_conv)
next
  fix now n
  show "node_available now (snd (node_available now n)) = node_available now n"
    using brk.still_open by (auto simp: node_available_def split: option.splits prod.splits)
qed

definition is_cand :: "int \<Rightarrow> string \<Rightarrow> (node \<Rightarrow> bool) \<Rightarrow> string list \<Rightarrow> node \<Rightarrow> bool" where
  "is_cand now grp flt exclude n = (eligible grp flt exclude n \<and> fst (node_available now n))"

definition asked :: "int \<Rightarrow> string \<Rightarrow> (node \<Rightarrow> bool) \<Rightarrow> string list \<Rightarrow> node \<Rightarrow> node" where
  "asked now grp flt exclude n = (if eligible grp flt exclude n then snd (node_available now n) else n)"

lemma scan_eq:
  "scan now kh grp flt ex i ns =
     (map (asked now grp flt ex) ns,
      map (\<lambda>k. (i + k, score kh (nameHash (ns ! k)))) (filter (\<lambda>k. is_cand now grp flt ex (ns ! k)) [0..<length ns]))"
proof (induction ns arbitrary: i)
  case (Cons n ns)
  have "[0..<length (n # ns)] = 0 # map Suc [0..<length ns]" by (simp add: map_Suc_upt upt_conv_Cons del: upt_Suc)
  then show ?case using Cons.IH [of "Suc i"]
    by (auto simp: filter_map o_def is_cand_def asked_def split: prod.splits bool.splits)
qed simp

lemma asked_fields [simp]:
  "inflight (asked now grp flt ex n) = inflight n" "MaxConcurrent (asked now grp flt ex n) = MaxConcurrent n"
  "placed (asked now grp flt ex n) = placed n" "Name (asked now grp flt ex n) = Name n" "up (asked now grp flt ex n) = up n"
  "nameHash (asked now grp flt ex n) = nameHash n"
  by (auto simp: asked_def node_available_def split: option.splits prod.splits)

subsection \<open>Lemmas: loads\<close>

text \<open>The abstract view of the router as a capacity allocator: the load and the limit of every node.\<close>

definition loads :: "router \<Rightarrow> int list" where
  "loads r = map inflight (nodes r)"

definition caps :: "router \<Rightarrow> int list" where
  "caps r = map MaxConcurrent (nodes r)"

definition frame :: "router \<Rightarrow> options \<times> int \<times> int list \<times> string list" where
  "frame r = (opts r, waiting r, caps r, map Name (nodes r))"

lemma map_upd_same: "g (f (xs ! i)) = g (xs ! i) \<Longrightarrow> map g (xs[i := f (xs ! i)]) = map g xs"
  by (cases "i < length xs") (auto simp: map_update list_update_same_conv list_update_beyond)

lemma loads_upd: "inflight (f (nodes r ! i)) = inflight (nodes r ! i) \<Longrightarrow> loads (upd_node i f r) = loads r"
  by (simp add: loads_def upd_node_def map_upd_same)

lemma frame_upd:
  "MaxConcurrent (f (nodes r ! i)) = MaxConcurrent (nodes r ! i) \<Longrightarrow> Name (f (nodes r ! i)) = Name (nodes r ! i) \<Longrightarrow>
   frame (upd_node i f r) = frame r"
  by (simp add: frame_def caps_def upd_node_def map_upd_same)

lemma loads_frame_placed [simp]:
  "loads (add_placed i d r) = loads r" "frame (add_placed i d r) = frame r"
  by (simp_all add: add_placed_def loads_upd frame_upd)

lemma loads_frame_lru [simp]:
  "loads (r\<lparr>placeLRU := l\<rparr>) = loads r" "frame (r\<lparr>placeLRU := l\<rparr>) = frame r"
  by (simp_all add: loads_def frame_def caps_def)

lemma loads_frame_evict [simp]: "loads (evict fuel r) = loads r" "frame (evict fuel r) = frame r"
  by (induction fuel r rule: evict.induct) simp_all

lemma loads_frame_setPlacement [simp]: "loads (setPlacement key i r) = loads r" "frame (setPlacement key i r) = frame r"
  by (simp_all add: setPlacement_def Let_def split: option.splits)

lemma loads_frame_available [simp]:
  "loads (upd_node i (\<lambda>_. snd (node_available now (nodes r ! i))) r) = loads r"
  "frame (upd_node i (\<lambda>_. snd (node_available now (nodes r ! i))) r) = frame r"
  by (rule loads_upd frame_upd; subst node_available_keeps; simp)+

lemma loads_frame_place:
  "placeLocked now key cands ex r = (i, r') \<Longrightarrow> loads r' = loads r \<and> frame r' = frame r"
  by (auto simp: placeLocked_def Let_def case_prod_beta' split: option.splits if_splits)


lemma frame_len: "frame r' = frame r \<Longrightarrow> length (nodes r') = length (nodes r) \<and> caps r' = caps r \<and> opts r' = opts r \<and> waiting r' = waiting r"
  by (auto simp: frame_def caps_def dest: arg_cong [of _ _ length])

lemma node_allow_keeps: "snd (node_allow now n) = n\<lparr>br := br (snd (node_allow now n))\<rparr>"
  by (simp add: node_allow_def split: option.splits prod.splits)

text \<open>A grant adds one to the load of one node and changes nothing else of the loads and of the frame.\<close>

definition granted :: "router \<Rightarrow> nat \<Rightarrow> router \<Rightarrow> bool" where
  "granted r i r' \<longleftrightarrow> i < length (nodes r) \<and> frame r' = frame r \<and> loads r' = (loads r)[i := loads r ! i + 1]"

definition untouched :: "router \<Rightarrow> router \<Rightarrow> bool" where
  "untouched r r' \<longleftrightarrow> frame r' = frame r \<and> loads r' = loads r"

lemma untouched_refl [simp]: "untouched r r"
  by (simp add: untouched_def)

lemma untouched_trans: "untouched r r' \<Longrightarrow> untouched r' r'' \<Longrightarrow> untouched r r''"
  by (simp add: untouched_def)

lemma untouched_same:
  "untouched r r' \<Longrightarrow> length (nodes r') = length (nodes r)" "untouched r r' \<Longrightarrow> caps r' = caps r"
  "untouched r r' \<Longrightarrow> loads r' = loads r" "untouched r r' \<Longrightarrow> opts r' = opts r" "untouched r r' \<Longrightarrow> waiting r' = waiting r"
  by (auto simp: untouched_def dest!: frame_len)

lemma untouched_granted: "untouched r r' \<Longrightarrow> granted r' i r'' \<Longrightarrow> granted r i r''"
  by (auto simp: untouched_def granted_def dest: frame_len)

text \<open>Looking at the nodes changes their breakers only.\<close>

lemma br_only_fields:
  "n' = n\<lparr>br := b\<rparr> \<Longrightarrow> inflight n' = inflight n \<and> MaxConcurrent n' = MaxConcurrent n \<and> Name n' = Name n \<and> placed n' = placed n"
  by simp

lemma any_available_keeps:
  "list_all2 (\<lambda>n' n. inflight n' = inflight n \<and> MaxConcurrent n' = MaxConcurrent n \<and> Name n' = Name n \<and> placed n' = placed n)
     (snd (any_available now ns)) ns"
proof (induction ns)
  case (Cons n ns)
  obtain b n' where a: "node_available now n = (b, n')" by force
  have "n' = n\<lparr>br := br n'\<rparr>" using node_available_keeps [of now n] by (simp add: a)
  from br_only_fields [OF this] Cons show ?case
    by (cases b) (auto simp: a split: prod.splits intro: list_all2_refl)
qed simp

lemma BreakerState_keeps: "snd (BreakerState now n) = n\<lparr>br := br (snd (BreakerState now n))\<rparr>"
  by (simp add: BreakerState_def split: option.splits prod.splits)

lemma observe_keeps:
  assumes "r' \<in> {snd (AnyAvailable now r), snd (Snapshot now r)}"
  shows "untouched r r' \<and> map placed (nodes r') = map placed (nodes r) \<and> placeLRU r' = placeLRU r"
proof -
  have s: "list_all2 (\<lambda>n' n. inflight n' = inflight n \<and> MaxConcurrent n' = MaxConcurrent n \<and> Name n' = Name n \<and> placed n' = placed n)
     (map (\<lambda>n. snd (BreakerState now n)) (nodes r)) (nodes r)"
    using br_only_fields [OF BreakerState_keeps] by (auto simp: list_all2_conv_all_nth)
  obtain ns where r: "r' = r\<lparr>nodes := ns\<rparr>" and "list_all2 (\<lambda>n' n. inflight n' = inflight n \<and> MaxConcurrent n' = MaxConcurrent n
      \<and> Name n' = Name n \<and> placed n' = placed n) ns (nodes r)"
    using assms s any_available_keeps [of now "nodes r"] by (auto simp: AnyAvailable_def Snapshot_def split: prod.splits)
  then have "map inflight ns = map inflight (nodes r)" "map MaxConcurrent ns = map MaxConcurrent (nodes r)" "map Name ns = map Name (nodes r)"
    "map placed ns = map placed (nodes r)" by (auto simp: list_all2_conv_all_nth intro: nth_equalityI)
  with r show ?thesis by (simp add: untouched_def frame_def loads_def caps_def)
qed

lemma tryLease_effect:
  assumes "tryLease now i r = (lo, r')" "i < length (nodes r)"
  shows "case lo of Some l \<Rightarrow> lease_node l = i \<and> granted r i r' | None \<Rightarrow> untouched r r'"
proof -
  obtain t n' where n': "node_allow now (nodes r ! i) = (t, n')" by force
  have k: "inflight n' = inflight (nodes r ! i)" "MaxConcurrent n' = MaxConcurrent (nodes r ! i)" "Name n' = Name (nodes r ! i)"
    using node_allow_keeps [of now "nodes r ! i"] by (simp_all add: n') (metis node.select_convs node.surjective node.update_convs(10))+
  show ?thesis
    using assms k
    by (auto simp: tryLease_def n' granted_def untouched_def frame_upd loads_upd loads_def upd_node_def map_update
        frame_def caps_def list_update_same_conv split: option.splits)
qed

lemma walk_effect:
  assumes "walk_cands now limit hold first denied cs r = (w, r')" "\<forall>c \<in> set cs. fst c < length (nodes r)"
  shows "case w of Granted l \<Rightarrow> lease_node l \<in> fst ` set cs \<and> loads r ! lease_node l < caps r ! lease_node l \<and> granted r (lease_node l) r'
      | _ \<Rightarrow> untouched r r'"
  using assms
proof (induction cs arbitrary: r first denied)
  case (Cons c cs)
  obtain lo r1 where l: "tryLease now (fst c) r = (lo, r1)" by force
  have e: "case lo of Some l \<Rightarrow> lease_node l = fst c \<and> granted r (fst c) r1 | None \<Rightarrow> untouched r r1"
    using tryLease_effect [OF l] Cons.prems by simp
  let ?n = "nodes r ! fst c"
  consider (low) "inflight ?n < min (MaxConcurrent ?n) limit" | (high) "\<not> inflight ?n < min (MaxConcurrent ?n) limit" by blast
  then show ?case
  proof cases
    case low
    show ?thesis
    proof (cases lo)
      case (Some l')
      with low l Cons.prems e show ?thesis by (auto simp: loads_def caps_def)
    next
      case None
      with e have u: "untouched r r1" by simp
      have w: "walk_cands now limit hold False True cs r1 = (w, r')" using low l None Cons.prems by simp
      have i: "loads r1 = loads r" "caps r1 = caps r" "length (nodes r1) = length (nodes r)"
        using u by (simp_all add: untouched_same)
      have b: "\<forall>c \<in> set cs. fst c < length (nodes r1)" using i Cons.prems(2) by simp
      from Cons.IH [OF w b] show ?thesis
        by (cases w) (auto simp: i intro: untouched_granted [OF u] untouched_trans [OF u])
    qed
  next
    case high
    then show ?thesis
      using Cons.prems Cons.IH [of False denied r] by (auto split: if_splits walk.splits)
  qed
qed auto


lemma least_loaded_some:
  "least_loaded r best cs = Some j \<Longrightarrow> best = Some j \<or> j \<in> fst ` set cs \<and> inflight (nodes r ! j) < MaxConcurrent (nodes r ! j)"
  by (induction r best cs rule: least_loaded.induct) (auto simp: Let_def split: if_splits)

lemma set_promote: "i < length xs \<Longrightarrow> set (promote i xs) = set xs"
proof -
  assume i: "i < length xs"
  then have "set xs = set (take i xs @ xs ! i # drop (Suc i) xs)" by (simp add: id_take_nth_drop [symmetric])
  with i show ?thesis by (auto simp: promote_def)
qed

lemma least_from_less: "best < n \<Longrightarrow> i + length cs \<le> n \<Longrightarrow> least_from r cands best i cs < n"
  by (induction cs arbitrary: best i) (auto simp: Let_def)

lemma leastPlaced_less: "cands \<noteq> [] \<Longrightarrow> leastPlaced r cands < length cands"
  unfolding leastPlaced_def by (rule least_from_less) (auto simp: neq_Nil_conv)

lemma index_of_some: "index_of j cs = Some i \<Longrightarrow> i < length cs \<and> fst (cs ! i) = j"
  by (induction cs arbitrary: i) (auto split: if_splits)

lemma index_of_none: "index_of j cs = None \<longleftrightarrow> j \<notin> fst ` set cs"
  by (induction cs) (auto split: if_splits)

lemma place_index: "placeLocked now key cands ex r = (i, r') \<Longrightarrow> cands \<noteq> [] \<Longrightarrow> i < length cands"
  by (auto simp: placeLocked_def Let_def case_prod_beta' leastPlaced_less dest: index_of_some split: option.splits if_splits)

lemma set_ranked [simp]: "set (ranked cs) = set cs"
  by (simp add: ranked_def)

lemma ranked_Nil [simp]: "ranked cs = [] \<longleftrightarrow> cs = []"
  by (metis set_empty set_ranked)

lemma length_ranked [simp]: "length (ranked cs) = length cs"
  by (simp add: ranked_def)

text \<open>The outcome of the scan in closed form.\<close>

definition cands_of :: "int \<Rightarrow> 64 word \<Rightarrow> string \<Rightarrow> (node \<Rightarrow> bool) \<Rightarrow> string list \<Rightarrow> router \<Rightarrow> scored list" where
  "cands_of now kh grp flt ex r =
     map (\<lambda>k. (k, score kh (nameHash (nodes r ! k)))) (filter (\<lambda>k. is_cand now grp flt ex (nodes r ! k)) [0..<length (nodes r)])"

definition scanned :: "int \<Rightarrow> string \<Rightarrow> (node \<Rightarrow> bool) \<Rightarrow> string list \<Rightarrow> router \<Rightarrow> router" where
  "scanned now grp flt ex r = r\<lparr>nodes := map (asked now grp flt ex) (nodes r)\<rparr>"

lemma tryPick_parts:
  "tryPick now kh grp flt ex hold r =
     (let cs = cands_of now kh grp flt ex r; r1 = scanned now grp flt ex r
      in if cs = [] then (Inl ErrNoNode, r1)
         else let (cands, r2) = ordered now kh grp ex (ranked cs) r1
              in choose_node now (bounded_limit (opts r2) (sum_list (map (\<lambda>c. loads r ! fst c) cs)) (length cands)) hold cands r2)"
proof -
  have "sum_list (map (\<lambda>c. inflight (map (asked now grp flt ex) (nodes r) ! fst c)) cs) = sum_list (map (\<lambda>c. loads r ! fst c) cs)"
    if "set cs \<subseteq> set (cands_of now kh grp flt ex r)" for cs
    using that by (intro arg_cong [where f = sum_list] map_cong) (auto simp: cands_of_def loads_def)
  then show ?thesis
    by (simp add: tryPick_def scan_eq cands_of_def [symmetric] scanned_def [symmetric] Let_def)
qed

lemma untouched_scanned: "untouched r (scanned now grp flt ex r)"
  by (auto simp: untouched_def scanned_def frame_def caps_def loads_def o_def)

lemma ordered_effect:
  assumes "ordered now kh grp ex cs r = (cands, r')" "cs \<noteq> []"
  shows "untouched r r' \<and> set cands = set cs"
proof (cases "PlacementSize (opts r) > 0")
  case True
  obtain i r2 where p: "placeLocked now (mix64 (kh XOR hashString grp)) cs ex r = (i, r2)" by force
  with True assms show ?thesis
    using loads_frame_place [OF p] place_index [OF p] by (auto simp: ordered_def untouched_def set_promote)
qed (use assms in \<open>auto simp: ordered_def\<close>)

lemma choose_node_effect:
  assumes "choose_node now limit hold cands r = (res, r')" "\<forall>c \<in> set cands. fst c < length (nodes r)"
  shows "case res of Inr l \<Rightarrow> lease_node l \<in> fst ` set cands \<and> loads r ! lease_node l < caps r ! lease_node l \<and> granted r (lease_node l) r'
      | Inl _ \<Rightarrow> untouched r r'"
proof -
  obtain w r3 where w: "walk_cands now limit hold True False cands r = (w, r3)" by force
  note e = walk_effect [OF w assms(2)]
  show ?thesis
  proof (cases w)
    case (Exhausted denied)
    with e have u: "untouched r r3" by simp
    show ?thesis
    proof (cases "least_loaded r3 None cands")
      case None
      with assms(1) w Exhausted u show ?thesis by (auto simp: choose_node_def)
    next
      case (Some j)
      have j: "j \<in> fst ` set cands" "inflight (nodes r3 ! j) < MaxConcurrent (nodes r3 ! j)"
        using least_loaded_some [OF Some] by auto
      then have jl: "j < length (nodes r3)" using assms(2) u by (auto simp: untouched_same)
      have lt: "loads r ! j < caps r ! j"
        using j jl untouched_same(2,3) [OF u] by (metis (no_types) caps_def loads_def nth_map)
      obtain lo r4 where l: "tryLease now j r3 = (lo, r4)" by force
      show ?thesis
      proof (cases lo)
        case None
        with tryLease_effect [OF l jl] assms(1) w Exhausted Some l show ?thesis
          by (auto simp: choose_node_def intro: untouched_trans [OF u])
      next
        case (Some l')
        then have l': "lease_node l' = j" "granted r j r4" "res = Inr l'" "r' = r4"
          using tryLease_effect [OF l jl] assms(1) w Exhausted \<open>least_loaded r3 None cands = Some j\<close> l
          by (auto simp: choose_node_def intro: untouched_granted [OF u])
        with j lt show ?thesis by simp
      qed
    qed
  next
    case (Granted l)
    with assms(1) w have "res = Inr l" "r' = r3" by (simp_all add: choose_node_def)
    with e Granted show ?thesis by simp
  next
    case PreferredBusy
    with assms(1) w e show ?thesis by (auto simp: choose_node_def)
  qed
qed

lemma cands_of_bound: "c \<in> set (cands_of now kh grp flt ex r) \<Longrightarrow> fst c < length (nodes r) \<and> is_cand now grp flt ex (nodes r ! fst c)"
  by (auto simp: cands_of_def)

lemma tryPick_effect:
  assumes "tryPick now kh grp flt ex hold r = (res, r')"
  shows "case res of Inr l \<Rightarrow> is_cand now grp flt ex (nodes r ! lease_node l) \<and> loads r ! lease_node l < caps r ! lease_node l
      \<and> granted r (lease_node l) r' | Inl _ \<Rightarrow> untouched r r'"
proof (cases "cands_of now kh grp flt ex r = []")
  case True
  with assms show ?thesis by (auto simp: tryPick_parts untouched_scanned)
next
  case False
  let ?cs = "cands_of now kh grp flt ex r"
  obtain cands r2 where o: "ordered now kh grp ex (ranked ?cs) (scanned now grp flt ex r) = (cands, r2)" by force
  have u: "untouched r r2" and s: "set cands = set ?cs"
    using ordered_effect [OF o] False by (auto intro: untouched_trans [OF untouched_scanned])
  have b: "\<forall>c \<in> set cands. fst c < length (nodes r2)"
    using cands_of_bound u by (simp add: s untouched_same)
  from assms False o have
    "choose_node now (bounded_limit (opts r2) (sum_list (map (\<lambda>c. loads r ! fst c) ?cs)) (length cands)) hold cands r2 = (res, r')"
    by (simp add: tryPick_parts)
  from choose_node_effect [OF this b] show ?thesis
    by (auto simp: s untouched_same [OF u] dest: cands_of_bound split: sum.splits
        intro: untouched_granted [OF u] untouched_trans [OF u])
qed

end
