(* ===== verification/Router_Admission.thy ===== *)
theory Router_Admission
  imports Router
begin

section \<open>Admission: every interleaving of requests\<close>

text \<open>
  The gateway's requests run concurrently; what they do to the router happens in critical sections under its mutex. A state of the
  machine is the router, the leases that were granted and not yet given back, and the requests blocked in the \<^verbatim>\<open>select\<close> of
  \<^verbatim>\<open>Acquire\<close>. A step is one critical section of one request, the end of a lease, a change of a node's health, or
  a look at the nodes from outside (the readiness question, the status page), which may advance breakers.
\<close>

subsection \<open>The machine\<close>

type_synonym gateway = "router \<times> lease list \<times> request list"

fun settle :: "acquire \<Rightarrow> lease list \<Rightarrow> request list \<Rightarrow> lease list \<times> request list" where
  "settle (Leased l) ls ws = (l # ls, ws)"
| "settle (Failed e) ls ws = (ls, ws)"
| "settle (Waits q) ls ws = (ls, q # ws)"

text \<open>The arm for the end of the affinity wait can only fire when its timer was started: a nil channel blocks for ever.\<close>

inductive rstep :: "gateway \<Rightarrow> gateway \<Rightarrow> bool" where
  arrive: "acq_try now (new_request r prefix grp flt ex) r = (a, r') \<Longrightarrow> settle a ls ws = (ls', ws')
    \<Longrightarrow> rstep (r, ls, ws) (r', ls', ws')"
| wake: "acq_event now ev q r = (a, r') \<Longrightarrow> ev = AffinityEnd \<longrightarrow> req_affinity q \<Longrightarrow> settle a ls (us @ vs) = (ls', ws')
    \<Longrightarrow> rstep (r, ls, us @ q # vs) (r', ls', ws')"
| finish: "rstep (r, us @ l # vs, ws) (lease_Done now now' ok l r, us @ vs, ws)"
| giveup: "rstep (r, us @ l # vs, ws) (lease_Release l r, us @ vs, ws)"
| health: "rstep (r, ls, ws) (upd_node i (\<lambda>n. n\<lparr>up := v\<rparr>) r, ls, ws)"
| observe: "r' \<in> {snd (AnyAvailable now r), snd (Snapshot now r)} \<Longrightarrow> rstep (r, ls, ws) (r', ls, ws)"

inductive_cases rstepE: "rstep s s'"

fun rinit :: "gateway \<Rightarrow> bool" where
  "rinit (r, ls, ws) \<longleftrightarrow> ls = [] \<and> ws = [] \<and> waiting r = 0 \<and> (\<forall>n \<in> set (nodes r). inflight n = 0)"

definition held :: "nat \<Rightarrow> lease list \<Rightarrow> int" where
  "held i ls = int (length (filter (\<lambda>l. lease_node l = i) ls))"

definition slots_ok :: "router \<Rightarrow> lease list \<Rightarrow> bool" where
  "slots_ok r ls \<longleftrightarrow>
     (\<forall>l \<in> set ls. lease_node l < length (loads r))
     \<and> (\<forall>i < length (loads r). loads r ! i = held i ls \<and> loads r ! i \<le> max 0 (caps r ! i))"

definition queue_ok :: "router \<Rightarrow> request list \<Rightarrow> bool" where
  "queue_ok r ws \<longleftrightarrow>
     waiting r = int (length ws) \<and> waiting r \<le> max 0 (MaxQueue (opts r)) \<and> (\<forall>q \<in> set ws. req_queued q)"

fun rinv :: "gateway \<Rightarrow> bool" where
  "rinv (r, ls, ws) \<longleftrightarrow> slots_ok r ls \<and> queue_ok r ws"

subsection \<open>The abstract allocator\<close>

text \<open>
  What the router promises to its clients, with hashing, health, breakers and placement forgotten: slots on nodes that never exceed the
  node's capacity, and a queue that never exceeds its bound.
\<close>

record allocator =
  capacity :: "int list"
  queue_max :: int
  used :: "int list"
  queued :: int

definition alloc_of :: "gateway \<Rightarrow> allocator" where
  "alloc_of s = (case s of (r, ls, ws) \<Rightarrow>
     \<lparr>capacity = caps r, queue_max = MaxQueue (opts r), used = loads r, queued = waiting r\<rparr>)"

inductive astep :: "allocator \<Rightarrow> allocator \<Rightarrow> bool" where
  grant: "i < length (used a) \<Longrightarrow> used a ! i < capacity a ! i \<Longrightarrow> astep a (a\<lparr>used := (used a)[i := used a ! i + 1]\<rparr>)"
| dequeue: "i < length (used a) \<Longrightarrow> used a ! i < capacity a ! i \<Longrightarrow> 0 < queued a
    \<Longrightarrow> astep a (a\<lparr>used := (used a)[i := used a ! i + 1], queued := queued a - 1\<rparr>)"
| enqueue: "queued a < queue_max a \<Longrightarrow> astep a (a\<lparr>queued := queued a + 1\<rparr>)"
| leave: "0 < queued a \<Longrightarrow> astep a (a\<lparr>queued := queued a - 1\<rparr>)"
| free: "i < length (used a) \<Longrightarrow> 0 < used a ! i \<Longrightarrow> astep a (a\<lparr>used := (used a)[i := used a ! i - 1]\<rparr>)"
| idle: "astep a a"

subsection \<open>Effects of the critical sections\<close>

lemma loads_waiting [simp]: "loads (r\<lparr>waiting := w\<rparr>) = loads r" "caps (r\<lparr>waiting := w\<rparr>) = caps r"
  by (simp_all add: loads_def caps_def)

lemma length_loads [simp]: "length (loads r) = length (nodes r)" "length (caps r) = length (nodes r)"
  by (simp_all add: loads_def caps_def)

lemma granted_same:
  "granted r i r' \<Longrightarrow> caps r' = caps r" "granted r i r' \<Longrightarrow> opts r' = opts r" "granted r i r' \<Longrightarrow> waiting r' = waiting r"
  "granted r i r' \<Longrightarrow> loads r' = (loads r)[i := loads r ! i + 1]" "granted r i r' \<Longrightarrow> i < length (nodes r)"
  by (auto simp: granted_def dest!: frame_len)

lemma acq_try_effect:
  assumes "acq_try now q r = (a, r')"
  shows "caps r' = caps r \<and> opts r' = opts r \<and>
    (case a of
       Leased l \<Rightarrow> lease_node l < length (nodes r) \<and> loads r ! lease_node l < caps r ! lease_node l
         \<and> loads r' = (loads r)[lease_node l := loads r ! lease_node l + 1] \<and> waiting r' = waiting r - (if req_queued q then 1 else 0)
     | Failed e \<Rightarrow> loads r' = loads r \<and> waiting r' = waiting r - (if req_queued q then 1 else 0)
     | Waits q' \<Rightarrow> loads r' = loads r \<and> req_queued q'
         \<and> (if req_queued q then waiting r' = waiting r else waiting r' = waiting r + 1 \<and> waiting r < MaxQueue (opts r)))"
proof -
  obtain res r1 where p: "tryPick now (req_key q) (req_group q) (req_filter q) (req_exclude q) (req_hold q) r = (res, r1)" by force
  show ?thesis
  proof (cases res)
    case (Inl e)
    with tryPick_effect [OF p] have u: "untouched r r1" by simp
    from assms p Inl untouched_same [OF u] show ?thesis
      by (auto simp: acq_try_def Let_def split: if_splits)
  next
    case (Inr l)
    with tryPick_effect [OF p] have g: "granted r (lease_node l) r1" "loads r ! lease_node l < caps r ! lease_node l" by simp_all
    from assms p Inr g(2) granted_same [OF g(1)] show ?thesis
      by (auto simp: acq_try_def)
  qed
qed

lemma acq_event_effect:
  assumes "acq_event now ev q r = (a, r')" "req_queued q"
  shows "caps r' = caps r \<and> opts r' = opts r \<and>
    (case a of
       Leased l \<Rightarrow> lease_node l < length (nodes r) \<and> loads r ! lease_node l < caps r ! lease_node l
         \<and> loads r' = (loads r)[lease_node l := loads r ! lease_node l + 1] \<and> waiting r' = waiting r - 1
     | Failed e \<Rightarrow> loads r' = loads r \<and> waiting r' = waiting r - 1
     | Waits q' \<Rightarrow> loads r' = loads r \<and> req_queued q' \<and> waiting r' = waiting r)"
  using assms acq_try_effect [of now q r a r'] acq_try_effect [of now "q\<lparr>req_hold := False, req_affinity := False\<rparr>" r a r']
  by (cases ev; cases a) (auto simp: acq_event_def)

lemma freed:
  fixes l :: lease
  assumes "lease_node l < length (nodes r)"
  shows "r' = lease_Done now now' ok l r \<or> r' = lease_Release l r \<Longrightarrow>
    loads r' = (loads r)[lease_node l := loads r ! lease_node l - 1] \<and> caps r' = caps r \<and> opts r' = opts r \<and> waiting r' = waiting r"
  using assms by (auto simp: lease_Done_def lease_Release_def release_def upd_node_def loads_def caps_def map_update list_update_same_conv)

lemma health_effect:
  "loads (upd_node i (\<lambda>n. n\<lparr>up := v\<rparr>) r) = loads r" "caps (upd_node i (\<lambda>n. n\<lparr>up := v\<rparr>) r) = caps r"
  "opts (upd_node i f r) = opts r" "waiting (upd_node i f r) = waiting r" "length (nodes (upd_node i f r)) = length (nodes r)"
  by (simp_all add: loads_def caps_def upd_node_def map_upd_same)

subsection \<open>Acquire as a whole\<close>

text \<open>
  One call of \<^verbatim>\<open>Acquire\<close>: the script gives, for every wake-up, the clock, the arm of the \<^verbatim>\<open>select\<close> that fired and the router as the other
  requests left it. \<open>None\<close> means that the call is still blocked at the end of the script.
\<close>

fun acquire_from :: "acquire \<times> router \<Rightarrow> (int \<times> wakeup \<times> router) list \<Rightarrow> (acquire_error + lease \<times> router) option" where
  "acquire_from (Leased l, r) script = Some (Inr (l, r))"
| "acquire_from (Failed e, r) script = Some (Inl e)"
| "acquire_from (Waits q, r) [] = None"
| "acquire_from (Waits q, r) ((now, ev, r') # script) = acquire_from (acq_event now ev q r') script"

definition Acquire :: "int \<Rightarrow> router \<Rightarrow> string \<Rightarrow> string \<Rightarrow> string list \<Rightarrow> (int \<times> wakeup \<times> router) list
    \<Rightarrow> (acquire_error + lease \<times> router) option" where
  "Acquire now r prefixHash grp ex script =
     acquire_from (acq_try now (new_request r prefixHash grp EntryPoint ex) r) script"

definition fresh_outcome :: "string list \<Rightarrow> acquire \<times> router \<Rightarrow> bool" where
  "fresh_outcome ex ar = (case ar of
     (Leased l, r) \<Rightarrow> Name (nodes r ! lease_node l) \<notin> set ex | (Failed e, r) \<Rightarrow> True | (Waits q, r) \<Rightarrow> req_exclude q = ex)"

lemma granted_name:
  assumes "granted r i r'"
  shows "Name (nodes r' ! i) = Name (nodes r ! i)"
proof -
  have m: "map Name (nodes r') = map Name (nodes r)" using assms by (simp add: granted_def frame_def)
  then have "length (nodes r') = length (nodes r)" by (rule map_eq_imp_length_eq)
  then show ?thesis using arg_cong [OF m, of "\<lambda>xs. xs ! i"] assms by (simp add: granted_def)
qed

lemma acq_try_fresh: "fresh_outcome (req_exclude q) (acq_try now q r)"
proof -
  obtain res r1 where p: "tryPick now (req_key q) (req_group q) (req_filter q) (req_exclude q) (req_hold q) r = (res, r1)" by force
  show ?thesis
  proof (cases res)
    case (Inl e)
    with p show ?thesis by (simp add: acq_try_def fresh_outcome_def Let_def)
  next
    case (Inr l)
    with tryPick_effect [OF p] have g: "granted r (lease_node l) r1" "Name (nodes r ! lease_node l) \<notin> set (req_exclude q)"
      by (simp_all add: is_cand_def eligible_def)
    note granted_name [OF g(1)]
    with g p Inr show ?thesis by (simp add: acq_try_def fresh_outcome_def)
  qed
qed

lemma acq_event_fresh: "fresh_outcome (req_exclude q) (acq_event now ev q r)"
  using acq_try_fresh [of q now r] acq_try_fresh [of "q\<lparr>req_hold := False, req_affinity := False\<rparr>" now r]
  by (cases ev) (simp_all add: acq_event_def fresh_outcome_def)

lemma acquire_from_fresh:
  "fresh_outcome ex ar \<Longrightarrow> acquire_from ar script = Some (Inr (l, r)) \<Longrightarrow> Name (nodes r ! lease_node l) \<notin> set ex"
proof (induction ar script rule: acquire_from.induct)
  case (4 q r now ev r' script)
  then show ?case using acq_event_fresh [of q now ev r'] by (simp add: fresh_outcome_def)
qed (auto simp: fresh_outcome_def)

lemma Acquire_fresh: "Acquire now r prefixHash grp ex script = Some (Inr (l, r')) \<Longrightarrow> Name (nodes r' ! lease_node l) \<notin> set ex"
  unfolding Acquire_def
  using acquire_from_fresh acq_try_fresh [of "new_request r prefixHash grp EntryPoint ex" now r] by (auto simp: new_request_def)

subsection \<open>The invariant\<close>

lemma slots_grant:
  assumes "slots_ok r ls" "lease_node l < length (nodes r)" "loads r ! lease_node l < caps r ! lease_node l"
    "loads r' = (loads r)[lease_node l := loads r ! lease_node l + 1]" "caps r' = caps r"
  shows "slots_ok r' (l # ls)"
  using assms by (auto simp: slots_ok_def held_def nth_list_update)

lemma slots_free:
  assumes "slots_ok r (us @ l # vs)" "loads r' = (loads r)[lease_node l := loads r ! lease_node l - 1]" "caps r' = caps r"
  shows "slots_ok r' (us @ vs)"
  using assms by (auto simp: slots_ok_def held_def nth_list_update)

lemma slots_same: "slots_ok r ls \<Longrightarrow> loads r' = loads r \<Longrightarrow> caps r' = caps r \<Longrightarrow> slots_ok r' ls"
  by (auto simp: slots_ok_def)

lemma slots_lease: "slots_ok r (us @ l # vs) \<Longrightarrow> lease_node l < length (nodes r) \<and> 0 < loads r ! lease_node l"
  by (auto simp: slots_ok_def held_def)

lemma queue_same: "queue_ok r ws \<Longrightarrow> waiting r' = waiting r \<Longrightarrow> opts r' = opts r \<Longrightarrow> queue_ok r' ws"
  by (simp add: queue_ok_def)

lemma queue_head: "queue_ok r (us @ q # vs) \<Longrightarrow> req_queued q \<and> 0 < waiting r"
  by (simp add: queue_ok_def)

lemma queue_leave: "queue_ok r (us @ q # vs) \<Longrightarrow> waiting r' = waiting r - 1 \<Longrightarrow> opts r' = opts r \<Longrightarrow> queue_ok r' (us @ vs)"
  by (auto simp: queue_ok_def)

lemma rinv_init: "rinit s \<Longrightarrow> rinv s"
  by (cases s) (auto simp: slots_ok_def queue_ok_def held_def loads_def)

lemma rinv_step: "rstep s s' \<Longrightarrow> rinv s \<Longrightarrow> rinv s'"
proof (induction rule: rstep.induct)
  case (arrive now r prefix grp flt ex a r' ls ws ls' ws')
  from acq_try_effect [OF arrive(1)] arrive(2,3) show ?case
    by (cases a) (auto simp: new_request_def queue_ok_def intro: slots_same slots_grant)
next
  case (wake now ev q r a r' ls us vs ls' ws')
  have q: "req_queued q" using wake.prems queue_head by auto
  from acq_event_effect [OF wake(1) q] wake(3) wake.prems show ?case
    by (cases a) (auto intro: slots_same slots_grant queue_leave simp: queue_ok_def)
next
  case (finish r us l vs ws now now' ok)
  then have "slots_ok r (us @ l # vs)" by simp
  note f = freed [OF slots_lease [OF this, THEN conjunct1], OF disjI1, OF refl]
  from finish f show ?case by (auto intro: queue_same slots_free)
next
  case (giveup r us l vs ws)
  then have "slots_ok r (us @ l # vs)" by simp
  note f = freed [OF slots_lease [OF this, THEN conjunct1], OF disjI2, OF refl]
  from giveup f show ?case by (auto intro: queue_same slots_free)
next
  case (health r ls ws i v)
  then show ?case by (auto simp: health_effect intro: slots_same queue_same)
next
  case (observe r' now r ls ws)
  then have "untouched r r'" using observe_keeps by blast
  with observe(2) show ?case using untouched_same [of r r'] by (auto intro: slots_same queue_same)
qed

interpretation admission: machine rinit rstep rinv
  by unfold_locales (auto intro: rinv_init rinv_step)

subsection \<open>Refinement\<close>

lemma astep_of_step: "rstep s s' \<Longrightarrow> rinv s \<Longrightarrow> astep (alloc_of s) (alloc_of s')"
proof (induction rule: rstep.induct)
  case (arrive now r prefix grp flt ex a r' ls ws ls' ws')
  let ?a = "alloc_of (r, ls, ws)"
  from acq_try_effect [OF arrive(1)] arrive(2) show ?case
    using grant [of _ ?a] enqueue [of ?a] idle [of ?a] by (cases a) (auto simp: alloc_of_def new_request_def)
next
  case (wake now ev q r a r' ls us vs ls' ws')
  let ?a = "alloc_of (r, ls, us @ q # vs)"
  have q: "req_queued q" "0 < waiting r" using wake.prems queue_head by auto
  from acq_event_effect [OF wake(1) q(1)] q(2) wake(3) show ?case
    using dequeue [of _ ?a] leave [of ?a] idle [of ?a] by (cases a) (auto simp: alloc_of_def)
next
  case (finish r us l vs ws now now' ok)
  then have s: "lease_node l < length (nodes r)" "0 < loads r ! lease_node l" using slots_lease by auto
  from freed [OF s(1), OF disjI1, OF refl] s show ?case
    using free [of "lease_node l" "alloc_of (r, us @ l # vs, ws)"] by (auto simp: alloc_of_def)
next
  case (giveup r us l vs ws)
  then have s: "lease_node l < length (nodes r)" "0 < loads r ! lease_node l" using slots_lease by auto
  from freed [OF s(1), OF disjI2, OF refl] s show ?case
    using free [of "lease_node l" "alloc_of (r, us @ l # vs, ws)"] by (auto simp: alloc_of_def)
next
  case (health r ls ws i v)
  then show ?case by (simp add: alloc_of_def health_effect idle)
next
  case (observe r' now r ls ws)
  then have "untouched r r'" using observe_keeps by blast
  then have "alloc_of (r', ls, ws) = alloc_of (r, ls, ws)" using untouched_same [of r r'] by (simp add: alloc_of_def)
  then show ?case by (simp add: idle)
qed


subsection \<open>Properties\<close>

lemma rinit_new: "rinit (new_router insts dm os, [], [])"
  by (auto simp: new_router_def new_node_def Let_def)

text \<open>C2. Admission is exact under every interleaving: from a new router, whatever sequence of arrivals, wake-ups, time-outs, cancellations,
completions and health changes happens, the number of requests in flight on a node is the number of leases held on it and never exceeds
its \<^verbatim>\<open>max_concurrent\<close>, and the number of waiting requests is the number of requests blocked in \<^verbatim>\<open>Acquire\<close> and never exceeds \<^verbatim>\<open>MaxQueue\<close>.\<close>

theorem admission_bounds:
  assumes "rstep\<^sup>*\<^sup>* (new_router insts dm os, [], []) (r, ls, ws)" "i < length (nodes r)"
  shows "inflight (nodes r ! i) = int (length (filter (\<lambda>l. lease_node l = i) ls))
    \<and> inflight (nodes r ! i) \<le> max 0 (MaxConcurrent (nodes r ! i))
    \<and> waiting r = int (length ws) \<and> waiting r \<le> max 0 (MaxQueue (opts r))"
  using admission.inv_reachable [OF rinit_new assms(1)] assms(2)
  by (auto simp: slots_ok_def queue_ok_def held_def loads_def caps_def)


subsection \<open>A concrete run\<close>

definition demo_inst :: instance_cfg where
  "demo_inst = \<lparr>inst_group = ''local'', inst_role = [], inst_host = ''127.0.0.1'', inst_port = 9101, inst_max = 1\<rparr>"

definition demo_opts :: options where
  "demo_opts = \<lparr>BoundedLoadFactor = 5/4, AffinityFloor = 4, AffinityWait = 0, PlacementSize = 0, MaxQueue = 1, BreakerCfg = None\<rparr>"

definition demo_router :: router where
  "demo_router = new_router [demo_inst] 2 demo_opts"

definition demo_busy :: router where
  "demo_busy = demo_router\<lparr>nodes := [(nodes demo_router ! 0)\<lparr>inflight := 1\<rparr>]\<rparr>"

definition demo_lease :: lease where
  "demo_lease = \<lparr>lease_node = 0, lease_ticket = \<lparr>probe = False, gen = 0\<rparr>\<rparr>"

lemmas demo_defs = demo_inst_def demo_opts_def demo_router_def demo_busy_def demo_lease_def new_router_def new_node_def Let_def
  acq_try_def new_request_def tryPick_def EntryPoint_def eligible_def node_available_def ranked_def ordered_def choose_node_def
  bounded_limit_def tryLease_def node_allow_def upd_node_def

lemma demo_first: "acq_try 0 (new_request demo_router [] [] EntryPoint []) demo_router = (Leased demo_lease, demo_busy)"
  by (simp add: demo_defs)


definition demo_waiter :: request where
  "demo_waiter = (new_request demo_busy [] [] EntryPoint [])\<lparr>req_queued := True\<rparr>"

definition demo_queued :: router where
  "demo_queued = demo_busy\<lparr>waiting := 1\<rparr>"

lemma demo_second: "acq_try 0 (new_request demo_busy [] [] EntryPoint []) demo_busy = (Waits demo_waiter, demo_queued)"
  by (simp add: demo_defs demo_waiter_def demo_queued_def)

lemma demo_handover: "acq_event 0 Notify demo_waiter (lease_Release demo_lease demo_queued) = (Leased demo_lease, demo_busy)"
  by (simp add: demo_defs demo_waiter_def demo_queued_def acq_event_def lease_Release_def release_def)

lemma demo_run1: "rstep\<^sup>*\<^sup>* (demo_router, [], []) (demo_queued, [demo_lease], [demo_waiter])"
proof -
  have "rstep (demo_router, [], []) (demo_busy, [demo_lease], [])" by (rule arrive [OF demo_first]) simp
  moreover have "rstep (demo_busy, [demo_lease], []) (demo_queued, [demo_lease], [demo_waiter])" by (rule arrive [OF demo_second]) simp
  ultimately show ?thesis by simp
qed

lemma demo_run2: "rstep\<^sup>*\<^sup>* (demo_queued, [demo_lease], [demo_waiter]) (demo_busy, [demo_lease], [])"
proof -
  have "rstep (demo_queued, [] @ demo_lease # [], [demo_waiter]) (lease_Release demo_lease demo_queued, [] @ [], [demo_waiter])" by (rule giveup)
  moreover have "rstep (lease_Release demo_lease demo_queued, [], [] @ demo_waiter # []) (demo_busy, [demo_lease], [])"
    by (rule wake [OF demo_handover]) simp_all
  ultimately show ?thesis by simp
qed

theorem admission_bounds_witness:
  "inflight (nodes demo_queued ! 0) = 1 \<and> inflight (nodes demo_queued ! 0) \<le> max 0 (MaxConcurrent (nodes demo_queued ! 0)) \<and> waiting demo_queued = 1"
  using admission_bounds [OF demo_run1 [unfolded demo_router_def], of 0]
  by (simp add: demo_queued_def demo_busy_def demo_lease_def)


end
