(* ===== verification/Router_Choice.thy ===== *)
theory Router_Choice
  imports Router_Admission
begin

section \<open>Which node is chosen\<close>

text \<open>
  The functional side of \<^verbatim>\<open>tryPickLocked\<close>: when a pick succeeds and which node it takes, the stability of the rendezvous order, and
  the placement memory. Everything is stated for one critical section, in which availability and admission are asked at the same
  clock reading.
\<close>

subsection \<open>An available candidate admits\<close>

definition ready :: "int \<Rightarrow> node \<Rightarrow> bool" where
  "ready now n \<longleftrightarrow> fst (node_allow now n) \<noteq> None"

lemma ready_br: "br n = br n' \<Longrightarrow> ready now n = ready now n'"
  by (simp add: ready_def node_allow_def split: option.splits prod.splits)

lemma ready_asked: "is_cand now grp flt ex n \<Longrightarrow> ready now (asked now grp flt ex n)"
  using ngate.avail_pass [of now n] by (simp add: is_cand_def asked_def ready_def)

lemma br_upd: "br (f (nodes r ! i)) = br (nodes r ! i) \<Longrightarrow> br (nodes (upd_node i f r) ! k) = br (nodes r ! k)"
  by (cases "k = i"; cases "i < length (nodes r)") (auto simp: upd_node_def list_update_beyond)

lemma br_placed [simp]: "br (nodes (add_placed i d r) ! k) = br (nodes r ! k)"
  unfolding add_placed_def by (rule br_upd) simp

lemma br_evict [simp]: "br (nodes (evict fuel r) ! k) = br (nodes r ! k)"
  by (induction fuel r rule: evict.induct) simp_all

lemma br_setPlacement [simp]: "br (nodes (setPlacement key i r) ! k) = br (nodes r ! k)"
  by (simp add: setPlacement_def Let_def split: option.splits)

lemma br_upd_other: "k \<noteq> j \<Longrightarrow> br (nodes (upd_node j f r) ! k) = br (nodes r ! k)"
  by (simp add: upd_node_def)

lemma place_br:
  assumes "placeLocked now key cands ex r = (i, r')" "k \<in> fst ` set cands"
  shows "br (nodes r' ! k) = br (nodes r ! k)"
proof -
  have "k \<noteq> j" if "index_of j cands = None" for j using that assms(2) by (auto simp: index_of_none)
  then show ?thesis
    using assms(1) by (auto simp: placeLocked_def Let_def case_prod_beta' br_upd_other split: option.splits if_splits)
qed

lemma ordered_br: "ordered now kh grp ex cs r = (cands, r') \<Longrightarrow> k \<in> fst ` set cs \<Longrightarrow> br (nodes r' ! k) = br (nodes r ! k)"
  by (auto simp: ordered_def place_br split: if_splits prod.splits)

lemma ordered_ready:
  assumes "ordered now kh grp ex (ranked (cands_of now kh grp flt ex r)) (scanned now grp flt ex r) = (cands, r2)"
    "cands_of now kh grp flt ex r \<noteq> []" "c \<in> set cands"
  shows "ready now (nodes r2 ! fst c)"
proof -
  have c: "c \<in> set (cands_of now kh grp flt ex r)" using ordered_effect [OF assms(1)] assms(2,3) by simp
  have "br (nodes r2 ! fst c) = br (nodes (scanned now grp flt ex r) ! fst c)"
    by (rule ordered_br [OF assms(1)]) (use c in simp)
  moreover have "ready now (nodes (scanned now grp flt ex r) ! fst c)"
    using cands_of_bound [OF c] ready_asked by (simp add: scanned_def)
  ultimately show ?thesis using ready_br by blast
qed

subsection \<open>The choice without refusals\<close>

definition fits :: "int \<Rightarrow> router \<Rightarrow> scored \<Rightarrow> bool" where
  "fits limit r c \<longleftrightarrow> inflight (nodes r ! fst c) < min (MaxConcurrent (nodes r ! fst c)) limit"

definition busy :: "int \<Rightarrow> router \<Rightarrow> scored \<Rightarrow> bool" where
  "busy limit r c \<longleftrightarrow> inflight (nodes r ! fst c) \<ge> MaxConcurrent (nodes r ! fst c) \<and> inflight (nodes r ! fst c) < limit"

definition grant_node :: "int \<Rightarrow> nat \<Rightarrow> router \<Rightarrow> (acquire_error + lease) \<times> router" where
  "grant_node now i r =
     (Inr \<lparr>lease_node = i, lease_ticket = the (fst (node_allow now (nodes r ! i)))\<rparr>, snd (tryLease now i r))"

lemma tryLease_ready:
  "ready now (nodes r ! i) \<Longrightarrow>
   tryLease now i r = (Some \<lparr>lease_node = i, lease_ticket = the (fst (node_allow now (nodes r ! i)))\<rparr>, snd (tryLease now i r))"
  by (auto simp: ready_def tryLease_def split: prod.splits option.splits)

lemma walk_ready:
  assumes "\<forall>c \<in> set cs. ready now (nodes r ! fst c)"
  shows "walk_cands now limit hold first False cs r =
    (if first \<and> hold \<and> cs \<noteq> [] \<and> busy limit r (hd cs) then (PreferredBusy, r)
     else case find (fits limit r) cs of
            Some c \<Rightarrow> (Granted (projr (fst (grant_node now (fst c) r))), snd (grant_node now (fst c) r))
          | None \<Rightarrow> (Exhausted False, r))"
  using assms
proof (induction cs arbitrary: first)
  case (Cons c cs)
  have IH: "walk_cands now limit hold False False cs r =
      (case find (fits limit r) cs of
         Some c \<Rightarrow> (Granted (projr (fst (grant_node now (fst c) r))), snd (grant_node now (fst c) r))
       | None \<Rightarrow> (Exhausted False, r))"
    using Cons by simp
  have t: "tryLease now (fst c) r = (Some (projr (fst (grant_node now (fst c) r))), snd (grant_node now (fst c) r))"
    using tryLease_ready [of now r "fst c"] Cons.prems by (simp add: grant_node_def)
  show ?case
    by (cases "fits limit r c") (auto simp: t IH fits_def [of limit r c] busy_def Let_def simp del: min_less_iff_conj)
qed simp

lemma choose_ready:
  assumes "\<forall>c \<in> set cs. ready now (nodes r ! fst c)" "cs \<noteq> []"
  shows "choose_node now limit hold cs r =
    (if hold \<and> busy limit r (hd cs) then (Inl errPreferredBusy, r)
     else case find (fits limit r) cs of
            Some c \<Rightarrow> grant_node now (fst c) r
          | None \<Rightarrow> (case least_loaded r None cs of Some j \<Rightarrow> grant_node now j r | None \<Rightarrow> (Inl errAtCapacity, r)))"
proof -
  have r: "ready now (nodes r ! j)" if "least_loaded r None cs = Some j" for j
    using least_loaded_some [OF that] assms(1) by auto
  have t: "(case tryLease now j r of (Some l, r4) \<Rightarrow> (Inr l, r4) | (None, r4) \<Rightarrow> (Inl ErrNoNode, r4)) = grant_node now j r"
    if "ready now (nodes r ! j)" for j
    by (subst tryLease_ready [OF that]) (simp add: grant_node_def)
  have g: "(Inr (projr (fst (grant_node now j r))), snd (grant_node now j r)) = grant_node now j r" for j
    by (simp add: grant_node_def)
  show ?thesis
    using assms(2) by (auto simp: choose_node_def walk_ready [OF assms(1)] g t [OF r] split: option.splits)
qed

lemma least_loaded_none: "least_loaded r best cs = None \<longleftrightarrow> best = None \<and> (\<forall>c \<in> set cs. \<not> inflight (nodes r ! fst c) < MaxConcurrent (nodes r ! fst c))"
  by (induction r best cs rule: least_loaded.induct) (auto simp: Let_def split: option.splits)

lemma least_loaded_min:
  "least_loaded r best cs = Some j \<Longrightarrow>
   (\<forall>c \<in> set cs. inflight (nodes r ! fst c) < MaxConcurrent (nodes r ! fst c) \<longrightarrow> inflight (nodes r ! j) \<le> inflight (nodes r ! fst c))
   \<and> (\<forall>b. best = Some b \<longrightarrow> inflight (nodes r ! j) \<le> inflight (nodes r ! b))"
proof (induction r best cs arbitrary: rule: least_loaded.induct)
  case (2 r best c cs)
  then show ?case by (auto simp: Let_def split: if_splits option.splits)
qed simp


subsection \<open>The pick\<close>

lemma find_sorted:
  assumes "find P (sort_key f xs) = Some x" "y \<in> set xs" "P y"
  shows "f x \<le> (f y :: 'b :: linorder)"
proof -
  obtain i where i: "i < length xs" "P (sort_key f xs ! i)" "x = sort_key f xs ! i" "\<forall>j<i. \<not> P (sort_key f xs ! j)"
    using assms(1) by (auto simp: find_Some_iff)
  obtain k where k: "k < length xs" "sort_key f xs ! k = y" using assms(2) by (metis in_set_conv_nth length_sort set_sort)
  with i assms(3) have "i \<le> k" using leI by auto
  then show ?thesis
    using sorted_nth_mono [OF sorted_sort_key, of i k f xs] i k by simp
qed

definition cand_set :: "int \<Rightarrow> string \<Rightarrow> (node \<Rightarrow> bool) \<Rightarrow> string list \<Rightarrow> router \<Rightarrow> nat set" where
  "cand_set now grp flt ex r = {i. i < length (nodes r) \<and> is_cand now grp flt ex (nodes r ! i)}"

lemma cands_of_set: "set (cands_of now kh grp flt ex r) = (\<lambda>i. (i, score kh (nameHash (nodes r ! i)))) ` cand_set now grp flt ex r"
  by (auto simp: cands_of_def cand_set_def)

lemma untouched_node:
  assumes "untouched r r'" "i < length (nodes r)"
  shows "inflight (nodes r' ! i) = inflight (nodes r ! i)" "MaxConcurrent (nodes r' ! i) = MaxConcurrent (nodes r ! i)"
  using assms untouched_same(1-3) [OF assms(1)] by (metis loads_def nth_map, metis caps_def nth_map)

definition pick_limit :: "int \<Rightarrow> string \<Rightarrow> (node \<Rightarrow> bool) \<Rightarrow> string list \<Rightarrow> router \<Rightarrow> int" where
  "pick_limit now grp flt ex r =
     bounded_limit (opts r) (\<Sum>i \<in> cand_set now grp flt ex r. inflight (nodes r ! i)) (card (cand_set now grp flt ex r))"

lemma limit_cands:
  "bounded_limit (opts r) (sum_list (map (\<lambda>c. loads r ! fst c) (cands_of now kh grp flt ex r))) (length (cands_of now kh grp flt ex r))
   = pick_limit now grp flt ex r"
proof -
  let ?ks = "filter (\<lambda>k. is_cand now grp flt ex (nodes r ! k)) [0..<length (nodes r)]"
  have s: "set ?ks = cand_set now grp flt ex r" and d: "distinct ?ks" by (auto simp: cand_set_def)
  have "sum_list (map (\<lambda>c. loads r ! fst c) (cands_of now kh grp flt ex r)) = (\<Sum>i \<in> set ?ks. inflight (nodes r ! i))"
    unfolding cands_of_def sum.distinct_set_conv_list [OF d]
    by (simp add: o_def loads_def cong: map_cong) (intro arg_cong [where f = sum_list] map_cong, auto)
  moreover have "length (cands_of now kh grp flt ex r) = card (set ?ks)"
    using distinct_card [OF d] by (simp only: cands_of_def length_map)
  ultimately show ?thesis unfolding pick_limit_def s [symmetric] by (simp only:)
qed

lemma ordered_length:
  assumes "ordered now kh grp ex cs r = (cands, r')" "cs \<noteq> []"
  shows "length cands = length cs"
proof (cases "PlacementSize (opts r) > 0")
  case True
  obtain i r2 where p: "placeLocked now (mix64 (kh XOR hashString grp)) cs ex r = (i, r2)" by force
  with True assms place_index [OF p] show ?thesis by (auto simp: ordered_def promote_def)
qed (use assms in \<open>simp add: ordered_def\<close>)

text \<open>A pick with candidates, its refusal branches gone; the order of the candidates is the rendezvous order without placement memory.\<close>

lemma tryPick_ready:
  assumes "cands_of now kh grp flt ex r \<noteq> []"
  obtains cs r2 where "untouched r r2" "set cs = set (cands_of now kh grp flt ex r)" "cs \<noteq> []"
    "PlacementSize (opts r) \<le> 0 \<longrightarrow> cs = ranked (cands_of now kh grp flt ex r)"
    "tryPick now kh grp flt ex hold r =
      (let limit = pick_limit now grp flt ex r
       in if hold \<and> busy limit r2 (hd cs) then (Inl errPreferredBusy, r2)
          else case find (fits limit r2) cs of
                 Some c \<Rightarrow> grant_node now (fst c) r2
               | None \<Rightarrow> (case least_loaded r2 None cs of Some j \<Rightarrow> grant_node now j r2 | None \<Rightarrow> (Inl errAtCapacity, r2)))"
proof -
  let ?C = "cands_of now kh grp flt ex r"
  obtain cs r2 where o: "ordered now kh grp ex (ranked ?C) (scanned now grp flt ex r) = (cs, r2)" by force
  have e: "untouched (scanned now grp flt ex r) r2" "set cs = set ?C" using ordered_effect [OF o] assms by simp_all
  have u: "untouched r r2" by (rule untouched_trans [OF untouched_scanned e(1)])
  have ne: "cs \<noteq> []" using e(2) assms by auto
  have p: "PlacementSize (opts r) \<le> 0 \<longrightarrow> cs = ranked ?C" using o by (auto simp: ordered_def scanned_def)
  have len: "length cs = length ?C" using ordered_length [OF o] assms by simp
  have rd: "\<forall>c \<in> set cs. ready now (nodes r2 ! fst c)" using ordered_ready [OF o assms] by blast
  have "tryPick now kh grp flt ex hold r = choose_node now (pick_limit now grp flt ex r) hold cs r2"
    using assms o by (simp add: tryPick_parts len untouched_same(4) [OF u] limit_cands)
  then show ?thesis
    by (intro that [OF u e(2) ne p]) (simp_all add: choose_ready [OF rd ne] Let_def)
qed


subsection \<open>Properties of the pick\<close>

lemma node_res [simp]: "fst (grant_node now i r) = Inr \<lparr>lease_node = i, lease_ticket = the (fst (node_allow now (nodes r ! i)))\<rparr>"
  by (simp add: grant_node_def)




subsection \<open>The rendezvous order\<close>

lemma insort_key_map: "insort_key f (g x) (map g ys) = map g (insort_key (\<lambda>x. f (g x)) x ys)"
  by (induction ys) auto

lemma sort_key_map: "sort_key f (map g xs) = map g (sort_key (\<lambda>x. f (g x)) xs)"
  by (induction xs) (simp_all add: insort_key_map)

lemma Ranking_eq: "Ranking r key = map Name (sort_key (\<lambda>n. - uint (score (hashString key) (nameHash n))) (nodes r))"
proof -
  let ?k = "\<lambda>n. - uint (score (hashString key) (nameHash n))"
  have "sort_key ?k (nodes r) = sort_key ?k (map ((!) (nodes r)) [0..<length (nodes r)])" by (simp add: map_nth)
  also have "\<dots> = map ((!) (nodes r)) (sort_key (\<lambda>i. ?k (nodes r ! i)) [0..<length (nodes r)])" by (rule sort_key_map)
  finally show ?thesis
    by (simp add: Ranking_def Let_def ranked_def sort_key_map o_def)
qed


subsection \<open>The placement memory\<close>

definition placements :: "router \<Rightarrow> int list" where
  "placements r = map placed (nodes r)"

definition on_node :: "nat \<Rightarrow> (64 word \<times> nat) list \<Rightarrow> int" where
  "on_node i l = int (length (filter (\<lambda>e. snd e = i) l))"

definition place_ok :: "router \<Rightarrow> bool" where
  "place_ok r \<longleftrightarrow>
     distinct (map fst (placeLRU r)) \<and> (\<forall>e \<in> set (placeLRU r). snd e < length (placements r))
     \<and> int (length (placeLRU r)) \<le> max 0 (PlacementSize (opts r))
     \<and> (\<forall>i < length (placements r). placements r ! i = on_node i (placeLRU r))"

lemma placements_add [simp]: "i < length (nodes r) \<Longrightarrow> placements (add_placed i d r) = (placements r)[i := placements r ! i + d]"
  by (simp add: placements_def add_placed_def upd_node_def map_update)

lemma add_placed_same [simp]:
  "placeLRU (add_placed i d r) = placeLRU r" "opts (add_placed i d r) = opts r" "length (nodes (add_placed i d r)) = length (nodes r)"
  by (simp_all add: add_placed_def upd_node_def)

lemma placements_lru [simp]: "placements (r\<lparr>placeLRU := l\<rparr>) = placements r"
  by (simp add: placements_def)

lemma length_placements [simp]: "length (placements r) = length (nodes r)"
  by (simp add: placements_def)

lemma on_node_Nil [simp]: "on_node i [] = 0"
  by (simp add: on_node_def)

lemma on_node_Cons [simp]: "on_node i (e # l) = (if snd e = i then 1 else 0) + on_node i l"
  by (simp add: on_node_def)

lemma on_node_append [simp]: "on_node i (l @ l') = on_node i l + on_node i l'"
  by (simp add: on_node_def)

lemma on_node_remove:
  "distinct (map fst l) \<Longrightarrow> map_of l key = Some j \<Longrightarrow> on_node i (filter (\<lambda>e. fst e \<noteq> key) l) = on_node i l - (if i = j then 1 else 0)"
proof (induction l)
  case (Cons e l)
  show ?case
  proof (cases "fst e = key")
    case True
    then have "filter (\<lambda>e. fst e \<noteq> key) l = l" using Cons.prems(1) by (auto simp: filter_id_conv image_iff)
    with True Cons.prems show ?thesis by auto
  next
    case False
    with Cons show ?thesis by auto
  qed
qed simp

lemma length_remove_key: "map_of l key = Some j \<Longrightarrow> length (filter (\<lambda>e. fst e \<noteq> key) l) < length l"
  by (rule length_filter_less [of "(key, j)"]) (auto dest: map_of_SomeD)

lemma place_ok_front:
  assumes "place_ok r" "map_of (placeLRU r) key = Some j"
  shows "place_ok (r\<lparr>placeLRU := move_front key (placeLRU r)\<rparr>)"
proof -
  have "distinct (map fst (filter (\<lambda>e. fst e \<noteq> key) (placeLRU r)))"
    using assms(1) by (simp add: place_ok_def distinct_map_filter)
  moreover have "j < length (nodes r)" using assms map_of_SomeD by (force simp: place_ok_def)
  ultimately show ?thesis
    using assms length_remove_key [OF assms(2)]
    by (auto simp: place_ok_def move_front_def on_node_remove)
qed


lemma evict_done: "int (length (placeLRU r)) \<le> PlacementSize (opts r) \<Longrightarrow> evict fuel r = r"
  by (cases fuel) simp_all

lemma evict_one:
  assumes "int (length (placeLRU r)) = PlacementSize (opts r) + 1" "PlacementSize (opts r) > 0"
  shows "evict (length (placeLRU r)) r = (add_placed (snd (last (placeLRU r))) (- 1) r)\<lparr>placeLRU := butlast (placeLRU r)\<rparr>"
proof -
  obtain n where n: "length (placeLRU r) = Suc n" using assms by (cases "placeLRU r") auto
  then have "placeLRU r \<noteq> []" by auto
  with n assms show ?thesis by (simp add: evict_done)
qed

lemma place_ok_last:
  assumes "distinct (map fst l)" "\<forall>e \<in> set l. snd e < length ps" "l \<noteq> []" "\<forall>i < length ps. ps ! i = on_node i l"
  shows "distinct (map fst (butlast l)) \<and> (\<forall>e \<in> set (butlast l). snd e < length ps)
    \<and> (\<forall>i < length ps. ps[snd (last l) := ps ! snd (last l) - 1] ! i = on_node i (butlast l))"
proof -
  obtain l' e where l: "l = l' @ [e]" using assms(3) by (metis append_butlast_last_id)
  show ?thesis using assms by (auto simp: l nth_list_update)
qed

lemma place_ok_set:
  assumes "place_ok r" "i < length (nodes r)" "PlacementSize (opts r) > 0"
  shows "place_ok (setPlacement key i r) \<and> map_of (placeLRU (setPlacement key i r)) key = Some i"
proof (cases "map_of (placeLRU r) key")
  case (Some j)
  have d: "distinct (map fst (filter (\<lambda>e. fst e \<noteq> key) (placeLRU r)))"
    using assms(1) by (simp add: place_ok_def distinct_map_filter)
  have j: "j < length (nodes r)" using assms(1) map_of_SomeD [OF Some] by (force simp: place_ok_def)
  show ?thesis
    using assms Some d j length_remove_key [OF Some]
    by (auto simp: setPlacement_def place_ok_def on_node_remove nth_list_update Let_def)
next
  case None
  let ?r = "add_placed i 1 (r\<lparr>placeLRU := (key, i) # placeLRU r\<rparr>)"
  have k: "key \<notin> fst ` set (placeLRU r)" using None by (simp add: map_of_eq_None_iff)
  have s: "setPlacement key i r = evict (length (placeLRU ?r)) ?r" using None by (simp add: setPlacement_def Let_def)
  have ps: "placements ?r = (placements r)[i := placements r ! i + 1]" using assms(2) by simp
  have o: "distinct (map fst (placeLRU ?r))" "\<forall>e \<in> set (placeLRU ?r). snd e < length (placements ?r)"
    "\<forall>k < length (placements ?r). placements ?r ! k = on_node k (placeLRU ?r)"
    using assms(1,2) k by (auto simp: place_ok_def nth_list_update)
  show ?thesis
  proof (cases "int (length (placeLRU r)) < PlacementSize (opts r)")
    case True
    then show ?thesis using o by (simp add: s evict_done place_ok_def)
  next
    case False
    then have l: "int (length (placeLRU r)) = PlacementSize (opts r)" using assms(1,3) by (auto simp: place_ok_def)
    have e: "evict (length (placeLRU ?r)) ?r = (add_placed (snd (last (placeLRU ?r))) (- 1) ?r)\<lparr>placeLRU := butlast (placeLRU ?r)\<rparr>"
      by (rule evict_one) (use l assms(3) in simp_all)
    have ne: "placeLRU r \<noteq> []" using l assms(3) by auto
    have b: "snd (last (placeLRU ?r)) < length (nodes ?r)"
      using o(2) last_in_set [of "placeLRU ?r"] by simp
    from place_ok_last [OF o(1,2) _ o(3)] ne l assms(2,3) b show ?thesis
      unfolding s e place_ok_def by auto
  qed
qed


lemma map_upd_val: "g y = g (xs ! i) \<Longrightarrow> map g (xs[i := y]) = map g xs"
  by (rule map_upd_same [where f = "\<lambda>_. y"])

lemma placements_avail: "placements (upd_node j (\<lambda>_. snd (node_available now (nodes r ! j))) r) = placements r"
proof -
  have "placed (snd (node_available now (nodes r ! j))) = placed (nodes r ! j)" by (subst node_available_keeps) simp
  then show ?thesis by (simp add: placements_def upd_node_def map_upd_val)
qed

lemma place_ok_avail: "place_ok (upd_node j (\<lambda>_. snd (node_available now (nodes r ! j))) r) = place_ok r"
  unfolding place_ok_def placements_avail by (simp add: upd_node_def)

lemma upd_node_same [simp]: "opts (upd_node i f r) = opts r" "length (nodes (upd_node i f r)) = length (nodes r)" "placeLRU (upd_node i f r) = placeLRU r"
  by (simp_all add: upd_node_def)

lemma place_ok_place:
  assumes "placeLocked now key cands ex r = (i, r')" "cands \<noteq> []" "\<forall>c \<in> set cands. fst c < length (nodes r)"
    "place_ok r" "PlacementSize (opts r) > 0"
  shows "place_ok r'"
proof -
  have f: "place_ok (setPlacement key (fst (cands ! leastPlaced s cands)) s)"
    if "place_ok s" "length (nodes s) = length (nodes r)" "opts s = opts r" for s
    using place_ok_set [OF that(1)] that assms(3,5) leastPlaced_less [OF assms(2), of s] by simp
  show ?thesis
    using assms(1,4) f [of r] f [of "upd_node j (\<lambda>_. snd (node_available now (nodes r ! j))) r" for j] place_ok_avail
    by (auto simp: placeLocked_def Let_def case_prod_beta' place_ok_front split: option.splits if_splits)
qed

lemma lease_place: "tryLease now i r = (lo, r') \<Longrightarrow> placeLRU r' = placeLRU r \<and> opts r' = opts r \<and> placements r' = placements r"
proof -
  assume t: "tryLease now i r = (lo, r')"
  have "placed (snd (node_allow now (nodes r ! i))) = placed (nodes r ! i)" by (subst node_allow_keeps) simp
  with t show ?thesis
    by (auto simp: tryLease_def placements_def upd_node_def map_upd_val split: prod.splits option.splits)
qed

lemma walk_place: "walk_cands now limit hold first denied cs r = (w, r') \<Longrightarrow> placeLRU r' = placeLRU r \<and> opts r' = opts r \<and> placements r' = placements r"
proof (induction cs arbitrary: r first denied)
  case (Cons c cs)
  obtain lo r1 where l: "tryLease now (fst c) r = (lo, r1)" by force
  from Cons.prems Cons.IH [of False True r1] Cons.IH [of False denied r] lease_place [OF l] show ?case
    by (auto simp: Let_def l split: if_splits option.splits)
qed simp

lemma choose_place: "choose_node now limit hold cs r = (res, r') \<Longrightarrow> placeLRU r' = placeLRU r \<and> opts r' = opts r \<and> placements r' = placements r"
  by (auto simp: choose_node_def dest!: walk_place lease_place split: prod.splits walk.splits option.splits)

lemma place_ok_cong: "placeLRU r' = placeLRU r \<Longrightarrow> opts r' = opts r \<Longrightarrow> placements r' = placements r \<Longrightarrow> place_ok r \<Longrightarrow> place_ok r'"
  unfolding place_ok_def by metis

lemma scanned_place: "placeLRU (scanned now grp flt ex r) = placeLRU r" "opts (scanned now grp flt ex r) = opts r" "placements (scanned now grp flt ex r) = placements r"
  by (simp_all add: scanned_def placements_def)

lemma tryPick_place:
  assumes "tryPick now kh grp flt ex hold r = (res, r')" "place_ok r"
  shows "place_ok r'"
proof (cases "cands_of now kh grp flt ex r = []")
  case True
  with assms show ?thesis by (auto simp: tryPick_parts intro: place_ok_cong [OF scanned_place])
next
  case False
  obtain cs r2 where o: "ordered now kh grp ex (ranked (cands_of now kh grp flt ex r)) (scanned now grp flt ex r) = (cs, r2)" by force
  have s: "place_ok (scanned now grp flt ex r)" by (rule place_ok_cong [OF scanned_place assms(2)])
  have b: "\<forall>c \<in> set (ranked (cands_of now kh grp flt ex r)). fst c < length (nodes (scanned now grp flt ex r))"
    using cands_of_bound by (auto simp: scanned_def)
  have r2: "place_ok r2"
    using o place_ok_place [OF _ _ b s] False s by (auto simp: ordered_def split: if_splits prod.splits)
  from assms(1) False o have "\<exists>limit. choose_node now limit hold cs r2 = (res, r')"
    by (auto simp: tryPick_parts)
  then show ?thesis using choose_place place_ok_cong r2 by blast
qed


fun place_init :: "gateway \<Rightarrow> bool" where
  "place_init (r, ls, ws) \<longleftrightarrow> placeLRU r = [] \<and> (\<forall>n \<in> set (nodes r). placed n = 0)"

fun place_inv :: "gateway \<Rightarrow> bool" where
  "place_inv (r, ls, ws) \<longleftrightarrow> place_ok r"

lemma place_ok_waiting: "place_ok r \<Longrightarrow> place_ok (r\<lparr>waiting := w\<rparr>)"
  by (erule place_ok_cong [rotated 3]) (simp_all add: placements_def)

lemma place_ok_acq: "acq_try now q r = (a, r') \<Longrightarrow> place_ok r \<Longrightarrow> place_ok r'"
  by (auto simp: acq_try_def Let_def split: prod.splits sum.splits if_splits dest: tryPick_place intro: place_ok_waiting)

lemma place_ok_event: "acq_event now ev q r = (a, r') \<Longrightarrow> place_ok r \<Longrightarrow> place_ok r'"
  by (cases ev) (auto simp: acq_event_def intro: place_ok_acq place_ok_waiting)

lemma place_ok_upd: "(\<And>n. placed (f n) = placed n) \<Longrightarrow> place_ok r \<Longrightarrow> place_ok (upd_node i f r)"
  by (erule place_ok_cong [rotated 3]) (simp_all add: placements_def upd_node_def map_upd_val)

lemma place_ok_observe:
  assumes "r' \<in> {snd (AnyAvailable now r), snd (Snapshot now r)}" "place_ok r"
  shows "place_ok r'"
proof -
  have k: "untouched r r'" "map placed (nodes r') = map placed (nodes r)" "placeLRU r' = placeLRU r"
    using observe_keeps [OF assms(1)] by simp_all
  from assms(2) show ?thesis
    by (rule place_ok_cong [rotated 3]) (use k untouched_same [OF k(1)] in \<open>simp_all add: placements_def\<close>)
qed

interpretation placement: machine place_init rstep place_inv
proof unfold_locales
  fix s :: gateway
  assume "place_init s"
  then show "place_inv s" by (cases s) (auto simp: place_ok_def placements_def)
next
  fix s s' :: gateway
  assume "place_inv s" "rstep s s'"
  from this(2,1) show "place_inv s'"
    by (induction rule: rstep.induct)
      (auto simp: lease_Done_def lease_Release_def release_def
        intro!: place_ok_upd dest: place_ok_acq place_ok_event intro: place_ok_observe [OF insertI1] place_ok_observe [OF insertI2 [OF singletonI]])
qed

text \<open>C20. The placement memory is consistent and bounded along every run of the gateway: the keys of the list are distinct, it holds at most
\<^verbatim>\<open>placement_size\<close> of them, each on a registered node, and every node's \<^verbatim>\<open>placed\<close> counter is the number of keys placed on it.\<close>

theorem placement_memory_consistent:
  assumes "rstep\<^sup>*\<^sup>* (new_router insts dm os, [], []) (r, ls, ws)"
  shows "distinct (map fst (placeLRU r)) \<and> int (length (placeLRU r)) \<le> max 0 (PlacementSize (opts r))
    \<and> (\<forall>e \<in> set (placeLRU r). snd e < length (nodes r))
    \<and> (\<forall>i < length (nodes r). placed (nodes r ! i) = int (length (filter (\<lambda>e. snd e = i) (placeLRU r))))"
proof -
  have "place_init (new_router insts dm os, [], [])" by (auto simp: new_router_def new_node_def Let_def)
  from placement.inv_reachable [OF this assms] show ?thesis
    by (auto simp: place_ok_def on_node_def placements_def)
qed

lemma promote_Cons: "xs \<noteq> [] \<Longrightarrow> \<exists>ys. promote i xs = xs ! i # ys"
  by (cases xs; cases i) (auto simp: promote_def)

text \<open>Placement is sticky: a request whose prefix is placed on a node that is a candidate and below its capacity and the bounded-load limit
is granted a slot on that node, whatever the rendezvous order says, and the prefix stays placed there.\<close>

theorem placement_sticky:
  fixes grp :: string
  defines "key kh \<equiv> mix64 (kh XOR hashString grp)"
  assumes "PlacementSize (opts r) > 0" "map_of (placeLRU r) (key kh) = Some j" "j \<in> cand_set now grp flt ex r"
    "inflight (nodes r ! j) < MaxConcurrent (nodes r ! j)" "inflight (nodes r ! j) < pick_limit now grp flt ex r"
  shows "\<exists>l r'. tryPick now kh grp flt ex hold r = (Inr l, r') \<and> lease_node l = j \<and> map_of (placeLRU r') (key kh) = Some j"
proof -
  let ?C = "cands_of now kh grp flt ex r" and ?s = "scanned now grp flt ex r"
  have jc: "j \<in> fst ` set (ranked ?C)" using assms(4) by (force simp: cands_of_set)
  then obtain i where i: "index_of j (ranked ?C) = Some i" using index_of_none [of j "ranked ?C"] by (cases "index_of j (ranked ?C)") auto
  have ne: "?C \<noteq> []" using jc by auto
  let ?r2 = "?s\<lparr>placeLRU := move_front (key kh) (placeLRU ?s)\<rparr>"
  have p: "placeLocked now (key kh) (ranked ?C) ex ?s = (i, ?r2)"
    using assms(3) i by (simp add: placeLocked_def scanned_place)
  then have o: "ordered now kh grp ex (ranked ?C) ?s = (promote i (ranked ?C), ?r2)"
    using assms(2) by (simp add: ordered_def scanned_place key_def)
  have il: "i < length ?C" "fst (ranked ?C ! i) = j" using index_of_some [OF i] by simp_all
  obtain cs where cs: "promote i (ranked ?C) = (ranked ?C ! i) # cs"
    using promote_Cons [of "ranked ?C" i] ne by auto
  have u: "untouched r ?r2" by (rule untouched_trans [OF untouched_scanned [of r now grp flt ex]]) (use ordered_effect [OF o] ne in simp)
  have fit: "fits (pick_limit now grp flt ex r) ?r2 (ranked ?C ! i)"
    using assms(4-6) untouched_node [OF u, of j] il by (simp add: fits_def cand_set_def)
  have rd: "\<forall>c \<in> set (promote i (ranked ?C)). ready now (nodes ?r2 ! fst c)" using ordered_ready [OF o ne] by blast
  have "tryPick now kh grp flt ex hold r = choose_node now (pick_limit now grp flt ex r) hold (promote i (ranked ?C)) ?r2"
    using ne o ordered_length [OF o] by (simp add: tryPick_parts scanned_place limit_cands)
  also have "\<dots> = grant_node now j ?r2"
    using fit il by (subst choose_ready [OF rd]) (auto simp: cs busy_def fits_def)
  finally have t: "tryPick now kh grp flt ex hold r = grant_node now j ?r2" .
  obtain lo r' where l: "tryLease now j ?r2 = (lo, r')" by force
  have "placeLRU r' = move_front (key kh) (placeLRU r)" using lease_place [OF l] by (simp add: scanned_place)
  then have "map_of (placeLRU r') (key kh) = Some j" using assms(3) by (simp add: move_front_def)
  then show ?thesis unfolding t grant_node_def l by simp
qed

subsection \<open>Concrete picks\<close>

lemma demo_pick: "tryPick 0 (hashString []) [] EntryPoint [] False demo_router = (Inr demo_lease, demo_busy)"
  by (simp add: demo_defs)

lemma demo_cands: "cand_set 0 [] EntryPoint [] demo_router = {0}"
  by (auto simp: cand_set_def is_cand_def demo_defs)


definition placing :: router where
  "placing = new_router [demo_inst] 2 (demo_opts\<lparr>PlacementSize := 2\<rparr>)"

lemma placing_pick:
  "tryPick 0 (hashString []) [] EntryPoint [] False placing =
   (Inr demo_lease, placing\<lparr>nodes := [(nodes placing ! 0)\<lparr>inflight := 1, placed := 1\<rparr>], placeLRU := [(mix64 (hashString [] XOR hashString []), 0)]\<rparr>)"
  by (simp add: demo_defs placing_def placeLocked_def leastPlaced_def setPlacement_def add_placed_def promote_def)


definition placed_busy :: router where
  "placed_busy = placing\<lparr>nodes := [(nodes placing ! 0)\<lparr>inflight := 1, placed := 1\<rparr>], placeLRU := [(mix64 (hashString [] XOR hashString []), 0)]\<rparr>"

definition placed_idle :: router where
  "placed_idle = placed_busy\<lparr>nodes := [(nodes placing ! 0)\<lparr>inflight := 0, placed := 1\<rparr>]\<rparr>"

lemma placing_run: "rstep\<^sup>*\<^sup>* (placing, [], []) (placed_busy, [demo_lease], [])"
proof -
  have "acq_try 0 (new_request placing [] [] EntryPoint []) placing = (Leased demo_lease, placed_busy)"
    using placing_pick by (simp add: acq_try_def new_request_def placing_def new_router_def demo_opts_def Let_def placed_busy_def)
  then have "rstep (placing, [], []) (placed_busy, [demo_lease], [])" by (rule arrive) simp
  then show ?thesis by simp
qed

theorem placement_memory_consistent_witness:
  "distinct (map fst (placeLRU placed_busy)) \<and> placeLRU placed_busy \<noteq> [] \<and> placed (nodes placed_busy ! 0) = 1"
  using placement_memory_consistent [OF placing_run [unfolded placing_def]] by (simp add: placed_busy_def)

theorem placement_sticky_witness:
  "\<exists>l r'. tryPick 0 (hashString []) [] EntryPoint [] False placed_idle = (Inr l, r') \<and> lease_node l = 0
     \<and> map_of (placeLRU r') (mix64 (hashString [] XOR hashString [])) = Some 0"
proof -
  have c: "cand_set 0 [] EntryPoint [] placed_idle = {0}"
    by (auto simp: cand_set_def is_cand_def placed_idle_def placed_busy_def placing_def demo_defs)
  show ?thesis
    by (rule placement_sticky)
      (simp_all add: c pick_limit_def, simp_all add: placed_idle_def placed_busy_def placing_def demo_defs)
qed

end
