(* ===== verification/Gw_Config.thy ===== *)
theory Gw_Config
  imports Router Py_Base
begin

section \<open>The gateway's configuration (gateway-go/config/config.go)\<close>

text \<open>
  Models package \<^verbatim>\<open>config\<close>: the configuration with its defaults, the decoding of a JSON file over them, and \<^verbatim>\<open>Validate\<close>; and the part of
  \<^verbatim>\<open>main.go\<close> that makes a router of it. Decoding follows \<^verbatim>\<open>encoding/json\<close>: a key sets the field it names, ignoring case, an unknown key and a
  \<^verbatim>\<open>null\<close> set nothing, and a value of another type, or an integer that does not fit 64 bits, is an error. \<^verbatim>\<open>time.ParseDuration\<close> is the argument \<open>dur\<close>; durations are nanoseconds.
\<close>

subsection \<open>Data\<close>

record routing =
  bounded_load_factor :: real
  affinity_floor :: int
  affinity_wait_ns :: int
  placement_size :: int

record breaker_conf =
  br_enabled :: bool
  failure_threshold :: int
  open_duration :: int
  max_open_duration :: int
  half_open_max :: int

record health_conf =
  health_enabled :: bool
  health_interval :: int
  health_timeout :: int
  health_path :: string
  unhealthy_threshold :: int
  healthy_threshold :: int

record reliability =
  max_attempts :: int
  attempt_timeout :: int
  stream_idle_timeout :: int
  retry_backoff :: int
  overall_timeout :: int
  rel_breaker :: breaker_conf
  rel_health :: health_conf

record admission_conf =
  max_queue :: int
  queue_timeout :: int

record gw_config =
  gw_port :: int
  default_model :: string
  log_level :: string
  sglang_instances :: "instance_cfg list"
  max_concurrent_per_node :: int
  gw_routing :: routing
  gw_reliability :: reliability
  gw_admission :: admission_conf

definition ms :: int where
  "ms = 1000000"

definition DefaultReliability :: reliability where
  "DefaultReliability =
     \<lparr>max_attempts = 3, attempt_timeout = 15000 * ms, stream_idle_timeout = 30000 * ms, retry_backoff = 25 * ms,
      overall_timeout = 600000 * ms,
      rel_breaker = \<lparr>br_enabled = True, failure_threshold = 5, open_duration = 5000 * ms, max_open_duration = 60000 * ms, half_open_max = 1\<rparr>,
      rel_health = \<lparr>health_enabled = True, health_interval = 2000 * ms, health_timeout = 1000 * ms, health_path = ''/health'',
        unhealthy_threshold = 2, healthy_threshold = 1\<rparr>\<rparr>"

definition default_config :: gw_config where
  "default_config =
     \<lparr>gw_port = 8080, default_model = ''NousResearch/Meta-Llama-3-8B-Instruct'', log_level = ''info'', sglang_instances = [],
      max_concurrent_per_node = 8,
      gw_routing = \<lparr>bounded_load_factor = 1.25, affinity_floor = 4, affinity_wait_ns = 0, placement_size = 0\<rparr>,
      gw_reliability = DefaultReliability, gw_admission = \<lparr>max_queue = 128, queue_timeout = 10000 * ms\<rparr>\<rparr>"

subsection \<open>Decoding\<close>

fun as_int :: "json \<Rightarrow> int option" where
  "as_int (JInt i) = (if - (2 ^ 63) \<le> i \<and> i < 2 ^ 63 then Some i else None)"
| "as_int _ = None"

fun as_real :: "json \<Rightarrow> real option" where
  "as_real (JInt i) = Some (real_of_int i)"
| "as_real (JFloat x) = Some x"
| "as_real _ = None"

fun as_bool :: "json \<Rightarrow> bool option" where
  "as_bool (JBool b) = Some b"
| "as_bool _ = None"

fun as_str :: "json \<Rightarrow> string option" where
  "as_str (JStr s) = Some s"
| "as_str _ = None"

definition as_dur :: "(string \<Rightarrow> int option) \<Rightarrow> json \<Rightarrow> int option" where
  "as_dur dur v = Option.bind (as_str v) dur"

text \<open>A decoder of a struct: for each field its key, and how a value changes the struct (\<open>None\<close> for a value of another type).\<close>

type_synonym 'a setters = "(string \<times> (json \<Rightarrow> 'a \<Rightarrow> 'a option)) list"

definition set_to :: "(json \<Rightarrow> 'b option) \<Rightarrow> ('b \<Rightarrow> 'a \<Rightarrow> 'a) \<Rightarrow> json \<Rightarrow> 'a \<Rightarrow> 'a option" where
  "set_to conv upd v x = (if v = JNull then Some x else map_option (\<lambda>b. upd b x) (conv v))"

fun decode_fields :: "'a setters \<Rightarrow> (string \<times> json) list \<Rightarrow> 'a \<Rightarrow> 'a option" where
  "decode_fields sets [] x = Some x"
| "decode_fields sets ((k, v) # kvs) x =
     (case map_of sets (lower k) of
        None \<Rightarrow> decode_fields sets kvs x
      | Some f \<Rightarrow> (case f v x of None \<Rightarrow> None | Some y \<Rightarrow> decode_fields sets kvs y))"

fun decode_struct :: "'a setters \<Rightarrow> json \<Rightarrow> 'a \<Rightarrow> 'a option" where
  "decode_struct sets (JObj kvs) x = decode_fields sets kvs x"
| "decode_struct sets JNull x = Some x"
| "decode_struct sets _ x = None"

definition nested :: "'b setters \<Rightarrow> ('a \<Rightarrow> 'b) \<Rightarrow> ('b \<Rightarrow> 'a \<Rightarrow> 'a) \<Rightarrow> json \<Rightarrow> 'a \<Rightarrow> 'a option" where
  "nested sets get upd v x = map_option (\<lambda>y. upd y x) (decode_struct sets v (get x))"

fun decode_list :: "'a setters \<Rightarrow> 'a \<Rightarrow> json list \<Rightarrow> 'a list option" where
  "decode_list sets z [] = Some []"
| "decode_list sets z (v # vs) =
     (case decode_struct sets v z of None \<Rightarrow> None | Some x \<Rightarrow> map_option (Cons x) (decode_list sets z vs))"

fun as_list :: "'a setters \<Rightarrow> 'a \<Rightarrow> json \<Rightarrow> 'a list option" where
  "as_list sets z (JArr vs) = decode_list sets z vs"
| "as_list sets z _ = None"

definition instance_setters :: "instance_cfg setters" where
  "instance_setters =
     [(''group'', set_to as_str (\<lambda>b x. x\<lparr>inst_group := b\<rparr>)), (''host'', set_to as_str (\<lambda>b x. x\<lparr>inst_host := b\<rparr>)),
      (''port'', set_to as_int (\<lambda>b x. x\<lparr>inst_port := b\<rparr>)), (''max_concurrent'', set_to as_int (\<lambda>b x. x\<lparr>inst_max := b\<rparr>)),
      (''role'', set_to as_str (\<lambda>b x. x\<lparr>inst_role := b\<rparr>))]"

definition instance0 :: instance_cfg where
  "instance0 = \<lparr>inst_group = [], inst_role = [], inst_host = [], inst_port = 0, inst_max = 0\<rparr>"

definition routing_setters :: "(string \<Rightarrow> int option) \<Rightarrow> routing setters" where
  "routing_setters dur =
     [(''bounded_load_factor'', set_to as_real (\<lambda>b x. x\<lparr>bounded_load_factor := b\<rparr>)),
      (''affinity_floor'', set_to as_int (\<lambda>b x. x\<lparr>affinity_floor := b\<rparr>)),
      (''affinity_wait'', set_to (as_dur dur) (\<lambda>b x. x\<lparr>affinity_wait_ns := b\<rparr>)),
      (''placement_size'', set_to as_int (\<lambda>b x. x\<lparr>placement_size := b\<rparr>))]"

definition breaker_setters :: "(string \<Rightarrow> int option) \<Rightarrow> breaker_conf setters" where
  "breaker_setters dur =
     [(''enabled'', set_to as_bool (\<lambda>b x. x\<lparr>br_enabled := b\<rparr>)), (''failure_threshold'', set_to as_int (\<lambda>b x. x\<lparr>failure_threshold := b\<rparr>)),
      (''open_duration'', set_to (as_dur dur) (\<lambda>b x. x\<lparr>open_duration := b\<rparr>)),
      (''max_open_duration'', set_to (as_dur dur) (\<lambda>b x. x\<lparr>max_open_duration := b\<rparr>)),
      (''half_open_max'', set_to as_int (\<lambda>b x. x\<lparr>half_open_max := b\<rparr>))]"

definition health_setters :: "(string \<Rightarrow> int option) \<Rightarrow> health_conf setters" where
  "health_setters dur =
     [(''enabled'', set_to as_bool (\<lambda>b x. x\<lparr>health_enabled := b\<rparr>)), (''interval'', set_to (as_dur dur) (\<lambda>b x. x\<lparr>health_interval := b\<rparr>)),
      (''timeout'', set_to (as_dur dur) (\<lambda>b x. x\<lparr>health_timeout := b\<rparr>)), (''path'', set_to as_str (\<lambda>b x. x\<lparr>health_path := b\<rparr>)),
      (''unhealthy_threshold'', set_to as_int (\<lambda>b x. x\<lparr>unhealthy_threshold := b\<rparr>)),
      (''healthy_threshold'', set_to as_int (\<lambda>b x. x\<lparr>healthy_threshold := b\<rparr>))]"

definition reliability_setters :: "(string \<Rightarrow> int option) \<Rightarrow> reliability setters" where
  "reliability_setters dur =
     [(''max_attempts'', set_to as_int (\<lambda>b x. x\<lparr>max_attempts := b\<rparr>)),
      (''attempt_timeout'', set_to (as_dur dur) (\<lambda>b x. x\<lparr>attempt_timeout := b\<rparr>)),
      (''stream_idle_timeout'', set_to (as_dur dur) (\<lambda>b x. x\<lparr>stream_idle_timeout := b\<rparr>)),
      (''retry_backoff'', set_to (as_dur dur) (\<lambda>b x. x\<lparr>retry_backoff := b\<rparr>)),
      (''overall_timeout'', set_to (as_dur dur) (\<lambda>b x. x\<lparr>overall_timeout := b\<rparr>)),
      (''breaker'', nested (breaker_setters dur) rel_breaker (\<lambda>b x. x\<lparr>rel_breaker := b\<rparr>)),
      (''health'', nested (health_setters dur) rel_health (\<lambda>b x. x\<lparr>rel_health := b\<rparr>))]"

definition admission_setters :: "(string \<Rightarrow> int option) \<Rightarrow> admission_conf setters" where
  "admission_setters dur =
     [(''max_queue'', set_to as_int (\<lambda>b x. x\<lparr>max_queue := b\<rparr>)), (''queue_timeout'', set_to (as_dur dur) (\<lambda>b x. x\<lparr>queue_timeout := b\<rparr>))]"

definition config_setters :: "(string \<Rightarrow> int option) \<Rightarrow> gw_config setters" where
  "config_setters dur =
     [(''port'', set_to as_int (\<lambda>b x. x\<lparr>gw_port := b\<rparr>)), (''default_model'', set_to as_str (\<lambda>b x. x\<lparr>default_model := b\<rparr>)),
      (''log_level'', set_to as_str (\<lambda>b x. x\<lparr>log_level := b\<rparr>)),
      (''sglang_instances'', set_to (as_list instance_setters instance0) (\<lambda>b x. x\<lparr>sglang_instances := b\<rparr>)),
      (''max_concurrent_per_node'', set_to as_int (\<lambda>b x. x\<lparr>max_concurrent_per_node := b\<rparr>)),
      (''routing'', nested (routing_setters dur) gw_routing (\<lambda>b x. x\<lparr>gw_routing := b\<rparr>)),
      (''reliability'', nested (reliability_setters dur) gw_reliability (\<lambda>b x. x\<lparr>gw_reliability := b\<rparr>)),
      (''admission'', nested (admission_setters dur) gw_admission (\<lambda>b x. x\<lparr>gw_admission := b\<rparr>))]"

subsection \<open>Validation\<close>

text \<open>The message of the first violated rule, or \<open>None\<close>.\<close>

definition Validate :: "gw_config \<Rightarrow> string option" where
  "Validate c =
     (let rt = gw_routing c; r = gw_reliability c; b = rel_breaker r; h = rel_health r; ad = gw_admission c
      in if bounded_load_factor rt < 1 then Some ''config: routing.bounded_load_factor must be >= 1''
         else if affinity_floor rt < 1 then Some ''config: routing.affinity_floor must be >= 1''
         else if placement_size rt < 0 then Some ''config: routing.placement_size must not be negative''
         else if affinity_wait_ns rt < 0 then Some ''config: routing.affinity_wait must not be negative''
         else if max_attempts r < 1 then Some ''config: reliability.max_attempts must be >= 1''
         else if attempt_timeout r \<le> 0 \<or> stream_idle_timeout r \<le> 0 \<or> overall_timeout r \<le> 0
         then Some ''config: reliability timeouts must be positive''
         else if br_enabled b \<and> (failure_threshold b < 1 \<or> half_open_max b < 1 \<or> open_duration b \<le> 0)
         then Some ''config: reliability.breaker needs failure_threshold>=1, half_open_max>=1, open_duration>0''
         else if health_enabled h \<and> (health_interval h \<le> 0 \<or> health_timeout h \<le> 0 \<or> health_path h = []
                   \<or> unhealthy_threshold h < 1 \<or> healthy_threshold h < 1)
         then Some ''config: reliability.health is incomplete''
         else if max_queue ad < 0 \<or> queue_timeout ad \<le> 0
         then Some ''config: admission.max_queue must be >= 0 and queue_timeout > 0''
         else None)"

datatype load_error = OpenErr | ParseErr | Invalid string

definition Load :: "(string \<Rightarrow> int option) \<Rightarrow> json option option \<Rightarrow> load_error + gw_config" where
  "Load dur file =
     (case file of
        None \<Rightarrow> Inl OpenErr
      | Some None \<Rightarrow> Inl ParseErr
      | Some (Some j) \<Rightarrow>
          (case decode_struct (config_setters dur) j default_config of
             None \<Rightarrow> Inl ParseErr
           | Some c \<Rightarrow> (case Validate c of Some msg \<Rightarrow> Inl (Invalid msg) | None \<Rightarrow> Inr c)))"

text \<open>\<^verbatim>\<open>setupDirectRoutes\<close>: the router of a configuration; without an instance the gateway does not start.\<close>

definition options_of :: "gw_config \<Rightarrow> options" where
  "options_of c =
     (let rt = gw_routing c; b = rel_breaker (gw_reliability c)
      in \<lparr>BoundedLoadFactor = bounded_load_factor rt, AffinityFloor = affinity_floor rt, AffinityWait = affinity_wait_ns rt,
          PlacementSize = placement_size rt, MaxQueue = max_queue (gw_admission c),
          BreakerCfg = (if br_enabled b
            then Some \<lparr>FailureThreshold = failure_threshold b, OpenDuration = open_duration b, MaxOpenDuration = max_open_duration b,
                   HalfOpenMax = half_open_max b\<rparr>
            else None)\<rparr>)"

definition setup_router :: "gw_config \<Rightarrow> router option" where
  "setup_router c =
     (if sglang_instances c = [] then None else Some (new_router (sglang_instances c) (max_concurrent_per_node c) (options_of c)))"


subsection \<open>Lemmas\<close>

text \<open>The rules of \<^verbatim>\<open>Validate\<close> as one predicate.\<close>

definition valid_config :: "gw_config \<Rightarrow> bool" where
  "valid_config c \<longleftrightarrow>
     1 \<le> bounded_load_factor (gw_routing c) \<and> 1 \<le> affinity_floor (gw_routing c) \<and> 0 \<le> placement_size (gw_routing c)
     \<and> 0 \<le> affinity_wait_ns (gw_routing c) \<and> 1 \<le> max_attempts (gw_reliability c)
     \<and> 0 < attempt_timeout (gw_reliability c) \<and> 0 < stream_idle_timeout (gw_reliability c) \<and> 0 < overall_timeout (gw_reliability c)
     \<and> (br_enabled (rel_breaker (gw_reliability c)) \<longrightarrow>
          1 \<le> failure_threshold (rel_breaker (gw_reliability c)) \<and> 1 \<le> half_open_max (rel_breaker (gw_reliability c))
          \<and> 0 < open_duration (rel_breaker (gw_reliability c)))
     \<and> (health_enabled (rel_health (gw_reliability c)) \<longrightarrow>
          0 < health_interval (rel_health (gw_reliability c)) \<and> 0 < health_timeout (rel_health (gw_reliability c))
          \<and> health_path (rel_health (gw_reliability c)) \<noteq> [] \<and> 1 \<le> unhealthy_threshold (rel_health (gw_reliability c))
          \<and> 1 \<le> healthy_threshold (rel_health (gw_reliability c)))
     \<and> 0 \<le> max_queue (gw_admission c) \<and> 0 < queue_timeout (gw_admission c)"

lemma if_Some_None: "(if b then Some x else y) = None \<longleftrightarrow> \<not> b \<and> y = None"
  by simp

lemma Validate_None: "Validate c = None \<longleftrightarrow> valid_config c"
  unfolding Validate_def Let_def if_Some_None valid_config_def by (simp only: not_less not_le de_Morgan_conj de_Morgan_disj imp_conv_disj simp_thms conj_assoc)

subsection \<open>Decoded values keep their types\<close>

text \<open>Integers and durations of the configuration are 64 bits wide.\<close>

definition int64 :: "int \<Rightarrow> bool" where
  "int64 i \<longleftrightarrow> - (2 ^ 63) \<le> i \<and> i < 2 ^ 63"

text \<open>A decoder whose setters keep a predicate keeps it as a whole.\<close>

locale typed_struct =
  fixes sets :: "'a setters" and wf :: "'a \<Rightarrow> bool"
  assumes setter_wf: "(k, f) \<in> set sets \<Longrightarrow> f v x = Some y \<Longrightarrow> wf x \<Longrightarrow> wf y"
begin

lemma fields_wf: "decode_fields sets kvs x = Some y \<Longrightarrow> wf x \<Longrightarrow> wf y"
proof (induction kvs arbitrary: x)
  case (Cons kv kvs)
  obtain k v where kv: "kv = (k, v)" by force
  show ?case
  proof (cases "map_of sets (lower k)")
    case (Some f)
    then obtain x' where "f v x = Some x'" "decode_fields sets kvs x' = Some y" using Cons.prems(1) by (auto simp: kv split: option.splits)
    with Some show ?thesis using Cons.IH Cons.prems(2) setter_wf [OF map_of_SomeD] by blast
  qed (use Cons in \<open>simp add: kv\<close>)
qed simp

lemma struct_wf: "decode_struct sets j x = Some y \<Longrightarrow> wf x \<Longrightarrow> wf y"
  by (cases j) (auto dest: fields_wf)

lemma list_wf: "decode_list sets z vs = Some ys \<Longrightarrow> wf z \<Longrightarrow> \<forall>y \<in> set ys. wf y"
  by (induction vs arbitrary: ys) (auto split: option.splits dest: struct_wf)

lemma as_list_wf: "as_list sets z v = Some ys \<Longrightarrow> wf z \<Longrightarrow> y \<in> set ys \<Longrightarrow> wf y"
  by (cases v) (auto dest: list_wf)

lemma nested_wf: "nested sets get upd v x = Some y \<Longrightarrow> wf (get x) \<Longrightarrow> \<exists>b. wf b \<and> y = upd b x"
  by (auto simp: nested_def dest: struct_wf)

end

lemma set_toE: "set_to conv upd v x = Some y \<Longrightarrow> (y = x \<Longrightarrow> P) \<Longrightarrow> (\<And>b. conv v = Some b \<Longrightarrow> y = upd b x \<Longrightarrow> P) \<Longrightarrow> P"
  by (auto simp: set_to_def split: if_splits)

lemma as_int_int64: "as_int v = Some b \<Longrightarrow> int64 b"
  by (cases v) (auto simp: int64_def split: if_splits)

definition instance_typed :: "instance_cfg \<Rightarrow> bool" where
  "instance_typed x \<longleftrightarrow> int64 (inst_port x) \<and> int64 (inst_max x)"

definition routing_typed :: "routing \<Rightarrow> bool" where
  "routing_typed x \<longleftrightarrow> int64 (affinity_floor x) \<and> int64 (affinity_wait_ns x) \<and> int64 (placement_size x)"

definition breaker_typed :: "breaker_conf \<Rightarrow> bool" where
  "breaker_typed x \<longleftrightarrow> int64 (failure_threshold x) \<and> int64 (open_duration x) \<and> int64 (max_open_duration x) \<and> int64 (half_open_max x)"

definition health_typed :: "health_conf \<Rightarrow> bool" where
  "health_typed x \<longleftrightarrow> int64 (health_interval x) \<and> int64 (health_timeout x) \<and> int64 (unhealthy_threshold x) \<and> int64 (healthy_threshold x)"

definition reliability_typed :: "reliability \<Rightarrow> bool" where
  "reliability_typed x \<longleftrightarrow> int64 (max_attempts x) \<and> int64 (attempt_timeout x) \<and> int64 (stream_idle_timeout x) \<and> int64 (retry_backoff x)
     \<and> int64 (overall_timeout x) \<and> breaker_typed (rel_breaker x) \<and> health_typed (rel_health x)"

definition admission_typed :: "admission_conf \<Rightarrow> bool" where
  "admission_typed x \<longleftrightarrow> int64 (max_queue x) \<and> int64 (queue_timeout x)"

definition config_typed :: "gw_config \<Rightarrow> bool" where
  "config_typed x \<longleftrightarrow> int64 (gw_port x) \<and> int64 (max_concurrent_per_node x) \<and> (\<forall>i \<in> set (sglang_instances x). instance_typed i)
     \<and> routing_typed (gw_routing x) \<and> reliability_typed (gw_reliability x) \<and> admission_typed (gw_admission x)"

text \<open>\<^verbatim>\<open>time.ParseDuration\<close> gives a 64-bit duration; a decoder of durations that does is \<open>duration_range\<close>.\<close>

definition duration_range :: "(string \<Rightarrow> int option) \<Rightarrow> bool" where
  "duration_range dur \<longleftrightarrow> (\<forall>s d. dur s = Some d \<longrightarrow> int64 d)"

lemma as_dur_int64: "duration_range dur \<Longrightarrow> as_dur dur v = Some b \<Longrightarrow> int64 b"
  by (auto simp: as_dur_def duration_range_def bind_eq_Some_conv)

lemmas setter_int64 = as_int_int64 as_dur_int64

interpretation instance_struct: typed_struct instance_setters instance_typed
  by unfold_locales (auto simp: instance_setters_def instance_typed_def elim!: set_toE dest: setter_int64)

text \<open>The structs with durations, for every decoder of durations that stays in range.\<close>

interpretation routing_struct: typed_struct "routing_setters dur" "\<lambda>x. duration_range dur \<longrightarrow> routing_typed x" for dur
  by unfold_locales (auto simp: routing_setters_def routing_typed_def elim!: set_toE dest: setter_int64)

interpretation breaker_struct: typed_struct "breaker_setters dur" "\<lambda>x. duration_range dur \<longrightarrow> breaker_typed x" for dur
  by unfold_locales (auto simp: breaker_setters_def breaker_typed_def elim!: set_toE dest: setter_int64)

interpretation health_struct: typed_struct "health_setters dur" "\<lambda>x. duration_range dur \<longrightarrow> health_typed x" for dur
  by unfold_locales (auto simp: health_setters_def health_typed_def elim!: set_toE dest: setter_int64)

interpretation admission_struct: typed_struct "admission_setters dur" "\<lambda>x. duration_range dur \<longrightarrow> admission_typed x" for dur
  by unfold_locales (auto simp: admission_setters_def admission_typed_def elim!: set_toE dest: setter_int64)

interpretation reliability_struct: typed_struct "reliability_setters dur" "\<lambda>x. duration_range dur \<longrightarrow> reliability_typed x" for dur
  by unfold_locales
    (auto simp: reliability_setters_def reliability_typed_def elim!: set_toE dest: setter_int64 dest!: breaker_struct.nested_wf health_struct.nested_wf)

interpretation config_struct: typed_struct "config_setters dur" "\<lambda>x. duration_range dur \<longrightarrow> config_typed x" for dur
proof unfold_locales
  fix k f v x y
  assume f: "(k, f) \<in> set (config_setters dur)" "f v x = Some y" and x: "duration_range dur \<longrightarrow> config_typed x"
  have z: "instance_typed instance0" by (simp add: instance_typed_def instance0_def int64_def)
  show "duration_range dur \<longrightarrow> config_typed y"
    using f x instance_struct.as_list_wf [OF _ z]
    by (auto simp: config_setters_def config_typed_def elim!: set_toE dest: setter_int64
        dest!: routing_struct.nested_wf reliability_struct.nested_wf admission_struct.nested_wf)
qed



end
