(* ===== verification/Handler.thy ===== *)
theory Handler
  imports Router_Choice Gw_Config "HOL-Library.AList" "HOL-Library.Sublist"
begin

section \<open>The chat handler (gateway-go/handler)\<close>

text \<open>
  Models \<^verbatim>\<open>chat.go\<close> and \<^verbatim>\<open>direct.go\<close>: the defaults and the forwarded body, the attempts on one node after the other, the first-byte commit, and
  the answers to the client. What a node does in one attempt is an \<open>upstream\<close>: the error of the request, or a status and the reads of its
  body. The state of a request is what the client received, the labels passed to \<^verbatim>\<open>finish\<close>, the other metrics it touched, and how each lease
  ended. The forwarded fields are valid JSON as they were decoded, so the handler's answer to a body that cannot be encoded is never given.
\<close>

subsection \<open>What happens outside\<close>

datatype read_end = EOF | ReadErr

text \<open>A body: the reads that return no error, then the last read with the error it returns. A read may be empty.\<close>

datatype reply = DoErr | Resp int string "string list" string read_end

record upstream =
  request_ok :: bool
  reply_of :: reply
  stalled :: bool
  ctx_done :: bool
  client_ok :: "nat \<Rightarrow> bool"

datatype acq_err = NoNode | QueueFull | QueueTimeout | DeadlineExceeded | Canceled

datatype lease_end = LDone bool | LRelease

text \<open>What is reported to the metrics of \<^verbatim>\<open>metrics.go\<close>, apart from \<^verbatim>\<open>RequestsTotal\<close>; observed durations are not numbers of the model.\<close>

datatype meter = ActiveInc | ActiveDec | RequestDuration | QueueWait | Retry string | UpstreamAttempt string string | MidstreamFailure string | TimeToFirstByte

datatype verdict = outDone | outRetry | outAbort | panicked

record hstate =
  wrote :: bool
  status :: "int option"
  header :: "(string \<times> string) list"
  written :: "string list"
  labels :: "string list"
  tried :: "string list"
  ends :: "(string \<times> lease_end) list"
  meters :: "meter list"

definition hstate0 :: hstate where
  "hstate0 = \<lparr>wrote = False, status = None, header = [], written = [], labels = [], tried = [], ends = [], meters = []\<rparr>"

subsection \<open>Writing to the client\<close>

definition setHeader :: "string \<Rightarrow> string \<Rightarrow> hstate \<Rightarrow> hstate" where
  "setHeader k v s = s\<lparr>header := AList.update k v (header s)\<rparr>"

text \<open>The second of two \<^verbatim>\<open>WriteHeader\<close> calls has no effect; a \<^verbatim>\<open>Write\<close> without one sends status 200.\<close>

definition WriteHeader :: "int \<Rightarrow> hstate \<Rightarrow> hstate" where
  "WriteHeader st s = s\<lparr>wrote := True, status := (case status s of None \<Rightarrow> Some st | Some c \<Rightarrow> Some c)\<rparr>"

definition Write :: "string \<Rightarrow> hstate \<Rightarrow> hstate" where
  "Write p s = (WriteHeader 200 s)\<lparr>written := written s @ [p]\<rparr>"

definition finish_label :: "string \<Rightarrow> hstate \<Rightarrow> hstate" where
  "finish_label l s = s\<lparr>labels := labels s @ [l]\<rparr>"

definition lease_ended :: "string \<Rightarrow> lease_end \<Rightarrow> hstate \<Rightarrow> hstate" where
  "lease_ended n e s = s\<lparr>ends := ends s @ [(n, e)]\<rparr>"

definition observe :: "meter \<Rightarrow> hstate \<Rightarrow> hstate" where
  "observe m s = s\<lparr>meters := meters s @ [m]\<rparr>"

definition error_json :: "string \<Rightarrow> string" where
  "error_json msg = ''{'' @ [CHR 0x22] @ ''error'' @ [CHR 0x22, CHR '':'', CHR 0x22] @ msg @ [CHR 0x22] @ ''}'' @ [CHR 0x0A]"

definition writeJSON :: "int \<Rightarrow> string \<Rightarrow> hstate \<Rightarrow> hstate" where
  "writeJSON st msg s = Write (error_json msg) (WriteHeader st (setHeader ''Content-Type'' ''application/json'' s))"

subsection \<open>One attempt\<close>

definition interrupted_json :: string where
  "interrupted_json =
     (let q = [CHR 0x22]
      in ''{'' @ q @ ''error'' @ q @ '':{'' @ q @ ''type'' @ q @ '':'' @ q @ ''upstream_interrupted'' @ q @ '','' @ q @ ''message'' @ q @ '':'' @ q
         @ ''node stream interrupted after output started; the request was not retried'' @ q @ ''}}'')"

definition interrupted_event :: string where
  "interrupted_event = ''data: '' @ interrupted_json @ [CHR 0x0A, CHR 0x0A]"

text \<open>The loop after the first chunk: write every non-empty read; \<open>False\<close> when the client is gone. \<open>k\<close> counts the writes.\<close>

fun copy_reads :: "(nat \<Rightarrow> bool) \<Rightarrow> nat \<Rightarrow> string list \<Rightarrow> hstate \<Rightarrow> hstate \<times> bool" where
  "copy_reads ok k [] s = (s, True)"
| "copy_reads ok k (c # cs) s =
     (if c = [] then copy_reads ok k cs s
      else if ok k then copy_reads ok (Suc k) cs (Write c s)
      else (s, False))"

text \<open>The first chunk, the observation of the first byte, then the rest.\<close>

definition copy_body :: "(nat \<Rightarrow> bool) \<Rightarrow> string list \<Rightarrow> hstate \<Rightarrow> hstate \<times> bool" where
  "copy_body ok reads s =
     (let (s, alive) = copy_reads ok 0 (take 1 reads) s
      in if \<not> alive then (s, False)
         else copy_reads ok (length (filter (\<lambda>c. c \<noteq> []) (take 1 reads))) (drop 1 reads) (observe TimeToFirstByte s))"

definition cancelled :: "string \<Rightarrow> hstate \<Rightarrow> hstate \<times> verdict \<times> string" where
  "cancelled n s = (finish_label ''cancelled'' (observe (UpstreamAttempt n ''canceled'') (lease_ended n LRelease s)), outAbort, ''canceled'')"

text \<open>From the commit point on: the headers, the first chunk, the rest of the body, and the verdict on the lease.\<close>

definition relay :: "string \<Rightarrow> nat \<Rightarrow> upstream \<Rightarrow> int \<Rightarrow> string \<Rightarrow> string list \<Rightarrow> read_end \<Rightarrow> hstate \<Rightarrow> hstate \<times> verdict \<times> string" where
  "relay n attempt u st ct reads rend s0 =
     (let isSSE = startswith ct ''text/event-stream'';
          s = (if ct \<noteq> [] then setHeader ''Content-Type'' ct s0 else s0);
          s = (if isSSE then setHeader ''X-Accel-Buffering'' ''no'' (setHeader ''Cache-Control'' ''no-cache'' s) else s);
          s = setHeader ''X-Gateway-Attempts'' (show_nat attempt) (setHeader ''X-Gateway-Node'' n s);
          s = WriteHeader st s;
          (s, alive) = copy_body (client_ok u) reads s
      in if \<not> alive then cancelled n s
         else case rend of
                EOF \<Rightarrow> (finish_label ''direct_ok'' (observe (UpstreamAttempt n ''ok'') (lease_ended n (LDone True) s)), outDone, ''ok'')
              | ReadErr \<Rightarrow>
                  if ctx_done u then cancelled n s
                  else (let s = finish_label ''midstream_failed'' (observe (MidstreamFailure n) (observe (UpstreamAttempt n ''midstream_error'') (lease_ended n (LDone False) s)))
                        in if isSSE then (Write interrupted_event s, outDone, ''midstream_error'') else (s, panicked, ''midstream_error'')))"

definition first_read_failed :: "string list \<Rightarrow> string \<Rightarrow> read_end \<Rightarrow> bool" where
  "first_read_failed chunks final rend = (chunks = [] \<and> final = [] \<and> rend = ReadErr)"

definition attempt_node :: "string \<Rightarrow> nat \<Rightarrow> upstream \<Rightarrow> hstate \<Rightarrow> hstate \<times> verdict \<times> string" where
  "attempt_node n attempt u s =
     (let fail = (\<lambda>reason. (observe (UpstreamAttempt n reason) (lease_ended n (LDone False) s), outRetry, reason));
          abort = (observe (UpstreamAttempt n ''canceled'') (lease_ended n LRelease s), outAbort, ''canceled'')
      in if \<not> request_ok u then (lease_ended n LRelease s, outRetry, ''internal_error'')
         else case reply_of u of
                DoErr \<Rightarrow> if ctx_done u then abort else if stalled u then fail ''timeout'' else fail ''conn_error''
              | Resp st ct chunks final rend \<Rightarrow>
                  if st = 429 then (observe (UpstreamAttempt n ''busy'') (lease_ended n LRelease s), outRetry, ''busy'')
                  else if st \<ge> 500 \<and> st \<noteq> 501 then fail ''http_5xx''
                  else if first_read_failed chunks final rend
                  then (if ctx_done u then abort else if stalled u then fail ''timeout'' else fail ''read_error'')
                  else relay n attempt u st ct (chunks @ [final]) rend s)"


subsection \<open>The request\<close>

text \<open>
  The decoded request: the roles and contents of its messages (the content as \<^verbatim>\<open>messageContentForRouting\<close> reads it: the text of a JSON
  string, or the raw bytes), the optional fields, and all fields as they were sent. \<open>None\<close> when decoding failed.
\<close>

record chat_request =
  messages :: "(string \<times> string) list"
  req_model :: string
  req_stream :: "bool option"
  req_temperature :: "real option"
  req_max_tokens :: "int option"
  req_target :: string
  req_fields :: "(string \<times> json) list"

definition computePrefixHash :: "(string \<Rightarrow> string) \<Rightarrow> string \<Rightarrow> string" where
  "computePrefixHash sha256_hex systemContent =
     sha256_hex (if systemContent = [] then ''__no_system__'' else systemContent)"

definition system_content :: "(string \<times> string) list \<Rightarrow> string" where
  "system_content msgs = (case find (\<lambda>m. fst m = ''system'') msgs of None \<Rightarrow> [] | Some m \<Rightarrow> snd m)"

definition set_default :: "string \<Rightarrow> json \<Rightarrow> (string \<times> json) list \<Rightarrow> (string \<times> json) list" where
  "set_default k v fs = (if map_of fs k = None then AList.update k v fs else fs)"

text \<open>
  The default temperature and token limit apply when the key is absent; a key with the value \<^verbatim>\<open>null\<close> is present and is forwarded as it is.
\<close>

definition forward_fields :: "string \<Rightarrow> chat_request \<Rightarrow> (string \<times> json) list" where
  "forward_fields dmodel q =
     (let model = (if req_model q \<noteq> [] \<and> req_model q \<noteq> ''default'' then req_model q else dmodel);
          streamMode = (case req_stream q of None \<Rightarrow> True | Some b \<Rightarrow> b);
          temperature = (case req_temperature q of None \<Rightarrow> 0.7 | Some t \<Rightarrow> t);
          maxTokens = (case req_max_tokens q of None \<Rightarrow> 512 | Some m \<Rightarrow> m);
          fs = AList.update ''stream'' (JBool streamMode) (AList.update ''model'' (JStr model) (req_fields q));
          fs = set_default ''max_tokens'' (JInt maxTokens) (set_default ''temperature'' (JFloat temperature) fs)
      in AList.delete ''target'' fs)"

subsection \<open>Back-off\<close>

text \<open>
  \<open>None\<close> is the panic of \<^verbatim>\<open>rand.Int63n\<close> on an argument that is not positive; \<open>draw\<close> is the non-negative number it reduces. The shift
  wraps as \<^verbatim>\<open>int64\<close> and the division truncates towards zero.
\<close>

definition backoff :: "int \<Rightarrow> nat \<Rightarrow> int \<Rightarrow> int option" where
  "backoff retryBackoff attempt draw =
     (let d = wrap64 (retryBackoff * 2 ^ (attempt - 1));
          d = (if d > 1000000000 then 1000000000 else d);
          half = sgn d * (\<bar>d\<bar> div 2)
      in if half + 1 \<le> 0 then None else Some (half + draw mod (half + 1)))"

subsection \<open>The attempts\<close>

text \<open>
  Attempt \<open>a\<close> asks the router for a node (\<open>acquire_at\<close>, given the nodes to avoid); \<open>upstream_at\<close> is what that node does; \<open>slept\<close> whether
  the back-off ended before the context, \<open>deadline\<close> whether the context ended by its deadline.
\<close>

record henv =
  acquire_at :: "nat \<Rightarrow> string list \<Rightarrow> acq_err + string"
  upstream_at :: "nat \<Rightarrow> string \<Rightarrow> upstream"
  slept :: "nat \<Rightarrow> bool"
  deadline :: "nat \<Rightarrow> bool"
  draws :: "nat \<Rightarrow> int"

text \<open>\<^verbatim>\<open>init\<close>: a field of \<^verbatim>\<open>Reliability\<close> that is zero takes its default; \<open>timeout\<close> is the deprecated overall timeout.\<close>

definition handler_init :: "int \<Rightarrow> reliability \<Rightarrow> reliability" where
  "handler_init timeout r =
     (let def = DefaultReliability;
          r = (if max_attempts r = 0 then r\<lparr>max_attempts := max_attempts def\<rparr> else r);
          r = (if attempt_timeout r = 0 then r\<lparr>attempt_timeout := attempt_timeout def\<rparr> else r);
          r = (if stream_idle_timeout r = 0 then r\<lparr>stream_idle_timeout := stream_idle_timeout def\<rparr> else r);
          r = (if retry_backoff r = 0 then r\<lparr>retry_backoff := retry_backoff def\<rparr> else r);
          r = (if overall_timeout r = 0
               then (let r = r\<lparr>overall_timeout := overall_timeout def\<rparr> in if timeout > 0 then r\<lparr>overall_timeout := timeout\<rparr> else r) else r)
      in r)"

definition rejectAcquire :: "acq_err \<Rightarrow> nat \<Rightarrow> hstate \<Rightarrow> hstate" where
  "rejectAcquire e attempt s0 =
     (let s = setHeader ''Retry-After'' ''1'' s0
      in case e of
           QueueFull \<Rightarrow> writeJSON 429 ''gateway admission queue is full'' (finish_label ''queue_full'' s)
         | QueueTimeout \<Rightarrow> writeJSON 503 ''timed out waiting for node capacity'' (finish_label ''queue_timeout'' s)
         | NoNode \<Rightarrow>
             if attempt > 1 then writeJSON 502 ''inference engine error: every available node failed'' (finish_label ''upstream_failed'' s)
             else writeJSON 503 ''no SGLang instance available for target group'' (finish_label ''no_node'' s)
         | DeadlineExceeded \<Rightarrow> writeJSON 504 ''request deadline exceeded while waiting for capacity'' (finish_label ''timeout'' s)
         | Canceled \<Rightarrow> finish_label ''cancelled'' s)"

definition all_failed :: "reliability \<Rightarrow> string \<Rightarrow> hstate \<Rightarrow> hstate" where
  "all_failed rel lastReason s =
     writeJSON 502 (''inference engine error: all '' @ show_int (max_attempts rel) @ '' attempts failed (last: '' @ lastReason @ '')'')
       (setHeader ''Retry-After'' ''1'' (finish_label ''upstream_failed'' s))"

text \<open>What happens between \<^verbatim>\<open>Acquire\<close> and the attempt.\<close>

definition begin_attempt :: "nat \<Rightarrow> string \<Rightarrow> string \<Rightarrow> hstate \<Rightarrow> hstate" where
  "begin_attempt attempt lastReason n s =
     (let s = observe QueueWait s;
          s = (if attempt > 1 then observe (Retry lastReason) s else s)
      in s\<lparr>tried := tried s @ [n]\<rparr>)"

text \<open>\<open>left\<close> is the number of attempts left; the result says whether the handler returned or panicked.\<close>

fun serve_loop :: "henv \<Rightarrow> reliability \<Rightarrow> nat \<Rightarrow> nat \<Rightarrow> string list \<Rightarrow> string \<Rightarrow> hstate \<Rightarrow> hstate \<times> bool" where
  "serve_loop env rel 0 attempt exclude lastReason s = (all_failed rel lastReason s, True)"
| "serve_loop env rel (Suc left) attempt exclude lastReason s =
     (case acquire_at env attempt exclude of
        Inl e \<Rightarrow> (rejectAcquire e attempt (observe QueueWait s), True)
      | Inr n \<Rightarrow>
          (case attempt_node n attempt (upstream_at env attempt n) (begin_attempt attempt lastReason n s) of
             (s, v, reason) \<Rightarrow>
               (case v of
                  outDone \<Rightarrow> (s, True)
                | panicked \<Rightarrow> (s, False)
                | outAbort \<Rightarrow>
                    (if \<not> wrote s \<and> deadline env attempt then writeJSON 504 ''request deadline exceeded'' (finish_label ''timeout'' s)
                     else if \<not> wrote s then finish_label ''cancelled'' s else s, True)
                | outRetry \<Rightarrow>
                    if left > 0
                    then (case backoff (retry_backoff rel) attempt (draws env attempt) of
                            None \<Rightarrow> (s, False)
                          | Some _ \<Rightarrow>
                              if \<not> slept env attempt then (finish_label ''cancelled'' s, True)
                              else serve_loop env rel left (Suc attempt) (exclude @ [n]) reason s)
                    else serve_loop env rel left (Suc attempt) (exclude @ [n]) reason s)))"

text \<open>
  A handler, and what its requests meet: the hash, the router (called with the prefix hash and the target group), the nodes (which receive the
  forwarded fields), timers and random numbers. \<open>request_env\<close> is the surrounding of one request, with its routing key and its body computed.
\<close>

record direct_handler =
  handler_model :: string
  handler_rel :: reliability
  handler_timeout :: int

record genv =
  sha256_hex :: "string \<Rightarrow> string"
  acquire_for :: "string \<Rightarrow> string \<Rightarrow> nat \<Rightarrow> string list \<Rightarrow> acq_err + string"
  upstream_for :: "(string \<times> json) list \<Rightarrow> nat \<Rightarrow> string \<Rightarrow> upstream"
  slept_for :: "nat \<Rightarrow> bool"
  deadline_for :: "nat \<Rightarrow> bool"
  draws_for :: "nat \<Rightarrow> int"

definition request_env :: "direct_handler \<Rightarrow> genv \<Rightarrow> chat_request \<Rightarrow> henv" where
  "request_env h g q =
     \<lparr>acquire_at = acquire_for g (computePrefixHash (sha256_hex g) (system_content (messages q))) (req_target q),
      upstream_at = upstream_for g (forward_fields (handler_model h) q),
      slept = slept_for g, deadline = deadline_for g, draws = draws_for g\<rparr>"

definition rel_of :: "direct_handler \<Rightarrow> reliability" where
  "rel_of h = handler_init (handler_timeout h) (handler_rel h)"

text \<open>The deferred function runs when the handler returns and when it panics.\<close>

definition deferred :: "hstate \<times> bool \<Rightarrow> hstate \<times> bool" where
  "deferred sr = (observe RequestDuration (observe ActiveDec (fst sr)), snd sr)"

definition ServeHTTP :: "direct_handler \<Rightarrow> genv \<Rightarrow> string \<Rightarrow> string option \<Rightarrow> chat_request option \<Rightarrow> hstate \<times> bool" where
  "ServeHTTP h g meth body req =
     (if meth \<noteq> ''POST'' then (Write (''method not allowed'' @ [CHR 0x0A]) (WriteHeader 405
             (setHeader ''X-Content-Type-Options'' ''nosniff'' (setHeader ''Content-Type'' ''text/plain; charset=utf-8'' hstate0))), True)
      else (let s = observe ActiveInc hstate0
            in deferred (case body of
        None \<Rightarrow> (writeJSON 400 ''request body is invalid or exceeds 4 MiB'' (finish_label ''bad_request'' s), True)
      | Some _ \<Rightarrow>
          (case req of
             None \<Rightarrow> (writeJSON 400 (''missing or invalid '' @ [CHR 0x27] @ ''messages'' @ [CHR 0x27] @ '' field'') (finish_label ''bad_request'' s), True)
           | Some q \<Rightarrow>
               if messages q = []
               then (writeJSON 400 (''missing or invalid '' @ [CHR 0x27] @ ''messages'' @ [CHR 0x27] @ '' field'') (finish_label ''bad_request'' s), True)
               else serve_loop (request_env h g q) (rel_of h) (nat (max_attempts (rel_of h))) 1 [] [] s))))"


subsection \<open>Lemmas\<close>

named_theorems hst

lemma setHeader_fields [hst]:
  "wrote (setHeader k v s) = wrote s" "status (setHeader k v s) = status s" "written (setHeader k v s) = written s"
  "labels (setHeader k v s) = labels s" "tried (setHeader k v s) = tried s" "ends (setHeader k v s) = ends s"
  by (simp_all add: setHeader_def)

lemma Write_fields [hst]:
  "wrote (Write p s)" "written (Write p s) = written s @ [p]" "labels (Write p s) = labels s" "tried (Write p s) = tried s" "ends (Write p s) = ends s"
  "header (Write p s) = header s" "status (Write p s) = Some (case status s of None \<Rightarrow> 200 | Some c \<Rightarrow> c)"
  by (simp_all add: Write_def WriteHeader_def split: option.splits)

lemma WriteHeader_fields [hst]:
  "wrote (WriteHeader c s)" "written (WriteHeader c s) = written s" "labels (WriteHeader c s) = labels s" "tried (WriteHeader c s) = tried s"
  "ends (WriteHeader c s) = ends s" "header (WriteHeader c s) = header s" "status (WriteHeader c s) = Some (case status s of None \<Rightarrow> c | Some d \<Rightarrow> d)"
  by (simp_all add: WriteHeader_def split: option.splits)

lemma label_fields [hst]:
  "wrote (finish_label l s) = wrote s" "status (finish_label l s) = status s" "written (finish_label l s) = written s"
  "labels (finish_label l s) = labels s @ [l]" "tried (finish_label l s) = tried s" "ends (finish_label l s) = ends s" "header (finish_label l s) = header s"
  by (simp_all add: finish_label_def)

lemma ended_fields [hst]:
  "wrote (lease_ended n e s) = wrote s" "status (lease_ended n e s) = status s" "written (lease_ended n e s) = written s"
  "labels (lease_ended n e s) = labels s" "tried (lease_ended n e s) = tried s" "ends (lease_ended n e s) = ends s @ [(n, e)]"
  "header (lease_ended n e s) = header s"
  by (simp_all add: lease_ended_def)

lemma writeJSON_fields [hst]:
  "wrote (writeJSON c m s)" "written (writeJSON c m s) = written s @ [error_json m]" "labels (writeJSON c m s) = labels s"
  "tried (writeJSON c m s) = tried s" "ends (writeJSON c m s) = ends s" "status (writeJSON c m s) = Some (case status s of None \<Rightarrow> c | Some d \<Rightarrow> d)"
  by (simp_all add: writeJSON_def hst split: option.splits)

lemma observe_fields [hst]:
  "wrote (observe m s) = wrote s" "status (observe m s) = status s" "written (observe m s) = written s" "labels (observe m s) = labels s"
  "tried (observe m s) = tried s" "ends (observe m s) = ends s" "header (observe m s) = header s" "meters (observe m s) = meters s @ [m]"
  by (simp_all add: observe_def)

lemma meters_fields [hst]:
  "meters (setHeader k v s) = meters s" "meters (Write p s) = meters s" "meters (WriteHeader c s) = meters s" "meters (finish_label l s) = meters s"
  "meters (lease_ended n e s) = meters s" "meters (writeJSON c m s) = meters s"
  by (simp_all add: setHeader_def Write_def WriteHeader_def finish_label_def lease_ended_def writeJSON_def)

lemma begin_fields [hst]:
  "wrote (begin_attempt a lr n s) = wrote s" "status (begin_attempt a lr n s) = status s" "written (begin_attempt a lr n s) = written s"
  "labels (begin_attempt a lr n s) = labels s" "tried (begin_attempt a lr n s) = tried s @ [n]" "ends (begin_attempt a lr n s) = ends s"
  "header (begin_attempt a lr n s) = header s" "meters (begin_attempt a lr n s) = meters s @ QueueWait # (if a > 1 then [Retry lr] else [])"
  by (simp_all add: begin_attempt_def Let_def hst)

text \<open>What is copied is a prefix of the non-empty reads, and all of them when the client stays.\<close>

abbreviation nonempty :: "string list \<Rightarrow> string list" where
  "nonempty \<equiv> filter (\<lambda>c. c \<noteq> [])"

lemma copy_reads_effect:
  "copy_reads ok k cs s = (s', alive) \<Longrightarrow>
   \<exists>ys. written s' = written s @ ys \<and> prefix ys (nonempty cs) \<and> (alive \<longrightarrow> ys = nonempty cs)
     \<and> labels s' = labels s \<and> tried s' = tried s \<and> ends s' = ends s \<and> header s' = header s \<and> meters s' = meters s
     \<and> (wrote s \<longrightarrow> wrote s') \<and> (\<forall>c. status s = Some c \<longrightarrow> status s' = Some c)"
proof (induction ok k cs s rule: copy_reads.induct)
  case (2 ok k c cs s)
  show ?case
  proof (cases "c = []")
    case True
    with 2 show ?thesis by simp
  next
    case False
    show ?thesis
    proof (cases "ok k")
      case True
      with False 2(3) have "copy_reads ok (Suc k) cs (Write c s) = (s', alive)" by simp
      from 2(2) [OF False True this] obtain ys where ys: "written s' = written s @ c # ys" "prefix ys (nonempty cs)" "alive \<longrightarrow> ys = nonempty cs"
        "labels s' = labels s \<and> tried s' = tried s \<and> ends s' = ends s \<and> header s' = header s \<and> meters s' = meters s \<and> wrote s'
         \<and> (\<forall>d. status s = Some d \<longrightarrow> status s' = Some d)"
        by (auto simp: hst)
      show ?thesis by (rule exI [of _ "c # ys"]) (use False ys in simp)
    qed (use False 2(3) in auto)
  qed
qed simp

lemma copy_body_effect:
  assumes "copy_body ok cs s = (s', alive)"
  shows "\<exists>ys fb. written s' = written s @ ys \<and> prefix ys (nonempty cs) \<and> (alive \<longrightarrow> ys = nonempty cs)
     \<and> labels s' = labels s \<and> tried s' = tried s \<and> ends s' = ends s \<and> header s' = header s \<and> meters s' = meters s @ (if fb then [TimeToFirstByte] else [])
     \<and> (alive \<longrightarrow> fb) \<and> (wrote s \<longrightarrow> wrote s') \<and> (\<forall>c. status s = Some c \<longrightarrow> status s' = Some c)"
proof -
  obtain s1 a1 where 1: "copy_reads ok 0 (take 1 cs) s = (s1, a1)" by force
  have cs: "nonempty cs = nonempty (take 1 cs) @ nonempty (drop 1 cs)" by (metis append_take_drop_id filter_append)
  obtain ys1 where e1: "written s1 = written s @ ys1" "prefix ys1 (nonempty (take 1 cs))" "a1 \<longrightarrow> ys1 = nonempty (take 1 cs)" "labels s1 = labels s"
    "tried s1 = tried s" "ends s1 = ends s" "header s1 = header s" "meters s1 = meters s" "wrote s \<longrightarrow> wrote s1" "\<forall>c. status s = Some c \<longrightarrow> status s1 = Some c"
    using copy_reads_effect [OF 1] by blast
  show ?thesis
  proof (cases a1)
    case False
    with 1 assms have "s' = s1" "\<not> alive" by (simp_all add: copy_body_def)
    with e1 cs show ?thesis by (intro exI [of _ ys1] exI [of _ False]) simp
  next
    case True
    with 1 assms have 2: "copy_reads ok (length (nonempty (take 1 cs))) (drop 1 cs) (observe TimeToFirstByte s1) = (s', alive)" by (simp add: copy_body_def)
    obtain ys2 where e2: "written s' = written s1 @ ys2" "prefix ys2 (nonempty (drop 1 cs))" "alive \<longrightarrow> ys2 = nonempty (drop 1 cs)" "labels s' = labels s1"
      "tried s' = tried s1" "ends s' = ends s1" "header s' = header s1" "meters s' = meters s1 @ [TimeToFirstByte]" "wrote s1 \<longrightarrow> wrote s'"
      "\<forall>c. status s1 = Some c \<longrightarrow> status s' = Some c"
      using copy_reads_effect [OF 2] by (auto simp only: observe_fields)
    from e1 e2 cs True show ?thesis by (intro exI [of _ "ys1 @ ys2"] exI [of _ True]) simp
  qed
qed

text \<open>A node's answer relayed to the client: nothing but its bytes, in order and each at most once, then at most the error event.\<close>

definition relayed :: "upstream \<Rightarrow> hstate \<Rightarrow> bool" where
  "relayed u s = (case reply_of u of
     DoErr \<Rightarrow> False
   | Resp st ct chunks final rend \<Rightarrow> status s = Some st \<and>
       (prefix (written s) (nonempty (chunks @ [final])) \<or> rend = ReadErr \<and> written s = nonempty (chunks @ [final]) @ [interrupted_event]))"

definition silent :: "hstate \<Rightarrow> bool" where
  "silent s \<longleftrightarrow> \<not> wrote s \<and> status s = None \<and> written s = []"

lemma relay_effect:
  assumes "relay n a u st ct reads rend s = (s', v, reason)" "silent s"
  shows "v \<noteq> outRetry \<and> wrote s' \<and> status s' = Some st \<and> tried s' = tried s \<and> (\<exists>e. ends s' = ends s @ [(n, e)])
    \<and> (prefix (written s') (nonempty reads) \<or> rend = ReadErr \<and> written s' = nonempty reads @ [interrupted_event])"
proof -
  define s1 where "s1 = WriteHeader st (setHeader ''X-Gateway-Attempts'' (show_nat a) (setHeader ''X-Gateway-Node'' n
     (let s = (if ct \<noteq> [] then setHeader ''Content-Type'' ct s else s)
      in if startswith ct ''text/event-stream'' then setHeader ''X-Accel-Buffering'' ''no'' (setHeader ''Cache-Control'' ''no-cache'' s) else s)))"
  have s1: "wrote s1" "status s1 = Some st" "written s1 = []" "tried s1 = tried s" "ends s1 = ends s"
    using assms(2) by (simp_all add: s1_def hst silent_def Let_def)
  obtain s2 alive where c: "copy_body (client_ok u) reads s1 = (s2, alive)" by force
  from copy_body_effect [OF c] s1 have s2: "prefix (written s2) (nonempty reads)" "alive \<longrightarrow> written s2 = nonempty reads"
    "wrote s2" "status s2 = Some st" "tried s2 = tried s" "ends s2 = ends s" by auto
  have "relay n a u st ct reads rend s =
     (if \<not> alive then cancelled n s2
      else case rend of
        EOF \<Rightarrow> (finish_label ''direct_ok'' (observe (UpstreamAttempt n ''ok'') (lease_ended n (LDone True) s2)), outDone, ''ok'')
      | ReadErr \<Rightarrow> if ctx_done u then cancelled n s2
          else (let s = finish_label ''midstream_failed'' (observe (MidstreamFailure n) (observe (UpstreamAttempt n ''midstream_error'') (lease_ended n (LDone False) s2)))
                in if startswith ct ''text/event-stream'' then (Write interrupted_event s, outDone, ''midstream_error'') else (s, panicked, ''midstream_error'')))"
    using c by (simp add: relay_def s1_def Let_def)
  with assms(1) s2 show ?thesis
    by (auto simp: cancelled_def hst Let_def split: if_splits read_end.splits)
qed

lemma copy_all: "\<forall>k. ok k \<Longrightarrow> \<exists>s'. copy_reads ok k cs s = (s', True) \<and> written s' = written s @ nonempty cs"
proof (induction cs arbitrary: k s)
  case (Cons c cs)
  then show ?case using Cons.IH [of "Suc k" "Write c s"] by (auto simp: hst)
qed simp

lemma copy_body_all: "\<forall>k. ok k \<Longrightarrow> \<exists>s'. copy_body ok cs s = (s', True) \<and> written s' = written s @ nonempty cs"
proof -
  assume ok: "\<forall>k. ok k"
  obtain s1 where 1: "copy_reads ok 0 (take 1 cs) s = (s1, True)" using copy_all [OF ok] by blast
  obtain s2 where 2: "copy_reads ok (length (nonempty (take 1 cs))) (drop 1 cs) (observe TimeToFirstByte s1) = (s2, True)" using copy_all [OF ok] by blast
  from 1 2 have c: "copy_body ok cs s = (s2, True)" by (simp add: copy_body_def)
  from copy_body_effect [OF this] show ?thesis using c by blast
qed

lemma relay_interrupted:
  assumes "startswith ct ''text/event-stream''" "\<not> ctx_done u" "\<forall>k. client_ok u k" "written s0 = []"
    "relay n a u st ct reads ReadErr s0 = (s, v, reason)"
  shows "concat (written s) = concat reads @ interrupted_event"
proof -
  let ?s1 = "WriteHeader st (setHeader ''X-Gateway-Attempts'' (show_nat a) (setHeader ''X-Gateway-Node'' n
     (setHeader ''X-Accel-Buffering'' ''no'' (setHeader ''Cache-Control'' ''no-cache''
       (if ct \<noteq> [] then setHeader ''Content-Type'' ct s0 else s0)))))"
  obtain s2 where c: "copy_body (client_ok u) reads ?s1 = (s2, True)" and w: "written s2 = written ?s1 @ nonempty reads"
    using copy_body_all [OF assms(3)] by blast
  have "s = Write interrupted_event (finish_label ''midstream_failed'' (observe (MidstreamFailure n) (observe (UpstreamAttempt n ''midstream_error'') (lease_ended n (LDone False) s2))))"
    using assms(1,2,5) c by (auto simp: relay_def Let_def)
  moreover have "concat (nonempty xs) = concat xs" for xs :: "string list" by (induction xs) auto
  ultimately show ?thesis using w assms(4) by (simp add: hst)
qed

lemma attempt_effect:
  assumes "attempt_node n a u s = (s', v, reason)" "silent s"
  shows "tried s' = tried s \<and> (\<exists>e. ends s' = ends s @ [(n, e)]) \<and> (silent s' \<and> v \<in> {outRetry, outAbort} \<or> relayed u s' \<and> wrote s' \<and> v \<noteq> outRetry)"
proof (cases "request_ok u \<and> (\<exists>st ct chunks final rend. reply_of u = Resp st ct chunks final rend \<and> st \<noteq> 429 \<and> \<not> (st \<ge> 500 \<and> st \<noteq> 501)
    \<and> \<not> first_read_failed chunks final rend)")
  case True
  then obtain st ct chunks final rend where u: "reply_of u = Resp st ct chunks final rend" "request_ok u" "st \<noteq> 429" "\<not> (st \<ge> 500 \<and> st \<noteq> 501)"
    "\<not> first_read_failed chunks final rend" by blast
  then have "relay n a u st ct (chunks @ [final]) rend s = (s', v, reason)"
    using assms(1) by (auto simp: attempt_node_def Let_def)
  from relay_effect [OF this assms(2)] show ?thesis by (auto simp: relayed_def u)
next
  case False
  then show ?thesis
    using assms by (auto simp: attempt_node_def Let_def hst silent_def split: if_splits reply.splits)
qed


subsection \<open>The loop over the attempts\<close>

text \<open>What a client can have received: nothing, one error of the gateway, or the answer of the node tried last.\<close>

definition one_error :: "hstate \<Rightarrow> bool" where
  "one_error s \<longleftrightarrow> (\<exists>msg. written s = [error_json msg]) \<and> status s \<in> {Some 429, Some 502, Some 503, Some 504}"

definition answered :: "henv \<Rightarrow> hstate \<Rightarrow> bool" where
  "answered env s \<longleftrightarrow> silent s \<or> one_error s \<or> tried s \<noteq> [] \<and> relayed (upstream_at env (length (tried s)) (last (tried s))) s"

definition at_attempt :: "nat \<Rightarrow> string list \<Rightarrow> hstate \<Rightarrow> bool" where
  "at_attempt a exclude s \<longleftrightarrow> silent s \<and> a = Suc (length (tried s)) \<and> exclude = tried s \<and> map fst (ends s) = tried s"

lemma hst_same:
  "silent (observe m s) = silent s" "silent (begin_attempt a lr n s) = silent s" "one_error (observe m s) = one_error s" "relayed u (observe m s) = relayed u s"
  by (simp_all add: silent_def one_error_def relayed_def hst split: reply.splits)

lemma reject_effect: "silent s \<Longrightarrow> tried (rejectAcquire e a s) = tried s \<and> ends (rejectAcquire e a s) = ends s
    \<and> (silent (rejectAcquire e a s) \<or> one_error (rejectAcquire e a s))"
  by (cases e) (auto simp: rejectAcquire_def hst silent_def one_error_def Let_def)

lemma serve_loop_effect:
  assumes "serve_loop env rel left a exclude lr s = (s', ok)" "at_attempt a exclude s"
  shows "answered env s' \<and> map fst (ends s') = tried s' \<and> length (tried s') \<le> length (tried s) + left"
  using assms
proof (induction left arbitrary: a exclude lr s)
  case 0
  then show ?case by (auto simp: all_failed_def at_attempt_def hst silent_def one_error_def answered_def)
next
  case (Suc left)
  have sil: "silent s" and eq: "a = Suc (length (tried s))" "exclude = tried s" "map fst (ends s) = tried s"
    using Suc.prems(2) by (simp_all add: at_attempt_def)
  show ?case
  proof (cases "acquire_at env a exclude")
    case (Inl e)
    with Suc.prems(1) have "s' = rejectAcquire e a (observe QueueWait s)" by simp
    with reject_effect [of "observe QueueWait s" e a] sil eq show ?thesis by (auto simp: answered_def hst_same hst)
  next
    case (Inr n)
    obtain s1 v reason where at: "attempt_node n a (upstream_at env a n) (begin_attempt a lr n s) = (s1, v, reason)"
      by (cases "attempt_node n a (upstream_at env a n) (begin_attempt a lr n s)") auto
    have "silent (begin_attempt a lr n s)" using sil by (simp add: hst_same)
    from attempt_effect [OF at this] eq have t: "tried s1 = tried s @ [n]" "map fst (ends s1) = tried s1"
      and o: "silent s1 \<and> v \<in> {outRetry, outAbort} \<or> relayed (upstream_at env a n) s1 \<and> wrote s1 \<and> v \<noteq> outRetry" by (auto simp: hst)
    have next_ok: "at_attempt (Suc a) (exclude @ [n]) s1" if "silent s1" using that t eq by (simp add: at_attempt_def)
    have rel: "answered env s1" if "relayed (upstream_at env a n) s1" using that t eq by (simp add: answered_def)
    from o show ?thesis
    proof
      assume r: "relayed (upstream_at env a n) s1 \<and> wrote s1 \<and> v \<noteq> outRetry"
      then have "s' = s1" using Suc.prems(1) Inr at by (cases v) auto
      then show ?thesis using rel r t by simp
    next
      assume r: "silent s1 \<and> v \<in> {outRetry, outAbort}"
      show ?thesis
      proof (cases "v = outAbort")
        case True
        with r Suc.prems(1) Inr at t show ?thesis
          by (auto simp: hst silent_def one_error_def answered_def split: if_splits)
      next
        case False
        with r have v: "v = outRetry" by simp
        have "s' = s1 \<or> s' = finish_label ''cancelled'' s1 \<or> serve_loop env rel left (Suc a) (exclude @ [n]) reason s1 = (s', ok)"
          using Suc.prems(1) Inr at v by (auto split: if_splits option.splits)
        then show ?thesis
          using r t Suc.IH [OF _ next_ok] by (auto simp: hst silent_def answered_def)
      qed
    qed
  qed
qed

lemma answered_start: "at_attempt 1 [] (observe ActiveInc hstate0)"
  by (simp add: at_attempt_def silent_def hstate0_def hst)

lemma answered_observe: "answered env (observe m s) = answered env s"
  by (auto simp: answered_def hst_same hst)

subsection \<open>One label per request\<close>

definition outcome_labels :: "string set" where
  "outcome_labels = {''direct_ok'', ''bad_request'', ''no_node'', ''queue_full'', ''queue_timeout'', ''upstream_failed'', ''midstream_failed'', ''timeout'', ''cancelled''}"

definition labelled :: "hstate \<Rightarrow> bool" where
  "labelled s \<longleftrightarrow> (\<exists>l \<in> outcome_labels. labels s = [l])"

lemma labelledI: "labels s = [l] \<Longrightarrow> l \<in> outcome_labels \<Longrightarrow> labelled s"
  by (auto simp: labelled_def)

lemma relay_labels:
  assumes "relay n a u st ct reads rend s = (s', v, reason)" "labels s = []"
  shows "labelled s' \<and> wrote s' \<and> v \<noteq> outRetry"
proof -
  define s1 where "s1 = WriteHeader st (setHeader ''X-Gateway-Attempts'' (show_nat a) (setHeader ''X-Gateway-Node'' n
     (let s = (if ct \<noteq> [] then setHeader ''Content-Type'' ct s else s)
      in if startswith ct ''text/event-stream'' then setHeader ''X-Accel-Buffering'' ''no'' (setHeader ''Cache-Control'' ''no-cache'' s) else s)))"
  obtain s2 alive where c: "copy_body (client_ok u) reads s1 = (s2, alive)" by force
  have "labels s1 = []" "wrote s1" using assms(2) by (simp_all add: s1_def hst Let_def)
  with copy_body_effect [OF c] have s2: "labels s2 = []" "wrote s2" by auto
  have "relay n a u st ct reads rend s =
     (if \<not> alive then cancelled n s2
      else case rend of
        EOF \<Rightarrow> (finish_label ''direct_ok'' (observe (UpstreamAttempt n ''ok'') (lease_ended n (LDone True) s2)), outDone, ''ok'')
      | ReadErr \<Rightarrow> if ctx_done u then cancelled n s2
          else (let s = finish_label ''midstream_failed'' (observe (MidstreamFailure n) (observe (UpstreamAttempt n ''midstream_error'') (lease_ended n (LDone False) s2)))
                in if startswith ct ''text/event-stream'' then (Write interrupted_event s, outDone, ''midstream_error'') else (s, panicked, ''midstream_error'')))"
    using c by (simp add: relay_def s1_def Let_def)
  with assms(1) s2 show ?thesis
    by (auto simp: cancelled_def hst Let_def labelled_def outcome_labels_def split: if_splits read_end.splits)
qed

lemma attempt_labels:
  assumes "attempt_node n a u s = (s', v, reason)" "labels s = []" "\<not> wrote s"
  shows "v \<in> {outRetry, outAbort} \<and> labels s' = [] \<and> \<not> wrote s' \<or> labelled s' \<and> wrote s' \<and> v \<noteq> outRetry"
proof (cases "request_ok u \<and> (\<exists>st ct chunks final rend. reply_of u = Resp st ct chunks final rend \<and> st \<noteq> 429 \<and> \<not> (st \<ge> 500 \<and> st \<noteq> 501)
    \<and> \<not> first_read_failed chunks final rend)")
  case True
  then obtain st ct chunks final rend where u: "reply_of u = Resp st ct chunks final rend" "request_ok u" "st \<noteq> 429" "\<not> (st \<ge> 500 \<and> st \<noteq> 501)"
    "\<not> first_read_failed chunks final rend" by blast
  then have "relay n a u st ct (chunks @ [final]) rend s = (s', v, reason)"
    using assms(1) by (auto simp: attempt_node_def Let_def)
  from relay_labels [OF this assms(2)] show ?thesis by simp
next
  case False
  then show ?thesis
    using assms by (auto simp: attempt_node_def Let_def hst split: if_splits reply.splits)
qed

lemma reject_labels: "labels s = [] \<Longrightarrow> labelled (rejectAcquire e a s)"
  by (cases e) (auto simp: rejectAcquire_def hst labelled_def outcome_labels_def Let_def)

lemma serve_loop_labels:
  assumes "serve_loop env rel left a exclude lr s = (s', ret)" "labels s = []" "\<not> wrote s"
    "\<And>k. Suc k < a + left \<Longrightarrow> backoff (retry_backoff rel) k (draws env k) \<noteq> None"
  shows "labelled s'"
  using assms
proof (induction left arbitrary: a exclude lr s)
  case 0
  then show ?case by (auto simp: all_failed_def hst labelled_def outcome_labels_def)
next
  case (Suc left)
  show ?case
  proof (cases "acquire_at env a exclude")
    case (Inl e)
    with Suc.prems have "s' = rejectAcquire e a (observe QueueWait s)" "labels (observe QueueWait s) = []" by (auto simp: hst)
    then show ?thesis using reject_labels by simp
  next
    case (Inr n)
    obtain s1 v reason where at: "attempt_node n a (upstream_at env a n) (begin_attempt a lr n s) = (s1, v, reason)"
      by (cases "attempt_node n a (upstream_at env a n) (begin_attempt a lr n s)") auto
    have "labels (begin_attempt a lr n s) = []" "\<not> wrote (begin_attempt a lr n s)" using Suc.prems by (simp_all add: hst)
    from attempt_labels [OF at this] show ?thesis
    proof
      assume r: "labelled s1 \<and> wrote s1 \<and> v \<noteq> outRetry"
      then have "s' = s1" using Suc.prems(1) Inr at by (cases v) auto
      with r show ?thesis by simp
    next
      assume r: "v \<in> {outRetry, outAbort} \<and> labels s1 = [] \<and> \<not> wrote s1"
      show ?thesis
      proof (cases "v = outAbort")
        case True
        with r Suc.prems(1) Inr at show ?thesis by (auto simp: hst labelled_def outcome_labels_def split: if_splits)
      next
        case False
        with r have v: "v = outRetry" by simp
        have w: "left > 0 \<Longrightarrow> backoff (retry_backoff rel) a (draws env a) \<noteq> None" using Suc.prems(4) [of a] by simp
        have "s' = finish_label ''cancelled'' s1 \<or> serve_loop env rel left (Suc a) (exclude @ [n]) reason s1 = (s', ret)"
          using Suc.prems(1) Inr at v w by (cases left) (auto split: if_splits)
        then show ?thesis
        proof
          assume l: "serve_loop env rel left (Suc a) (exclude @ [n]) reason s1 = (s', ret)"
          show ?thesis by (rule Suc.IH [OF l]) (use r Suc.prems(4) in auto)
        qed (use r in \<open>simp add: hst labelled_def outcome_labels_def\<close>)
      qed
    qed
  qed
qed

subsection \<open>The metrics of a request\<close>

text \<open>What the counters with labels add up to, read off the observations in order.\<close>

definition attempts_of :: "meter list \<Rightarrow> (string \<times> string) list" where
  "attempts_of xs = concat (map (\<lambda>m. case m of UpstreamAttempt n r \<Rightarrow> [(n, r)] | _ \<Rightarrow> []) xs)"

definition retries_of :: "meter list \<Rightarrow> string list" where
  "retries_of xs = concat (map (\<lambda>m. case m of Retry r \<Rightarrow> [r] | _ \<Rightarrow> []) xs)"

definition midstreams_of :: "meter list \<Rightarrow> string list" where
  "midstreams_of xs = concat (map (\<lambda>m. case m of MidstreamFailure n \<Rightarrow> [n] | _ \<Rightarrow> []) xs)"

lemma observers [simp]:
  "attempts_of [] = []" "attempts_of (m # xs) = (case m of UpstreamAttempt n r \<Rightarrow> [(n, r)] | _ \<Rightarrow> []) @ attempts_of xs" "attempts_of (xs @ xs') = attempts_of xs @ attempts_of xs'"
  "retries_of [] = []" "retries_of (m # xs) = (case m of Retry r \<Rightarrow> [r] | _ \<Rightarrow> []) @ retries_of xs" "retries_of (xs @ xs') = retries_of xs @ retries_of xs'"
  "midstreams_of [] = []" "midstreams_of (m # xs) = (case m of MidstreamFailure n \<Rightarrow> [n] | _ \<Rightarrow> []) @ midstreams_of xs"
  "midstreams_of (xs @ xs') = midstreams_of xs @ midstreams_of xs'"
  by (simp_all add: attempts_of_def retries_of_def midstreams_of_def)

text \<open>The results the help text of \<^verbatim>\<open>radixgates_upstream_attempts_total\<close> lists.\<close>

definition attempt_results :: "string set" where
  "attempt_results = {''ok'', ''conn_error'', ''timeout'', ''http_5xx'', ''busy'', ''read_error'', ''midstream_error'', ''canceled''}"

lemma relay_meters:
  assumes "relay n a u st ct reads rend s = (s', v, reason)"
  shows "\<exists>fb r. meters s' = meters s @ (if fb then [TimeToFirstByte] else []) @ UpstreamAttempt n r # (if r = ''midstream_error'' then [MidstreamFailure n] else [])
    \<and> r \<in> attempt_results \<and> v \<noteq> outRetry \<and> (r = ''ok'' \<longrightarrow> labels s' = labels s @ [''direct_ok''])
    \<and> (r = ''midstream_error'' \<longrightarrow> labels s' = labels s @ [''midstream_failed'']) \<and> (r \<notin> {''ok'', ''midstream_error''} \<longrightarrow> labels s' = labels s @ [''cancelled''])"
proof -
  define s1 where "s1 = WriteHeader st (setHeader ''X-Gateway-Attempts'' (show_nat a) (setHeader ''X-Gateway-Node'' n
     (let s = (if ct \<noteq> [] then setHeader ''Content-Type'' ct s else s)
      in if startswith ct ''text/event-stream'' then setHeader ''X-Accel-Buffering'' ''no'' (setHeader ''Cache-Control'' ''no-cache'' s) else s)))"
  have s1: "meters s1 = meters s" "labels s1 = labels s" by (simp_all add: s1_def hst Let_def)
  obtain s2 alive where c: "copy_body (client_ok u) reads s1 = (s2, alive)" by force
  from copy_body_effect [OF c] s1 obtain fb where s2: "meters s2 = meters s @ (if fb then [TimeToFirstByte] else [])" "labels s2 = labels s" by auto
  define res where "res = (if \<not> alive then ''canceled'' else if rend = EOF then ''ok'' else if ctx_done u then ''canceled'' else ''midstream_error'')"
  have "meters s' = meters s2 @ UpstreamAttempt n res # (if res = ''midstream_error'' then [MidstreamFailure n] else []) \<and> v \<noteq> outRetry
      \<and> labels s' = labels s @ [if res = ''ok'' then ''direct_ok'' else if res = ''midstream_error'' then ''midstream_failed'' else ''cancelled'']"
    using assms c s2(2) unfolding relay_def s1_def [unfolded Let_def, symmetric] Let_def
    by (auto simp: s1_def Let_def cancelled_def hst res_def split: if_splits read_end.splits)
  moreover have "res \<in> attempt_results" by (simp add: res_def attempt_results_def)
  ultimately show ?thesis using s2(1) by (intro exI [of _ fb] exI [of _ res]) auto
qed

lemma attempt_meters:
  assumes "attempt_node n a u s = (s', v, reason)" "request_ok u"
  shows "\<exists>fb res. meters s' = meters s @ (if fb then [TimeToFirstByte] else []) @ UpstreamAttempt n res # (if res = ''midstream_error'' then [MidstreamFailure n] else [])
    \<and> res \<in> attempt_results \<and> (v = outRetry \<longrightarrow> reason = res \<and> res \<notin> {''ok'', ''midstream_error''})
    \<and> (res = ''ok'' \<longrightarrow> labels s' = labels s @ [''direct_ok'']) \<and> (res = ''midstream_error'' \<longrightarrow> labels s' = labels s @ [''midstream_failed''])
    \<and> (res \<notin> {''ok'', ''midstream_error''} \<longrightarrow> labels s' \<in> {labels s, labels s @ [''cancelled'']}) \<and> (v = outRetry \<longrightarrow> labels s' = labels s)"
proof (cases "\<exists>st ct chunks final rend. reply_of u = Resp st ct chunks final rend \<and> st \<noteq> 429 \<and> \<not> (st \<ge> 500 \<and> st \<noteq> 501) \<and> \<not> first_read_failed chunks final rend")
  case True
  then obtain st ct chunks final rend where u: "reply_of u = Resp st ct chunks final rend" "st \<noteq> 429" "\<not> (st \<ge> 500 \<and> st \<noteq> 501)"
    "\<not> first_read_failed chunks final rend" by blast
  then have "relay n a u st ct (chunks @ [final]) rend s = (s', v, reason)"
    using assms by (auto simp: attempt_node_def Let_def)
  from relay_meters [OF this] show ?thesis by blast
next
  case False
  define res where "res = (case reply_of u of
      DoErr \<Rightarrow> if ctx_done u then ''canceled'' else if stalled u then ''timeout'' else ''conn_error''
    | Resp st ct chunks final rend \<Rightarrow> if st = 429 then ''busy'' else if st \<ge> 500 \<and> st \<noteq> 501 then ''http_5xx''
        else if ctx_done u then ''canceled'' else if stalled u then ''timeout'' else ''read_error'')"
  have "meters s' = meters s @ [UpstreamAttempt n res] \<and> (v = outRetry \<longrightarrow> reason = res) \<and> labels s' = labels s"
    using False assms by (auto simp: attempt_node_def Let_def hst res_def split: if_splits reply.splits)
  moreover have "res \<in> attempt_results - {''ok'', ''midstream_error''}" by (simp add: res_def attempt_results_def split: reply.splits)
  ultimately show ?thesis by (intro exI [of _ False] exI [of _ res]) simp
qed

text \<open>The account of a request: every attempt made is counted once under its node, every retry under the result of the attempt before it, and the
  gauge of active requests was raised once.\<close>

definition metered :: "hstate \<Rightarrow> bool" where
  "metered s \<longleftrightarrow> map fst (attempts_of (meters s)) = tried s \<and> snd ` set (attempts_of (meters s)) \<subseteq> attempt_results
     \<and> retries_of (meters s) = butlast (map snd (attempts_of (meters s)))
     \<and> count_list (meters s) ActiveInc = 1 \<and> count_list (meters s) ActiveDec = 0 \<and> count_list (meters s) RequestDuration = 0"

definition metered_before :: "string \<Rightarrow> hstate \<Rightarrow> bool" where
  "metered_before lr s \<longleftrightarrow> metered s \<and> labels s = [] \<and> midstreams_of (meters s) = [] \<and> ''ok'' \<notin> snd ` set (attempts_of (meters s))
     \<and> (attempts_of (meters s) \<noteq> [] \<longrightarrow> lr = snd (last (attempts_of (meters s))))"

definition metered_after :: "hstate \<Rightarrow> bool" where
  "metered_after s \<longleftrightarrow> metered s \<and> (labels s = [''direct_ok''] \<longleftrightarrow> ''ok'' \<in> snd ` set (attempts_of (meters s)))
     \<and> (if labels s = [''midstream_failed''] then midstreams_of (meters s) = [last (tried s)] else midstreams_of (meters s) = [])"

lemma metered_kept:
  "meters s' = meters s \<Longrightarrow> tried s' = tried s \<Longrightarrow> metered_before lr s \<Longrightarrow> labels s' \<notin> {[''direct_ok''], [''midstream_failed'']} \<Longrightarrow> metered_after s'"
  "metered_before lr s \<Longrightarrow> metered_before lr (observe QueueWait s)"
  by (auto simp: metered_after_def metered_before_def metered_def hst)

lemma reject_metered: "metered_before lr s \<Longrightarrow> metered_after (rejectAcquire e a s)"
  by (rule metered_kept(1) [of _ s lr]; cases e) (auto simp: rejectAcquire_def hst Let_def metered_before_def)

lemma attempt_metered:
  assumes "attempt_node n a u (begin_attempt a lr n s) = (s', v, reason)" "request_ok u" "metered_before lr s" "a > 1 \<longleftrightarrow> tried s \<noteq> []"
    "tried s' = tried s @ [n]"
  shows "if v = outRetry then metered_before reason s' else metered_after s'"
proof -
  obtain fb res where m: "meters s' = meters (begin_attempt a lr n s) @ (if fb then [TimeToFirstByte] else [])
      @ UpstreamAttempt n res # (if res = ''midstream_error'' then [MidstreamFailure n] else [])"
    and res: "res \<in> attempt_results" "v = outRetry \<longrightarrow> reason = res \<and> res \<notin> {''ok'', ''midstream_error''}"
    and l: "res = ''ok'' \<longrightarrow> labels s' = [''direct_ok'']" "res = ''midstream_error'' \<longrightarrow> labels s' = [''midstream_failed'']"
      "res \<notin> {''ok'', ''midstream_error''} \<longrightarrow> labels s' \<in> {[], [''cancelled'']}" "v = outRetry \<longrightarrow> labels s' = []"
    using attempt_meters [OF assms(1,2)] assms(3) by (auto simp: hst metered_before_def)
  have at: "attempts_of (meters s') = attempts_of (meters s) @ [(n, res)]" by (simp add: m hst)
  have t: "tried s = map fst (attempts_of (meters s))" "retries_of (meters s) = butlast (map snd (attempts_of (meters s)))"
    using assms(3) by (simp_all add: metered_before_def metered_def)
  have re: "retries_of (meters s') = map snd (attempts_of (meters s))"
  proof (cases "attempts_of (meters s) = []")
    case True
    with t assms(4) show ?thesis by (simp add: m hst)
  next
    case False
    then have "a > 1" "lr = last (map snd (attempts_of (meters s)))" "map snd (attempts_of (meters s)) \<noteq> []"
      using assms(3,4) t by (simp_all add: metered_before_def last_map)
    then show ?thesis using t append_butlast_last_id [of "map snd (attempts_of (meters s))"] by (simp add: m hst)
  qed
  have mid: "midstreams_of (meters s') = (if res = ''midstream_error'' then [n] else [])" using assms(3) by (simp add: m hst metered_before_def)
  have "count_list (meters s') ActiveInc = 1" "count_list (meters s') ActiveDec = 0" "count_list (meters s') RequestDuration = 0"
    using assms(3) by (simp_all add: m hst metered_before_def metered_def)
  moreover have "snd ` set (attempts_of (meters s)) \<subseteq> attempt_results" using assms(3) by (simp add: metered_before_def metered_def)
  ultimately have met: "metered s'" using assms(5) t(1) res(1) re by (simp add: metered_def at)
  have ok: "''ok'' \<in> snd ` set (attempts_of (meters s')) \<longleftrightarrow> res = ''ok''" using assms(3) by (simp add: at metered_before_def eq_commute)
  have la: "last (tried s') = n" by (simp add: assms(5))
  show ?thesis
  proof (cases "v = outRetry")
    case True
    with res(2) l(4) mid ok met show ?thesis by (simp add: metered_before_def at)
  next
    case False
    consider "res = ''ok''" | "res = ''midstream_error''" | "res \<notin> {''ok'', ''midstream_error''}" by blast
    then have "metered_after s'"
    proof cases
      case 3
      then have "labels s' = [] \<or> labels s' = [''cancelled'']" using l(3) by simp
      with 3 met ok mid show ?thesis by (elim disjE) (simp_all add: metered_after_def)
    qed (use l met ok mid la in \<open>simp_all add: metered_after_def\<close>)
    with False show ?thesis by simp
  qed
qed

lemma serve_loop_metered:
  assumes "serve_loop env rel left a exclude lr s = (s', ret)" "at_attempt a exclude s" "metered_before lr s" "\<And>a n. request_ok (upstream_at env a n)"
  shows "metered_after s'"
  using assms
proof (induction left arbitrary: a exclude lr s)
  case 0
  then show ?case by (intro metered_kept(1) [of _ s lr]) (auto simp: all_failed_def hst metered_before_def)
next
  case (Suc left)
  have sil: "silent s" "\<not> wrote s" and eq: "a = Suc (length (tried s))" "exclude = tried s" "map fst (ends s) = tried s" and l0: "labels s = []"
    using Suc.prems(2,3) by (simp_all add: at_attempt_def silent_def metered_before_def)
  show ?case
  proof (cases "acquire_at env a exclude")
    case (Inl e)
    with Suc.prems(1) have "s' = rejectAcquire e a (observe QueueWait s)" by simp
    with reject_metered [OF metered_kept(2) [OF Suc.prems(3)]] show ?thesis by simp
  next
    case (Inr n)
    obtain s1 v reason where at: "attempt_node n a (upstream_at env a n) (begin_attempt a lr n s) = (s1, v, reason)"
      by (cases "attempt_node n a (upstream_at env a n) (begin_attempt a lr n s)") auto
    have ef: "tried s1 = tried s @ [n]" "map fst (ends s1) = tried s1" "v = outRetry \<Longrightarrow> silent s1"
      using attempt_effect [OF at] sil(1) eq by (auto simp: hst_same hst)
    have m: "if v = outRetry then metered_before reason s1 else metered_after s1"
      by (rule attempt_metered [OF at Suc.prems(4) Suc.prems(3) _ ef(1)]) (use eq in simp)
    have la: "\<not> wrote s1 \<Longrightarrow> labels s1 = []" using attempt_labels [OF at] sil(2) l0 by (auto simp: hst)
    show ?thesis
    proof (cases "v = outRetry")
      case True
      with m have mb: "metered_before reason s1" by simp
      have "s' = s1 \<or> s' = finish_label ''cancelled'' s1 \<or> serve_loop env rel left (Suc a) (exclude @ [n]) reason s1 = (s', ret)"
        using Suc.prems(1) Inr at True by (auto split: if_splits option.splits)
      then show ?thesis
      proof (elim disjE)
        assume l: "serve_loop env rel left (Suc a) (exclude @ [n]) reason s1 = (s', ret)"
        show ?thesis by (rule Suc.IH [OF l _ mb Suc.prems(4)]) (use ef True eq in \<open>simp add: at_attempt_def\<close>)
      qed (use mb in \<open>auto intro!: metered_kept(1) [of _ s1 reason] simp: hst metered_before_def\<close>)
    next
      case False
      with m have ma: "metered_after s1" by simp
      have "s' = s1 \<or> \<not> wrote s1 \<and> (s' = writeJSON 504 ''request deadline exceeded'' (finish_label ''timeout'' s1) \<or> s' = finish_label ''cancelled'' s1)"
        using Suc.prems(1) Inr at False by (cases v) (auto split: if_splits)
      then show ?thesis
      proof (elim disjE conjE)
        assume s': "\<not> wrote s1" "s' = writeJSON 504 ''request deadline exceeded'' (finish_label ''timeout'' s1)"
        with la ma show ?thesis by (simp add: metered_after_def metered_def hst)
      next
        assume s': "\<not> wrote s1" "s' = finish_label ''cancelled'' s1"
        with la ma show ?thesis by (simp add: metered_after_def metered_def hst)
      qed (use ma in simp)
    qed
  qed
qed

lemma metered_start: "metered_before [] (observe ActiveInc hstate0)"
  by (simp add: metered_before_def metered_def hstate0_def hst)

subsection \<open>Distinct nodes\<close>

text \<open>What the handler relies on: the router never hands out a node the request has already tried.\<close>

locale acquirer =
  fixes acq :: "nat \<Rightarrow> string list \<Rightarrow> acq_err + string"
  assumes fresh: "acq a ex = Inr n \<Longrightarrow> n \<notin> set ex"
begin

lemma attempts_distinct:
  assumes "serve_loop env rel left a exclude lr s = (s', ok)" "acquire_at env = acq" "exclude = tried s" "distinct (tried s)" "silent s"
  shows "distinct (tried s')"
  using assms
proof (induction left arbitrary: a exclude lr s)
  case 0
  then show ?case by (auto simp: all_failed_def hst)
next
  case (Suc left)
  show ?case
  proof (cases "acq a exclude")
    case (Inl e)
    with Suc.prems have "s' = rejectAcquire e a (observe QueueWait s)" by simp
    with Suc.prems reject_effect [of "observe QueueWait s" e a] show ?thesis by (simp add: hst_same hst)
  next
    case (Inr n)
    obtain s1 v reason where at: "attempt_node n a (upstream_at env a n) (begin_attempt a lr n s) = (s1, v, reason)"
      by (cases "attempt_node n a (upstream_at env a n) (begin_attempt a lr n s)") auto
    have "silent (begin_attempt a lr n s)" using Suc.prems(5) by (simp add: hst_same)
    from attempt_effect [OF at this] have t: "tried s1 = tried s @ [n]" and sil: "v = outRetry \<Longrightarrow> silent s1" by (auto simp: hst)
    have d: "distinct (tried s1)" using fresh [OF Inr] Suc.prems(3,4) t by simp
    have "tried s' = tried s1 \<or> v = outRetry \<and> serve_loop env rel left (Suc a) (exclude @ [n]) reason s1 = (s', ok)"
      using Suc.prems(1,2) Inr at by (cases v) (auto simp: hst split: if_splits option.splits)
    then show ?thesis
      using d Suc.IH [of "Suc a" "exclude @ [n]" reason s1] Suc.prems(2,3) t sil by auto
  qed
qed

end

text \<open>
  The router's side: attempt \<open>a\<close> calls \<^verbatim>\<open>Acquire\<close> at the time \<open>now a\<close> on the router \<open>rs a\<close>, with a script of wake-ups. A call that is still
  blocked when the script ends is ended by the queue's deadline.
\<close>

definition acq_err_of :: "(nat \<Rightarrow> bool) \<Rightarrow> nat \<Rightarrow> acquire_error \<Rightarrow> acq_err" where
  "acq_err_of dl a e = (case e of
     ErrQueueFull \<Rightarrow> QueueFull | ErrQueueTimeout \<Rightarrow> QueueTimeout | ErrContext \<Rightarrow> (if dl a then DeadlineExceeded else Canceled) | _ \<Rightarrow> NoNode)"

definition route_at :: "(nat \<Rightarrow> bool) \<Rightarrow> (nat \<Rightarrow> int) \<Rightarrow> (nat \<Rightarrow> router) \<Rightarrow> string \<Rightarrow> string \<Rightarrow> (nat \<Rightarrow> (int \<times> wakeup \<times> router) list)
    \<Rightarrow> nat \<Rightarrow> string list \<Rightarrow> acq_err + string" where
  "route_at dl now rs prefixHash grp scripts a ex =
     (case Acquire (now a) (rs a) prefixHash grp ex (scripts a) of
        None \<Rightarrow> Inl QueueTimeout
      | Some (Inl e) \<Rightarrow> Inl (acq_err_of dl a e)
      | Some (Inr (l, r)) \<Rightarrow> Inr (Name (nodes r ! lease_node l)))"

interpretation routed: acquirer "route_at dl now rs prefixHash grp scripts" for dl now rs prefixHash grp scripts
  by unfold_locales (auto simp: route_at_def dest: Acquire_fresh split: option.splits sum.splits prod.splits)


subsection \<open>Properties\<close>

lemma serve_unfold:
  "messages q \<noteq> [] \<Longrightarrow> ServeHTTP h g ''POST'' (Some body) (Some q) =
     deferred (serve_loop (request_env h g q) (rel_of h) (nat (max_attempts (rel_of h))) 1 [] [] (observe ActiveInc hstate0))"
  by (simp add: ServeHTTP_def Let_def)

lemma served:
  assumes "ServeHTTP h g ''POST'' (Some body) (Some q) = (s, returned)" "messages q \<noteq> []"
  obtains s0 where "serve_loop (request_env h g q) (rel_of h) (nat (max_attempts (rel_of h))) 1 [] [] (observe ActiveInc hstate0) = (s0, returned)"
    "s = observe RequestDuration (observe ActiveDec s0)"
  using assms by (cases "serve_loop (request_env h g q) (rel_of h) (nat (max_attempts (rel_of h))) 1 [] [] (observe ActiveInc hstate0)")
    (auto simp: serve_unfold deferred_def)

text \<open>C3. First-byte commit: whatever the nodes do over all attempts, the client receives nothing, or one error answer of the gateway, or the
answer of the node tried last: its status and a prefix of the bytes it sent, in order and none twice, completed by the interruption event only
when that node's stream broke. No byte of an earlier attempt ever reaches the client.\<close>

theorem first_byte_commit:
  assumes "ServeHTTP h g ''POST'' (Some body) (Some q) = (s, returned)" "messages q \<noteq> []"
  shows "written s = [] \<or> (\<exists>msg. written s = [error_json msg] \<and> status s \<in> {Some 429, Some 502, Some 503, Some 504})
    \<or> (\<exists>st ct chunks final rend.
         tried s \<noteq> [] \<and> reply_of (upstream_for g (forward_fields (handler_model h) q) (length (tried s)) (last (tried s))) = Resp st ct chunks final rend
         \<and> status s = Some st
         \<and> (prefix (written s) (filter (\<lambda>c. c \<noteq> []) (chunks @ [final]))
            \<or> rend = ReadErr \<and> written s = filter (\<lambda>c. c \<noteq> []) (chunks @ [final]) @ [interrupted_event]))"
proof -
  let ?env = "request_env h g q"
  obtain s0 where "serve_loop ?env (rel_of h) (nat (max_attempts (rel_of h))) 1 [] [] (observe ActiveInc hstate0) = (s0, returned)"
    "s = observe RequestDuration (observe ActiveDec s0)" by (rule served [OF assms])
  then have "answered ?env s" using serve_loop_effect [OF _ answered_start] by (simp add: answered_observe)
  then consider "silent s" | "one_error s" | "tried s \<noteq> []" "relayed (upstream_at ?env (length (tried s)) (last (tried s))) s"
    by (auto simp: answered_def)
  then show ?thesis
  proof cases
    case 3
    then obtain st ct chunks final rend
      where "reply_of (upstream_at ?env (length (tried s)) (last (tried s))) = Resp st ct chunks final rend"
      by (cases "reply_of (upstream_at ?env (length (tried s)) (last (tried s)))") (auto simp: relayed_def)
    with 3 show ?thesis by (simp add: relayed_def request_env_def)
  qed (simp_all add: silent_def one_error_def)
qed

text \<open>C8. No slot leaks and no node is tried twice: with the router's \<^verbatim>\<open>Acquire\<close> behind it, and whatever other requests do to the router
meanwhile, a request makes at most \<^verbatim>\<open>max_attempts\<close> attempts on pairwise different nodes and gives back every lease it obtained exactly once,
in order, also when it is aborted or the handler panics.\<close>

theorem attempts_bounded_distinct:
  assumes "ServeHTTP h g ''POST'' (Some body) (Some q) = (s, returned)" "messages q \<noteq> []"
    "acquire_for g = (\<lambda>prefixHash target. route_at dl now rs prefixHash target scripts)"
  shows "distinct (tried s) \<and> length (tried s) \<le> nat (max_attempts (rel_of h)) \<and> map fst (ends s) = tried s"
proof -
  obtain s0 where l: "serve_loop (request_env h g q) (rel_of h) (nat (max_attempts (rel_of h))) 1 [] [] (observe ActiveInc hstate0) = (s0, returned)"
    and s: "s = observe RequestDuration (observe ActiveDec s0)" by (rule served [OF assms(1,2)])
  have "acquire_at (request_env h g q) =
      route_at dl now rs (computePrefixHash (sha256_hex g) (system_content (messages q))) (req_target q) scripts"
    by (simp add: request_env_def assms(3))
  then have "distinct (tried s0)"
    by (rule routed.attempts_distinct [OF l]) (simp_all add: hstate0_def silent_def hst)
  with serve_loop_effect [OF l answered_start] show ?thesis by (simp add: hstate0_def s hst)
qed

text \<open>C14. Every request is counted once: whatever happens to a \<^verbatim>\<open>POST\<close> request (bad body, no node, a full queue, failed, aborted or broken attempts),
exactly one outcome is reported to the request counter, and it is one of the documented nine, provided the back-off does not panic.\<close>

theorem requests_labelled_once:
  assumes "ServeHTTP h g ''POST'' body req = (s, returned)"
    "\<And>k. k < nat (max_attempts (rel_of h)) \<Longrightarrow> backoff (retry_backoff (rel_of h)) k (draws_for g k) \<noteq> None"
  shows "\<exists>l. labels s = [l] \<and> l \<in> {''direct_ok'', ''bad_request'', ''no_node'', ''queue_full'', ''queue_timeout'', ''upstream_failed'',
    ''midstream_failed'', ''timeout'', ''cancelled''}"
proof -
  have "labelled s"
  proof (cases "body = None \<or> req = None \<or> messages (the req) = []")
    case True
    then show ?thesis
      using assms(1) by (auto simp: ServeHTTP_def Let_def deferred_def hst hstate0_def labelled_def outcome_labels_def split: option.splits if_splits)
  next
    case False
    then obtain b q where "body = Some b" "req = Some q" "messages q \<noteq> []" by auto
    with assms(1) obtain s0 where l: "serve_loop (request_env h g q) (rel_of h) (nat (max_attempts (rel_of h))) 1 [] [] (observe ActiveInc hstate0) = (s0, returned)"
      and s: "s = observe RequestDuration (observe ActiveDec s0)" by (auto elim: served)
    have "labelled s0" by (rule serve_loop_labels [OF l]) (use assms(2) in \<open>simp_all add: hstate0_def request_env_def hst\<close>)
    then show ?thesis by (simp add: labelled_def s hst)
  qed
  then obtain l where "labels s = [l]" "l \<in> outcome_labels" by (auto simp: labelled_def)
  then show ?thesis by (intro exI [of _ l]) (simp only: outcome_labels_def)
qed


lemma half_bounds: "0 \<le> d \<Longrightarrow> sgn d * (\<bar>d\<bar> div 2) = (d :: int) div 2"
  by (cases "d = 0") simp_all

text \<open>The back-off never panics and stays in its range: for a positive base whose doubled value fits 64 bits, the wait before the next attempt
lies between half of the doubled base and the whole of it, cut at one second.\<close>

theorem backoff_range:
  assumes "0 < base" "base * 2 ^ (attempt - 1) < 2 ^ 63" "0 \<le> draw"
  shows "\<exists>w. backoff base attempt draw = Some w \<and> min (base * 2 ^ (attempt - 1)) 1000000000 div 2 \<le> w
    \<and> w \<le> min (base * 2 ^ (attempt - 1)) 1000000000"
proof -
  define d where "d = min (base * 2 ^ (attempt - 1)) 1000000000"
  have d: "0 < d" using assms(1) by (simp add: d_def)
  have "wrap64 (base * 2 ^ (attempt - 1)) = base * 2 ^ (attempt - 1)"
    using assms(1,2) by (intro wrap64_id) (auto intro: order_trans [of _ 0])
  then have b: "backoff base attempt draw = Some (d div 2 + draw mod (d div 2 + 1))"
    using d half_bounds [of d] by (auto simp: backoff_def d_def Let_def min_def)
  have "draw mod (d div 2 + 1) \<le> d div 2" using d pos_mod_bound [of "d div 2 + 1" draw] by simp
  moreover have "0 \<le> draw mod (d div 2 + 1)" using d by simp
  moreover have "d div 2 + d div 2 \<le> d" by simp
  ultimately show ?thesis unfolding b d_def [symmetric] by simp
qed

text \<open>A negative \<^verbatim>\<open>retry_backoff\<close> passes validation and makes the handler panic on its first retry: \<^verbatim>\<open>Validate\<close> does not look at the field, and
\<^verbatim>\<open>rand.Int63n\<close> panics on an argument that is not positive.\<close>

theorem negative_backoff_panics:
  fixes c :: gw_config and b :: int and q :: chat_request and g :: genv
  assumes "Validate c = None" "max_attempts (gw_reliability c) > 1" "- 4000000000000000000 < b" "b < - 1" "messages q \<noteq> []"
  defines "h \<equiv> \<lparr>handler_model = default_model c, handler_rel = (gw_reliability c)\<lparr>retry_backoff := b\<rparr>, handler_timeout = 0\<rparr>"
  defines "env \<equiv> request_env h g q"
  assumes "acquire_at env 1 [] = Inr n" "request_ok (upstream_at env 1 n)" "reply_of (upstream_at env 1 n) = DoErr" "\<not> ctx_done (upstream_at env 1 n)"
  shows "Validate (c\<lparr>gw_reliability := (gw_reliability c)\<lparr>retry_backoff := b\<rparr>\<rparr>) = None
    \<and> \<not> snd (ServeHTTP h g ''POST'' (Some body) (Some q))"
proof
  show "Validate (c\<lparr>gw_reliability := (gw_reliability c)\<lparr>retry_backoff := b\<rparr>\<rparr>) = None"
    using assms(1) by (simp add: Validate_None valid_config_def)
  have w: "wrap64 b = b" using assms(3,4) by (intro wrap64_id) simp_all
  have "\<bar>b\<bar> div 2 \<ge> 1" using assms(4) by simp
  then have bo: "backoff b (Suc 0) draw = None" for draw using assms(4) by (simp add: backoff_def Let_def w)
  have r: "max_attempts (rel_of h) = max_attempts (gw_reliability c)" "retry_backoff (rel_of h) = b"
    using assms(2,4) by (simp_all add: rel_of_def h_def handler_init_def Let_def)
  have "2 \<le> nat (max_attempts (gw_reliability c))" using assms(2) by simp
  then obtain k where k: "nat (max_attempts (gw_reliability c)) = Suc (Suc k)"
    using le_Suc_ex [of 2 "nat (max_attempts (gw_reliability c))"] by auto
  show "\<not> snd (ServeHTTP h g ''POST'' (Some body) (Some q))"
    using assms(5,8-11) by (simp add: serve_unfold deferred_def env_def [symmetric] r k attempt_node_def Let_def bo)
qed

lemma map_of_set_default: "map_of (set_default x v fs) y = (if y = x \<and> map_of fs x = None then Some v else map_of fs y)"
  by (auto simp: set_default_def AList.update_conv')

lemma map_of_forward:
  "map_of (forward_fields m q) x =
     (if x = ''target'' then None
      else if x = ''max_tokens'' \<and> map_of (req_fields q) x = None then Some (JInt (case req_max_tokens q of None \<Rightarrow> 512 | Some n \<Rightarrow> n))
      else if x = ''temperature'' \<and> map_of (req_fields q) x = None then Some (JFloat (case req_temperature q of None \<Rightarrow> 0.7 | Some t \<Rightarrow> t))
      else if x = ''stream'' then Some (JBool (req_stream q \<noteq> Some False))
      else if x = ''model'' then Some (JStr (if req_model q \<in> {[], ''default''} then m else req_model q))
      else map_of (req_fields q) x)"
proof -
  have "(case req_stream q of None \<Rightarrow> True | Some b \<Rightarrow> b) = (req_stream q \<noteq> Some False)" by (cases "req_stream q") auto
  then show ?thesis
    by (cases "x = ''max_tokens''"; cases "x = ''temperature''")
      (simp_all add: forward_fields_def Let_def AList.delete_conv' AList.update_conv' map_of_set_default)
qed

text \<open>The request is forwarded whole: every field the client sent, except the routing hint \<^verbatim>\<open>target\<close>, reaches the node unchanged, apart from
\<^verbatim>\<open>model\<close> and \<^verbatim>\<open>stream\<close>, which are made explicit; the temperature and the token limit are added only when they are absent.\<close>

theorem forward_fields_complete:
  "(k \<notin> {''model'', ''stream'', ''target'', ''temperature'', ''max_tokens''} \<longrightarrow> map_of (forward_fields m q) k = map_of (req_fields q) k)
   \<and> map_of (forward_fields m q) ''target'' = None
   \<and> map_of (forward_fields m q) ''stream'' = Some (JBool (req_stream q \<noteq> Some False))
   \<and> map_of (forward_fields m q) ''model'' = Some (JStr (if req_model q \<in> {[], ''default''} then m else req_model q))
   \<and> (\<forall>v. map_of (req_fields q) ''temperature'' = Some v \<longrightarrow> map_of (forward_fields m q) ''temperature'' = Some v)
   \<and> (\<forall>v. map_of (req_fields q) ''max_tokens'' = Some v \<longrightarrow> map_of (forward_fields m q) ''max_tokens'' = Some v)"
  by (intro conjI) (simp_all add: map_of_forward)


subsection \<open>Concrete requests\<close>

definition demo_q :: chat_request where
  "demo_q = \<lparr>messages = [(''user'', ''hi'')], req_model = [], req_stream = None, req_temperature = None, req_max_tokens = None, req_target = [],
     req_fields = [(''messages'', JArr []), (''top_p'', JInt 1), (''temperature'', JInt 0)]\<rparr>"

definition dead :: upstream where
  "dead = \<lparr>request_ok = True, reply_of = DoErr, stalled = False, ctx_done = False, client_ok = (\<lambda>_. True)\<rparr>"

definition streaming :: "read_end \<Rightarrow> upstream" where
  "streaming e = dead\<lparr>reply_of := Resp 200 ''text/event-stream'' [''a'', [], ''b''] [] e\<rparr>"

text \<open>The first node is dead, the second one streams.\<close>

definition failover :: genv where
  "failover = \<lparr>sha256_hex = (\<lambda>x. x), acquire_for = (\<lambda>p t a ex. Inr (if a = 1 then ''n1'' else ''n2'')),
     upstream_for = (\<lambda>b a n. if a = 1 then dead else streaming ReadErr),
     slept_for = (\<lambda>_. True), deadline_for = (\<lambda>_. False), draws_for = (\<lambda>_. 7)\<rparr>"

definition demo_handler :: direct_handler where
  "demo_handler = \<lparr>handler_model = ''m'', handler_rel = DefaultReliability, handler_timeout = 0\<rparr>"

definition failover_end :: hstate where
  "failover_end = fst (ServeHTTP demo_handler failover ''POST'' (Some []) (Some demo_q))"

lemma failover_written: "written failover_end = [''a'', ''b'', interrupted_event]" "tried failover_end = [''n1'', ''n2'']"
  by code_simp+

theorem first_byte_commit_witness:
  "written failover_end = [''a'', ''b'', interrupted_event]
   \<and> (\<exists>st ct chunks final rend. reply_of (upstream_for failover (forward_fields ''m'' demo_q) 2 ''n2'') = Resp st ct chunks final rend \<and> status failover_end = Some st)"
proof -
  have "ServeHTTP demo_handler failover ''POST'' (Some []) (Some demo_q) =
      (failover_end, snd (ServeHTTP demo_handler failover ''POST'' (Some []) (Some demo_q)))"
    by (simp add: failover_end_def)
  from first_byte_commit [OF this] failover_written show ?thesis
    by (auto simp: demo_q_def error_json_def numeral_2_eq_2 demo_handler_def)
qed

text \<open>One node behind the router of the demo, and it is dead: the second attempt finds no other.\<close>

definition one_dead :: genv where
  "one_dead = failover\<lparr>acquire_for := (\<lambda>prefixHash target. route_at (\<lambda>_. False) (\<lambda>_. 0) (\<lambda>_. demo_router) prefixHash target (\<lambda>_. [])),
     upstream_for := (\<lambda>_ _ _. dead)\<rparr>"

theorem attempts_bounded_distinct_witness:
  "\<exists>s returned. ServeHTTP demo_handler one_dead ''POST'' (Some []) (Some demo_q) = (s, returned)
     \<and> distinct (tried s) \<and> length (tried s) \<le> 3 \<and> map fst (ends s) = tried s"
proof -
  obtain s returned where s: "ServeHTTP demo_handler one_dead ''POST'' (Some []) (Some demo_q) = (s, returned)" by force
  have q: "messages demo_q \<noteq> []" by (simp add: demo_q_def)
  have "max_attempts (rel_of demo_handler) = 3"
    by (simp add: rel_of_def handler_init_def demo_handler_def DefaultReliability_def Let_def)
  with attempts_bounded_distinct [OF s q, of "\<lambda>_. False" "\<lambda>_. 0" "\<lambda>_. demo_router" "\<lambda>_. []"] s show ?thesis
    by (simp add: one_dead_def)
qed

theorem backoff_range_witness: "\<exists>w. backoff 25000000 3 12345678 = Some w \<and> 50000000 \<le> w \<and> w \<le> 100000000"
  using backoff_range [of 25000000 3 12345678] by simp

theorem negative_backoff_panics_witness:
  "\<not> snd (ServeHTTP \<lparr>handler_model = default_model default_config, handler_rel = DefaultReliability\<lparr>retry_backoff := - 1000000000\<rparr>, handler_timeout = 0\<rparr>
     failover ''POST'' (Some []) (Some demo_q))"
  using negative_backoff_panics [of default_config "- 1000000000" demo_q failover "''n1''" "[]"]
  by (simp add: Validate_None valid_config_def default_config_def DefaultReliability_def ms_def demo_q_def failover_def dead_def request_env_def)

theorem forward_fields_complete_witness:
  "map_of (forward_fields ''m'' demo_q) ''top_p'' = Some (JInt 1) \<and> map_of (forward_fields ''m'' demo_q) ''temperature'' = Some (JInt 0)"
  using forward_fields_complete [of "''top_p''" "''m''" demo_q] by (simp add: demo_q_def)

lemma default_backoff: "\<forall>k \<in> set [0..<3]. backoff (retry_backoff DefaultReliability) k 7 \<noteq> None"
  by code_simp

lemma demo_rel: "rel_of demo_handler = DefaultReliability"
  by (simp add: rel_of_def handler_init_def demo_handler_def DefaultReliability_def ms_def Let_def)

theorem requests_labelled_once_witness: "\<exists>l. labels failover_end = [l]"
proof -
  have "ServeHTTP demo_handler failover ''POST'' (Some []) (Some demo_q) =
      (failover_end, snd (ServeHTTP demo_handler failover ''POST'' (Some []) (Some demo_q)))"
    by (simp add: failover_end_def)
  moreover have "backoff (retry_backoff (rel_of demo_handler)) k (draws_for failover k) \<noteq> None" if "k < nat (max_attempts (rel_of demo_handler))" for k
    using that default_backoff by (simp add: demo_rel failover_def) (simp add: DefaultReliability_def)
  ultimately show ?thesis using requests_labelled_once [of demo_handler failover "Some []" "Some demo_q" failover_end] by blast
qed


end
