(* ===== verification/Health.thy ===== *)
theory Health
  imports Gw_Config
begin

section \<open>Active health checks (gateway-go/router/health.go)\<close>

text \<open>
  One round of \<^verbatim>\<open>ProbeAll\<close> gives every node a verdict: the status of its health endpoint, \<open>None\<close> when the request failed. The counters are kept
  per node name. The goroutines of a round touch different nodes, so their order does not matter when the names are distinct; the model takes the
  nodes in order. A round that the end of the context cuts short changes nothing for the nodes it cuts.
\<close>

record probe_state =
  fails :: int
  oks :: int

definition probe_http :: "int option \<Rightarrow> bool" where
  "probe_http answer = (case answer of None \<Rightarrow> False | Some c \<Rightarrow> c \<ge> 200 \<and> c < 300)"

definition probe_state0 :: probe_state where
  "probe_state0 = \<lparr>fails = 0, oks = 0\<rparr>"

definition count_probe :: "bool \<Rightarrow> probe_state \<Rightarrow> probe_state" where
  "count_probe ok ps = (if ok then ps\<lparr>oks := oks ps + 1, fails := 0\<rparr> else ps\<lparr>fails := fails ps + 1, oks := 0\<rparr>)"

text \<open>The \<^verbatim>\<open>switch\<close>: what becomes of the \<^verbatim>\<open>up\<close> flag.\<close>

definition decide :: "health_conf \<Rightarrow> bool \<Rightarrow> probe_state \<Rightarrow> bool \<Rightarrow> bool" where
  "decide h ok ps was_up =
     (if ok \<and> oks ps \<ge> healthy_threshold h then True
      else if \<not> ok \<and> fails ps \<ge> unhealthy_threshold h then False
      else was_up)"

fun probe_nodes :: "health_conf \<Rightarrow> (string \<Rightarrow> int option) \<Rightarrow> (string \<Rightarrow> bool) \<Rightarrow> (string \<Rightarrow> probe_state option) \<Rightarrow> node list
    \<Rightarrow> (string \<Rightarrow> probe_state option) \<times> node list" where
  "probe_nodes h answer ended st [] = (st, [])"
| "probe_nodes h answer ended st (n # ns) =
     (if ended (Name n) then (let (st', ns') = probe_nodes h answer ended st ns in (st', n # ns'))
      else
        (let ok = probe_http (answer (URL n @ health_path h));
             ps = count_probe ok (case st (Name n) of None \<Rightarrow> probe_state0 | Some p \<Rightarrow> p);
             n' = n\<lparr>up := decide h ok ps (up n)\<rparr>;
             (st', ns') = probe_nodes h answer ended (st(Name n \<mapsto> ps)) ns
         in (st', n' # ns')))"

definition ProbeAll :: "health_conf \<Rightarrow> (string \<Rightarrow> int option) \<Rightarrow> (string \<Rightarrow> bool) \<Rightarrow> (string \<Rightarrow> probe_state option) \<times> router
    \<Rightarrow> (string \<Rightarrow> probe_state option) \<times> router" where
  "ProbeAll h answer ended sr =
     (case sr of (st, r) \<Rightarrow> let (st', ns) = probe_nodes h answer ended st (nodes r) in (st', r\<lparr>nodes := ns\<rparr>))"

text \<open>The rounds of \<^verbatim>\<open>StartHealthChecks\<close>, one list entry per tick.\<close>

fun rounds :: "health_conf \<Rightarrow> (string \<Rightarrow> int option) list \<Rightarrow> (string \<Rightarrow> probe_state option) \<times> router \<Rightarrow> (string \<Rightarrow> probe_state option) \<times> router" where
  "rounds h [] sr = sr"
| "rounds h (answer # as) sr = rounds h as (ProbeAll h answer (\<lambda>_. False) sr)"

subsection \<open>One node over time\<close>

text \<open>The reference: what a node's history of verdicts does to its flag.\<close>

fun node_run :: "health_conf \<Rightarrow> bool list \<Rightarrow> probe_state \<times> bool \<Rightarrow> probe_state \<times> bool" where
  "node_run h [] s = s"
| "node_run h (ok # oks') (ps, u) = (let ps' = count_probe ok ps in node_run h oks' (ps', decide h ok ps' u))"

definition counter :: "(string \<Rightarrow> probe_state option) \<Rightarrow> string \<Rightarrow> probe_state" where
  "counter st x = (case st x of None \<Rightarrow> probe_state0 | Some p \<Rightarrow> p)"

lemma probe_nodes_names:
  "probe_nodes h answer ended st ns = (st', ns') \<Longrightarrow> length ns' = length ns \<and> (\<forall>i < length ns. Name (ns' ! i) = Name (ns ! i) \<and> URL (ns' ! i) = URL (ns ! i))"
proof (induction ns arbitrary: st st' ns')
  case (Cons n ns)
  then show ?case
    by (force simp: Let_def nth_Cons split: if_splits prod.splits nat.splits)
qed simp

lemma probe_nodes_other: "probe_nodes h answer ended st ns = (st', ns') \<Longrightarrow> x \<notin> Name ` set ns \<Longrightarrow> st' x = st x"
proof (induction ns arbitrary: st st' ns')
  case (Cons n ns)
  from Cons.prems have x: "x \<notin> Name ` set ns" "x \<noteq> Name n" by auto
  show ?case
  proof (cases "ended (Name n)")
    case True
    with Cons.prems(1) obtain ns1 where "probe_nodes h answer ended st ns = (st', ns1)" by (auto split: prod.splits)
    from Cons.IH [OF this x(1)] show ?thesis .
  next
    case False
    with Cons.prems(1) obtain ps ns1 where "probe_nodes h answer ended (st(Name n \<mapsto> ps)) ns = (st', ns1)"
      by (auto simp: Let_def split: prod.splits)
    from Cons.IH [OF this x(1)] x(2) show ?thesis by simp
  qed
qed simp

lemma probe_nodes_nth:
  assumes "probe_nodes h answer (\<lambda>_. False) st ns = (st', ns')" "distinct (map Name ns)" "i < length ns"
  shows "counter st' (Name (ns ! i)) = count_probe (probe_http (answer (URL (ns ! i) @ health_path h))) (counter st (Name (ns ! i)))
    \<and> up (ns' ! i) = decide h (probe_http (answer (URL (ns ! i) @ health_path h))) (counter st' (Name (ns ! i))) (up (ns ! i))"
  using assms
proof (induction ns arbitrary: st st' ns' i)
  case (Cons n ns)
  let ?ok = "probe_http (answer (URL n @ health_path h))" and ?ps = "count_probe (probe_http (answer (URL n @ health_path h))) (counter st (Name n))"
  obtain st1 ns1 where r: "probe_nodes h answer (\<lambda>_. False) (st(Name n \<mapsto> ?ps)) ns = (st1, ns1)" by force
  then have eq: "st' = st1" "ns' = n\<lparr>up := decide h ?ok ?ps (up n)\<rparr> # ns1"
    using Cons.prems(1) by (simp_all add: Let_def counter_def)
  show ?case
  proof (cases i)
    case 0
    have "st1 (Name n) = Some ?ps" using probe_nodes_other [OF r, of "Name n"] Cons.prems(2) by simp
    with 0 eq show ?thesis by (simp add: counter_def)
  next
    case (Suc j)
    with Cons.prems(3) have l: "j < length ns" by simp
    then have "Name (ns ! j) \<in> Name ` set ns" by simp
    with Cons.prems(2) l have j: "j < length ns" "Name (ns ! j) \<noteq> Name n" by (auto simp del: nth_mem)
    from Cons.IH [OF r _ j(1)] Cons.prems(2) j(2) Suc eq show ?thesis by (simp add: counter_def)
  qed
qed simp


lemma rounds_node:
  assumes "distinct (map Name (nodes r))" "i < length (nodes r)" "rounds h as (st, r) = (st', r')"
  shows "node_run h (map (\<lambda>a. probe_http (a (URL (nodes r ! i) @ health_path h))) as) (counter st (Name (nodes r ! i)), up (nodes r ! i))
    = (counter st' (Name (nodes r ! i)), up (nodes r' ! i))"
  using assms
proof (induction as arbitrary: st r)
  case (Cons a as)
  obtain st1 ns1 where p: "probe_nodes h a (\<lambda>_. False) st (nodes r) = (st1, ns1)" by force
  note n = probe_nodes_names [OF p] and q = probe_nodes_nth [OF p Cons.prems(1,2)]
  have d: "map Name ns1 = map Name (nodes r)" using n by (auto intro: nth_equalityI)
  have "rounds h as (st1, r\<lparr>nodes := ns1\<rparr>) = (st', r')" using Cons.prems(3) p by (simp add: ProbeAll_def)
  from Cons.IH [OF _ _ this] d n Cons.prems(1,2) q show ?case by (simp add: Let_def)
qed simp

text \<open>The counters are the lengths of the current run of failures and of successes.\<close>

definition trailing :: "bool \<Rightarrow> bool list \<Rightarrow> int" where
  "trailing b bs = int (length (takeWhile (\<lambda>x. x = b) (rev bs)))"

lemma trailing_snoc: "trailing b (bs @ [x]) = (if x = b then trailing b bs + 1 else 0)"
  by (simp add: trailing_def)

lemma node_run_snoc: "node_run h (bs @ [b]) s = (case node_run h bs s of (ps, u) \<Rightarrow> (count_probe b ps, decide h b (count_probe b ps) u))"
  by (induction h bs s rule: node_run.induct) (auto simp: Let_def split: prod.splits)

lemma node_run_counts: "fst (node_run h bs (probe_state0, u)) = \<lparr>fails = trailing False bs, oks = trailing True bs\<rparr>"
proof (induction bs rule: rev_induct)
  case Nil
  then show ?case by (simp add: probe_state0_def trailing_def)
next
  case (snoc b bs)
  then show ?case
    by (cases "node_run h bs (probe_state0, u)") (auto simp: node_run_snoc count_probe_def trailing_snoc)
qed

lemma node_run_up:
  "snd (node_run h (bs @ [b]) (probe_state0, u)) =
     (if b \<and> trailing True (bs @ [b]) \<ge> healthy_threshold h then True
      else if \<not> b \<and> trailing False (bs @ [b]) \<ge> unhealthy_threshold h then False
      else snd (node_run h bs (probe_state0, u)))"
  using node_run_counts [of h bs u]
  by (cases "node_run h bs (probe_state0, u)") (auto simp: node_run_snoc decide_def count_probe_def trailing_snoc)

lemma trailing_run: "int n \<le> trailing b bs \<Longrightarrow> \<exists>xs. bs = xs @ replicate n b"
proof (induction n arbitrary: bs)
  case (Suc n)
  then obtain ys x where x: "bs = ys @ [x]" by (cases bs rule: rev_cases) (auto simp: trailing_def)
  with Suc.prems have "x = b" "int n \<le> trailing b ys" by (auto simp: trailing_snoc split: if_splits)
  with Suc.IH [of ys] obtain xs where "ys = xs @ replicate n b" by blast
  with x \<open>x = b\<close> show ?case by (simp add: replicate_append_same)
qed simp

lemma trailing_replicate: "int n \<le> trailing b (xs @ replicate n b)"
  by (simp add: trailing_def takeWhile_append)

lemma node_run_steady:
  assumes "\<And>xs ys. bs \<noteq> xs @ replicate (nat (if u then unhealthy_threshold h else healthy_threshold h)) (\<not> u) @ ys"
    "1 \<le> unhealthy_threshold h" "1 \<le> healthy_threshold h"
  shows "snd (node_run h bs (probe_state0, u)) = u"
  using assms(1)
proof (induction bs rule: rev_induct)
  case (snoc b bs)
  have IH: "snd (node_run h bs (probe_state0, u)) = u"
  proof (rule snoc.IH)
    fix xs ys
    show "bs \<noteq> xs @ replicate (nat (if u then unhealthy_threshold h else healthy_threshold h)) (\<not> u) @ ys"
      using snoc.prems [of xs "ys @ [b]"] by auto
  qed
  define t where "t = (if u then unhealthy_threshold h else healthy_threshold h)"
  have "\<not> trailing (\<not> u) (bs @ [b]) \<ge> t"
  proof
    assume "trailing (\<not> u) (bs @ [b]) \<ge> t"
    moreover have "int (nat t) = t" using assms(2,3) by (simp add: t_def)
    ultimately obtain xs where "bs @ [b] = xs @ replicate (nat t) (\<not> u)"
      using trailing_run [of "nat t" "\<not> u" "bs @ [b]"] by auto
    then show False using snoc.prems [of xs "[]"] by (simp add: t_def)
  qed
  then have "\<not> trailing (\<not> u) (bs @ [b]) \<ge> (if u then unhealthy_threshold h else healthy_threshold h)" by (simp add: t_def)
  with IH show ?case by (cases u; cases b) (auto simp: node_run_up)
qed simp

lemma node_run_decided:
  assumes "1 \<le> unhealthy_threshold h" "1 \<le> healthy_threshold h"
  shows "snd (node_run h (bs @ replicate (nat (if b then healthy_threshold h else unhealthy_threshold h)) b) (probe_state0, u)) = b"
proof -
  obtain k where k: "nat (if b then healthy_threshold h else unhealthy_threshold h) = Suc k"
    using assms by (cases "nat (if b then healthy_threshold h else unhealthy_threshold h)") (auto split: if_splits)
  have "replicate (Suc k) b = replicate k b @ [b]" by (simp add: replicate_append_same)
  then show ?thesis
    using trailing_replicate [of "Suc k" b bs] k node_run_up [of h "bs @ replicate k b" b u] by (cases b) (auto simp: k)
qed

subsection \<open>Properties\<close>

text \<open>C22. Health checks have hysteresis: over any sequence of rounds from the start, a node that is up goes down only after \<^verbatim>\<open>unhealthy_threshold\<close>
consecutive failed probes, and it is down right after any such run, whatever came before; it is up right after any run of \<^verbatim>\<open>healthy_threshold\<close>
consecutive successes. Probes of other nodes have no influence.\<close>

theorem health_hysteresis:
  assumes "distinct (map Name (nodes r))" "i < length (nodes r)" "rounds h as (Map.empty, r) = (st', r')"
    "1 \<le> unhealthy_threshold h" "1 \<le> healthy_threshold h" "up (nodes r ! i)"
  defines "history \<equiv> map (\<lambda>a. probe_http (a (URL (nodes r ! i) @ health_path h))) as"
  shows "((\<forall>xs ys. history \<noteq> xs @ replicate (nat (unhealthy_threshold h)) False @ ys) \<longrightarrow> up (nodes r' ! i))
    \<and> (\<forall>xs. history = xs @ replicate (nat (unhealthy_threshold h)) False \<longrightarrow> \<not> up (nodes r' ! i))
    \<and> (\<forall>xs. history = xs @ replicate (nat (healthy_threshold h)) True \<longrightarrow> up (nodes r' ! i))"
proof -
  have r: "node_run h history (probe_state0, True) = (counter st' (Name (nodes r ! i)), up (nodes r' ! i))"
    using rounds_node [OF assms(1-3)] assms(6) by (simp add: history_def counter_def)
  have "up (nodes r' ! i)" if "\<And>xs ys. history \<noteq> xs @ replicate (nat (unhealthy_threshold h)) False @ ys"
    using node_run_steady [of history True h] that assms(4,5) r by simp
  moreover have "\<not> up (nodes r' ! i)" if "history = xs @ replicate (nat (unhealthy_threshold h)) False" for xs
    using node_run_decided [OF assms(4,5), of xs False True] that r by simp
  moreover have "up (nodes r' ! i)" if "history = xs @ replicate (nat (healthy_threshold h)) True" for xs
    using node_run_decided [OF assms(4,5), of xs True True] that r by simp
  ultimately show ?thesis by blast
qed

definition probed_inst :: instance_cfg where
  "probed_inst = \<lparr>inst_group = [], inst_role = [], inst_host = ''a'', inst_port = 1, inst_max = 1\<rparr>"

definition probed :: router where
  "probed = new_router [probed_inst] 1 (options_of default_config)"

theorem health_hysteresis_witness:
  "\<not> up (nodes (snd (rounds (rel_health DefaultReliability) [\<lambda>_. Some 200, \<lambda>_. None, \<lambda>_. Some 500] (Map.empty, probed))) ! 0)"
proof -
  let ?as = "[\<lambda>_. Some 200, \<lambda>_. None, \<lambda>_. Some 500] :: (string \<Rightarrow> int option) list"
  have "rounds (rel_health DefaultReliability) ?as (Map.empty, probed) =
      (fst (rounds (rel_health DefaultReliability) ?as (Map.empty, probed)), snd (rounds (rel_health DefaultReliability) ?as (Map.empty, probed)))"
    by simp
  note t = health_hysteresis [OF _ _ this, of 0]
  have "map (\<lambda>a. probe_http (a (URL (nodes probed ! 0) @ health_path (rel_health DefaultReliability)))) ?as = [True] @ replicate (nat 2) False"
    by (simp add: probe_http_def numeral_2_eq_2)
  then show ?thesis
    using t by (auto simp: probed_def new_router_def new_node_def DefaultReliability_def Let_def)
qed

end
