(* ===== verification/Gateway.thy ===== *)
theory Gateway
  imports Handler Health
begin

section \<open>The gateway as a whole (gateway-go/main.go, gateway-go/metrics)\<close>

text \<open>
  Models the entry point: the start with its configuration, router, gauges and handler, the routes with the endpoint behind each, and the gauges
  of package \<^verbatim>\<open>metrics\<close>. The registry of the Prometheus client is an argument: \<open>accepts regs x\<close> says whether it takes the metric \<open>x\<close>
  beside the metrics \<open>regs\<close>; \<^verbatim>\<open>MustRegister\<close> panics when it does not. A path is the canonical one (\<^verbatim>\<open>ServeMux\<close> redirects others).
\<close>

subsection \<open>Nodes for people and machines\<close>

fun state_string :: "state \<Rightarrow> string" where
  "state_string Closed = ''closed''"
| "state_string Open = ''open''"
| "state_string HalfOpen = ''half_open''"

definition status_json :: "node_status \<Rightarrow> json" where
  "status_json s =
     JObj [(''name'', JStr (st_name s)), (''group'', JStr (st_group s)), (''role'', JStr (st_role s)), (''up'', JBool (st_up s)),
       (''breaker'', JStr (state_string (st_breaker s))), (''inflight'', JInt (st_inflight s)), (''max_concurrent'', JInt (st_max s)),
       (''placed_prefixes'', JInt (st_placed s))]"

definition b2f :: "bool \<Rightarrow> real" where
  "b2f b = (if b then 1 else 0)"

text \<open>The gauges: three for the \<open>i\<close>-th node, and the depth of the queue. Reading a gauge of a node takes a snapshot of the router.\<close>

datatype gauge = NodeUp nat | NodeBreakerOpen nat | NodeInflight nat | QueueGauge

definition router_gauges :: "router \<Rightarrow> gauge list" where
  "router_gauges r = concat (map (\<lambda>i. [NodeUp i, NodeBreakerOpen i, NodeInflight i]) [0..<length (nodes r)]) @ [QueueGauge]"

fun gauge_id :: "router \<Rightarrow> gauge \<Rightarrow> string \<times> string option" where
  "gauge_id r (NodeUp i) = (''radixgates_node_up'', Some (Name (nodes r ! i)))"
| "gauge_id r (NodeBreakerOpen i) = (''radixgates_node_breaker_open'', Some (Name (nodes r ! i)))"
| "gauge_id r (NodeInflight i) = (''radixgates_node_inflight'', Some (Name (nodes r ! i)))"
| "gauge_id r QueueGauge = (''radixgates_queue_depth'', None)"

fun read_gauge :: "int \<Rightarrow> gauge \<Rightarrow> router \<Rightarrow> real \<times> router" where
  "read_gauge now (NodeUp i) r = (let (ss, r') = Snapshot now r in (b2f (st_up (ss ! i)), r'))"
| "read_gauge now (NodeBreakerOpen i) r = (let (ss, r') = Snapshot now r in (b2f (state_string (st_breaker (ss ! i)) \<noteq> ''closed''), r'))"
| "read_gauge now (NodeInflight i) r = (let (ss, r') = Snapshot now r in (real_of_int (st_inflight (ss ! i)), r'))"
| "read_gauge now QueueGauge r = (real_of_int (QueueDepth r), r)"

text \<open>A scrape of \<^verbatim>\<open>/metrics\<close> reads the gauges one after the other, each at its own time.\<close>

fun scrape :: "(int \<times> gauge) list \<Rightarrow> router \<Rightarrow> real list \<times> router" where
  "scrape [] r = ([], r)"
| "scrape ((now, g) # gs) r = (let (v, r1) = read_gauge now g r; (vs, r2) = scrape gs r1 in (v # vs, r2))"

type_synonym metric_id = "string \<times> string option"

fun must_register :: "(metric_id list \<Rightarrow> metric_id \<Rightarrow> bool) \<Rightarrow> metric_id list \<Rightarrow> metric_id list \<Rightarrow> metric_id list option" where
  "must_register accepts regs [] = Some regs"
| "must_register accepts regs (x # xs) = (if accepts regs x then must_register accepts (regs @ [x]) xs else None)"

definition RegisterRouter :: "(metric_id list \<Rightarrow> metric_id \<Rightarrow> bool) \<Rightarrow> metric_id list \<Rightarrow> router \<Rightarrow> metric_id list option" where
  "RegisterRouter accepts regs r = must_register accepts regs (map (gauge_id r) (router_gauges r))"

text \<open>The metrics registered when the package is loaded.\<close>

definition package_metrics :: "metric_id list" where
  "package_metrics =
     [(''radixgates_requests_total'', None), (''radixgates_request_duration_seconds'', None), (''radixgates_active_requests'', None),
      (''radixgates_upstream_attempts_total'', None), (''radixgates_retries_total'', None), (''radixgates_breaker_transitions_total'', None),
      (''radixgates_midstream_failures_total'', None), (''radixgates_time_to_first_byte_seconds'', None), (''radixgates_queue_wait_seconds'', None)]"

subsection \<open>The start\<close>

record gateway =
  g_addr :: string
  g_router :: router
  g_handler :: direct_handler
  g_health :: "health_conf option"

datatype startup = Fatal string | Panics | Running gateway

definition config_path_of :: "string \<Rightarrow> string" where
  "config_path_of env = (if env \<noteq> [] then env else ''config/config.json'')"

definition setupDirectRoutes :: "(metric_id list \<Rightarrow> metric_id \<Rightarrow> bool) \<Rightarrow> gw_config \<Rightarrow> startup" where
  "setupDirectRoutes accepts c =
     (case setup_router c of
        None \<Rightarrow> Fatal ''[Gateway] requires at least one entry in sglang_instances''
      | Some r \<Rightarrow>
          (case RegisterRouter accepts package_metrics r of
             None \<Rightarrow> Panics
           | Some _ \<Rightarrow>
               Running \<lparr>g_addr = ''0.0.0.0:'' @ show_int (gw_port c), g_router = r,
                 g_handler = \<lparr>handler_model = default_model c, handler_rel = gw_reliability c, handler_timeout = 0\<rparr>,
                 g_health = (let hc = rel_health (gw_reliability c) in if health_enabled hc then Some hc else None)\<rparr>))"

text \<open>\<^verbatim>\<open>main\<close> up to the point where it serves: \<open>files\<close> gives the decoded configuration of a path.\<close>

definition gateway_main :: "(string \<Rightarrow> int option) \<Rightarrow> (metric_id list \<Rightarrow> metric_id \<Rightarrow> bool) \<Rightarrow> (string \<Rightarrow> json option option) \<Rightarrow> string \<Rightarrow> startup" where
  "gateway_main dur accepts files env =
     (case Load dur (files (config_path_of env)) of
        Inl e \<Rightarrow> Fatal ''[Gateway] Failed to load config''
      | Inr c \<Rightarrow> setupDirectRoutes accepts c)"

subsection \<open>The routes\<close>

datatype endpoint = ChatE | HealthE | ReadyzE | AdminNodesE | MetricsE | NotFoundE | NotAllowedE "string list"

definition routes :: "(string \<times> string \<times> endpoint) list" where
  "routes =
     [(''POST'', ''/v1/chat'', ChatE), (''POST'', ''/v1/chat/completions'', ChatE), (''GET'', ''/health'', HealthE), (''GET'', ''/readyz'', ReadyzE),
      (''GET'', ''/admin/nodes'', AdminNodesE), (''GET'', ''/metrics'', MetricsE)]"

text \<open>A pattern for \<^verbatim>\<open>GET\<close> also matches \<^verbatim>\<open>HEAD\<close>; a path that is known for other methods only is answered with 405 and those methods.\<close>

definition method_matches :: "string \<Rightarrow> string \<Rightarrow> bool" where
  "method_matches pat meth = (pat = meth \<or> pat = ''GET'' \<and> meth = ''HEAD'')"

definition route :: "string \<Rightarrow> string \<Rightarrow> endpoint" where
  "route meth path =
     (case find (\<lambda>(m, p, e). p = path \<and> method_matches m meth) routes of
        Some (m, p, e) \<Rightarrow> e
      | None \<Rightarrow>
          (let known = map fst (filter (\<lambda>(m, p, e). p = path) routes)
           in if known = [] then NotFoundE else NotAllowedE (concat (map (\<lambda>m. if m = ''GET'' then [''GET'', ''HEAD''] else [m]) known))))"

definition health_endpoint :: "int \<times> string" where
  "health_endpoint =
     (let q = [CHR 0x22] in (200, ''{'' @ q @ ''status'' @ q @ '':'' @ q @ ''ok'' @ q @ '','' @ q @ ''mode'' @ q @ '':'' @ q @ ''direct'' @ q @ ''}''))"

definition readyz_endpoint :: "int \<Rightarrow> router \<Rightarrow> int \<times> string" where
  "readyz_endpoint now r = (if fst (AnyAvailable now r) then (200, ''ready'') else (503, ''no SGLang node available'' @ [CHR 0x0A]))"

definition admin_nodes :: "int \<Rightarrow> router \<Rightarrow> json \<times> router" where
  "admin_nodes now r = (let (ss, r') = Snapshot now r in (JArr (map status_json ss), r'))"

text \<open>What a request gets; a 405 carries the allowed methods. The chat endpoint answers through its handler; its router is behind the environment of the request.\<close>

datatype reply_to_client =
    Plain int string
  | NotAllowedReply "string list"
  | NodesReply json
  | GaugesReply "real list"
  | ChatReply hstate bool

definition gateway_serve :: "genv \<Rightarrow> int \<Rightarrow> (int \<times> gauge) list \<Rightarrow> gateway \<Rightarrow> string \<Rightarrow> string \<Rightarrow> string option \<Rightarrow> chat_request option
    \<Rightarrow> reply_to_client \<times> gateway" where
  "gateway_serve env now clock gw meth path body req =
     (case route meth path of
        ChatE \<Rightarrow> (let (s, returned) = ServeHTTP (g_handler gw) env meth body req in (ChatReply s returned, gw))
      | HealthE \<Rightarrow> (Plain (fst health_endpoint) (snd health_endpoint), gw)
      | ReadyzE \<Rightarrow> (let (st, txt) = readyz_endpoint now (g_router gw) in (Plain st txt, gw\<lparr>g_router := snd (AnyAvailable now (g_router gw))\<rparr>))
      | AdminNodesE \<Rightarrow> (let (j, r) = admin_nodes now (g_router gw) in (NodesReply j, gw\<lparr>g_router := r\<rparr>))
      | MetricsE \<Rightarrow> (let (vs, r) = scrape clock (g_router gw) in (GaugesReply vs, gw\<lparr>g_router := r\<rparr>))
      | NotFoundE \<Rightarrow> (Plain 404 (''404 page not found'' @ [CHR 0x0A]), gw)
      | NotAllowedE allow \<Rightarrow> (NotAllowedReply allow, gw))"

subsection \<open>Lemmas: watching the router\<close>

definition watched :: "router \<Rightarrow> router \<Rightarrow> bool" where
  "watched r r' \<longleftrightarrow> untouched r r' \<and> map placed (nodes r') = map placed (nodes r) \<and> placeLRU r' = placeLRU r \<and> map up (nodes r') = map up (nodes r)"

lemma watched_refl [simp]: "watched r r"
  by (simp add: watched_def)

lemma watched_trans: "watched r r1 \<Longrightarrow> watched r1 r2 \<Longrightarrow> watched r r2"
  by (simp add: watched_def untouched_def)

lemma any_available_up: "map up (snd (any_available now ns)) = map up ns"
proof (induction ns)
  case (Cons n ns)
  have "up (snd (node_available now n)) = up n" by (subst node_available_keeps) simp
  with Cons show ?case by (auto split: prod.splits bool.splits)
qed simp

lemma watched_Snapshot: "watched r (snd (Snapshot now r))"
proof -
  have "up (snd (BreakerState now n)) = up n" for n by (subst BreakerState_keeps) simp
  then show ?thesis using observe_keeps [of "snd (Snapshot now r)" now r] by (simp add: watched_def Snapshot_def comp_def)
qed

lemma watched_AnyAvailable: "watched r (snd (AnyAvailable now r))"
  using observe_keeps [of "snd (AnyAvailable now r)" now r] any_available_up [of now "nodes r"]
  by (simp add: watched_def AnyAvailable_def split: prod.splits)

lemma read_gauge_watched: "watched r (snd (read_gauge now g r))"
  using watched_Snapshot [of r now] by (cases g) (auto split: prod.splits)

lemma scrape_watched: "watched r (snd (scrape gs r))"
proof (induction gs arbitrary: r)
  case (Cons tg gs)
  obtain now g where tg: "tg = (now, g)" by force
  show ?case using read_gauge_watched [of r now g] Cons.IH [of "snd (read_gauge now g r)"] by (auto simp: tg split: prod.splits intro: watched_trans)
qed simp

text \<open>What a gauge stands for, as far as it does not depend on the time.\<close>

fun gauge_value :: "router \<Rightarrow> gauge \<Rightarrow> real option" where
  "gauge_value r (NodeUp i) = Some (b2f (map up (nodes r) ! i))"
| "gauge_value r (NodeBreakerOpen i) = None"
| "gauge_value r (NodeInflight i) = Some (real_of_int (loads r ! i))"
| "gauge_value r QueueGauge = Some (real_of_int (waiting r))"

lemma gauge_range: "g \<in> set (router_gauges r) \<longleftrightarrow> (case g of QueueGauge \<Rightarrow> True | NodeUp i \<Rightarrow> i < length (nodes r) | NodeBreakerOpen i \<Rightarrow> i < length (nodes r)
    | NodeInflight i \<Rightarrow> i < length (nodes r))"
  by (cases g) (auto simp: router_gauges_def)

lemma watched_gauges: "watched r r' \<Longrightarrow> gauge_value r' = gauge_value r \<and> set (router_gauges r') = set (router_gauges r)"
proof -
  assume w: "watched r r'"
  then have l: "length (nodes r') = length (nodes r)" by (metis length_map watched_def)
  have "gauge_value r' g = gauge_value r g" for g
    using w by (cases g) (simp_all add: watched_def untouched_def frame_def)
  moreover have "g \<in> set (router_gauges r') \<longleftrightarrow> g \<in> set (router_gauges r)" for g by (simp add: gauge_range l split: gauge.splits)
  ultimately show ?thesis by auto
qed

lemma read_gauge_value: "g \<in> set (router_gauges r) \<Longrightarrow> gauge_value r g = Some v \<Longrightarrow> fst (read_gauge now g r) = v"
  by (cases g) (auto simp: gauge_range Snapshot_def loads_def QueueDepth_def)

lemma must_register_iff:
  assumes "\<And>regs x. accepts regs x \<longleftrightarrow> x \<notin> set regs"
  shows "must_register accepts regs xs = (if distinct xs \<and> set xs \<inter> set regs = {} then Some (regs @ xs) else None)"
  by (induction xs arbitrary: regs) (auto simp: assms)

lemma distinct_gauges: "distinct (map (gauge_id r) (router_gauges r)) \<longleftrightarrow> distinct (map Name (nodes r))"
proof -
  define f where "f is = concat (map (\<lambda>i. [NodeUp i, NodeBreakerOpen i, NodeInflight i]) is)" for "is"
  define a where "a = ''radixgates_node_up''"
  define b where "b = ''radixgates_node_breaker_open''"
  define c where "c = ''radixgates_node_inflight''"
  have n: "a \<noteq> b" "a \<noteq> c" "b \<noteq> c" by (simp_all add: a_def b_def c_def)
  have g: "gauge_id r (NodeUp i) = (a, Some (Name (nodes r ! i)))" "gauge_id r (NodeBreakerOpen i) = (b, Some (Name (nodes r ! i)))"
    "gauge_id r (NodeInflight i) = (c, Some (Name (nodes r ! i)))" for i by (simp_all add: a_def b_def c_def)
  have f: "f (i # is) = NodeUp i # NodeBreakerOpen i # NodeInflight i # f is" "f [] = []" for i "is" by (simp_all add: f_def)
  have img: "(m, Some x) \<in> gauge_id r ` set (f is) \<longleftrightarrow> m \<in> {a, b, c} \<and> x \<in> (\<lambda>i. Name (nodes r ! i)) ` set is" for m x "is"
    by (induction "is") (auto simp: f g simp del: gauge_id.simps)
  have "distinct (map (gauge_id r) (f is)) \<longleftrightarrow> distinct (map (\<lambda>i. Name (nodes r ! i)) is)" for "is"
    by (induction "is") (auto simp: f g img n simp del: gauge_id.simps)
  moreover have "gauge_id r QueueGauge \<notin> set (map (gauge_id r) (f is))" for "is" unfolding f_def by auto
  moreover have "map (\<lambda>i. Name (nodes r ! i)) [0..<length (nodes r)] = map Name (nodes r)" by (intro nth_equalityI) simp_all
  ultimately show ?thesis by (simp add: router_gauges_def f_def [symmetric] del: gauge_id.simps)
qed

lemma gauges_not_package: "set (map (gauge_id r) (router_gauges r)) \<inter> set package_metrics = {}"
  by (auto simp: router_gauges_def package_metrics_def)

subsection \<open>Properties\<close>

text \<open>C16. Only the two chat routes reach the nodes: a request is handed to the chat handler exactly when it is a \<^verbatim>\<open>POST\<close> to one of the two chat paths, and then
gets the handler's answer; whatever else is asked of the gateway (health, readiness, the node list, the metrics, unknown paths and methods) leaves the
handler, the slots in use, the queue, the placement memory and the health flags as they were.\<close>

theorem only_chat_reaches_nodes:
  "case gateway_serve env now clock gw meth path body req of (reply, gw') \<Rightarrow>
     ((\<exists>s returned. reply = ChatReply s returned) \<longleftrightarrow> meth = ''POST'' \<and> path \<in> {''/v1/chat'', ''/v1/chat/completions''})
     \<and> (\<forall>s returned. reply = ChatReply s returned \<longleftrightarrow> route meth path = ChatE \<and> ServeHTTP (g_handler gw) env ''POST'' body req = (s, returned))
     \<and> watched (g_router gw) (g_router gw') \<and> g_handler gw' = g_handler gw"
proof -
  have c: "route meth path = ChatE \<longleftrightarrow> meth = ''POST'' \<and> path \<in> {''/v1/chat'', ''/v1/chat/completions''}"
    by (auto simp: route_def routes_def method_matches_def Let_def)
  obtain reply gw' where g: "gateway_serve env now clock gw meth path body req = (reply, gw')" by force
  have w: "watched (g_router gw) (g_router gw') \<and> g_handler gw' = g_handler gw"
    using g watched_AnyAvailable [of "g_router gw" now] watched_Snapshot [of "g_router gw" now] scrape_watched [of "g_router gw" clock]
    by (auto simp: gateway_serve_def admin_nodes_def split: endpoint.splits prod.splits)
  show ?thesis
  proof (cases "route meth path = ChatE")
    case True
    then have "meth = ''POST''" using c by simp
    with True g w c show ?thesis by (auto simp: gateway_serve_def split: prod.splits)
  next
    case False
    then have "\<forall>s returned. reply \<noteq> ChatReply s returned" using g by (auto simp: gateway_serve_def split: endpoint.splits prod.splits)
    with False g w c show ?thesis by simp
  qed
qed


text \<open>C17. When the gateway starts: with a registry that refuses exactly what is already registered, a configuration that loads gives a running gateway if and
only if it names at least one instance and no two of its instances have the same address. An instance listed twice passes \<^verbatim>\<open>Validate\<close> and makes the start
panic; none at all ends it with a message.\<close>

theorem gateway_starts_iff:
  assumes "\<And>regs x. accepts regs x \<longleftrightarrow> x \<notin> set regs" "Load dur (files (config_path_of env)) = Inr c"
  defines "addresses \<equiv> map (\<lambda>i. hostPort (inst_host i) (inst_port i)) (sglang_instances c)"
  shows "((\<exists>gw. gateway_main dur accepts files env = Running gw) \<longleftrightarrow> sglang_instances c \<noteq> [] \<and> distinct addresses)
    \<and> (gateway_main dur accepts files env = Panics \<longleftrightarrow> \<not> distinct addresses)"
proof -
  define r where "r = new_router (sglang_instances c) (max_concurrent_per_node c) (options_of c)"
  have n: "map Name (nodes r) = addresses"
    by (simp add: r_def addresses_def new_router_def new_node_def Let_def comp_def)
  have reg: "RegisterRouter accepts package_metrics r \<noteq> None \<longleftrightarrow> distinct (map Name (nodes r))"
    using gauges_not_package [of r] unfolding RegisterRouter_def must_register_iff [of accepts, OF assms(1)] distinct_gauges [symmetric]
    by (simp del: set_map)
  have m: "gateway_main dur accepts files env = setupDirectRoutes accepts c" by (simp add: gateway_main_def assms(2))
  have e: "sglang_instances c = [] \<Longrightarrow> distinct addresses" by (simp add: addresses_def)
  show ?thesis
    using reg e by (auto simp: m setupDirectRoutes_def setup_router_def r_def [symmetric] n split: option.splits)
qed

subsection \<open>Concrete gateways\<close>

definition twice_json :: json where
  "twice_json = JObj [(''sglang_instances'', JArr [JObj [(''host'', JStr ''h''), (''port'', JInt 1)], JObj [(''host'', JStr ''h''), (''port'', JInt 1)]])]"

definition twice_config :: gw_config where
  "twice_config = default_config\<lparr>sglang_instances := [instance0\<lparr>inst_host := ''h'', inst_port := 1\<rparr>, instance0\<lparr>inst_host := ''h'', inst_port := 1\<rparr>]\<rparr>"

lemma twice_loads: "Load (\<lambda>_. None) (Some (Some twice_json)) = Inr twice_config"
proof -
  have "decode_struct (config_setters (\<lambda>_. None)) twice_json default_config = Some twice_config"
    by (simp add: twice_json_def twice_config_def config_setters_def instance_setters_def instance0_def set_to_def str_simps default_config_def)
  moreover have "Validate twice_config = None"
    by (simp add: Validate_None valid_config_def twice_config_def default_config_def DefaultReliability_def ms_def)
  ultimately show ?thesis by (simp add: Load_def)
qed

theorem gateway_starts_iff_witness:
  "gateway_main (\<lambda>_. None) (\<lambda>regs x. x \<notin> set regs) (\<lambda>p. Some (Some twice_json)) [] = Panics"
  using gateway_starts_iff [of "\<lambda>regs x. x \<notin> set regs" "\<lambda>_. None" "\<lambda>p. Some (Some twice_json)" "[]" twice_config] twice_loads
  by (simp add: twice_config_def)

definition watched_router :: router where
  "watched_router = new_router [instance0\<lparr>inst_host := ''h'', inst_port := 1\<rparr>] 8 (options_of default_config)"


end
