(* ===== verification/Mock_Worker.thy ===== *)
theory Mock_Worker
  imports Breaker Handler
begin

section \<open>The simulated worker (gateway-go/internal/mock/worker.go)\<close>

text \<open>
  Models package \<^verbatim>\<open>mock\<close>: the options and their defaults, the injected faults, the simulated prefix cache, the health and admin endpoints, and the
  chat endpoint with its timing model and its stream. The cache is kept as in the code, a list with the most recent key in front and a map of
  the keys. Whether the client is still there after each sleep is an argument; a write to a client that has left is one nobody reads. Durations are
  nanoseconds, with sums and products wrapped to 64 bits; the contention factor is computed in the reals.
\<close>

subsection \<open>Data\<close>

record fault =
  Mode :: string
  DelayMS :: int
  AfterTokens :: int

definition FaultNone :: string where
  "FaultNone = ''none''"

record mock_options =
  worker_name :: string
  TTFTCold :: int
  TTFTWarm :: int
  TPOT :: int
  Tokens :: int
  Capacity :: int
  CacheSize :: int

definition mock_defaults :: "mock_options \<Rightarrow> mock_options" where
  "mock_defaults os =
     (let os = (if TTFTCold os \<le> 0 then os\<lparr>TTFTCold := 100 * ms\<rparr> else os);
          os = (if TTFTWarm os \<le> 0 then os\<lparr>TTFTWarm := 50 * ms\<rparr> else os);
          os = (if TPOT os \<le> 0 then os\<lparr>TPOT := 15 * ms\<rparr> else os);
          os = (if Tokens os \<le> 0 then os\<lparr>Tokens := 16\<rparr> else os);
          os = (if Capacity os \<le> 0 then os\<lparr>Capacity := 4\<rparr> else os);
          os = (if CacheSize os \<le> 0 then os\<lparr>CacheSize := 4\<rparr> else os)
      in os)"

record worker =
  wopts :: mock_options
  wfault :: fault
  winflight :: int
  wrequests :: int
  wwarm :: int
  lru :: "string list"
  cached :: "string set"

definition new_worker :: "mock_options \<Rightarrow> worker" where
  "new_worker os = \<lparr>wopts = mock_defaults os, wfault = \<lparr>Mode = FaultNone, DelayMS = 0, AfterTokens = 0\<rparr>,
     winflight = 0, wrequests = 0, wwarm = 0, lru = [], cached = {}\<rparr>"

definition SetFault :: "fault \<Rightarrow> worker \<Rightarrow> worker" where
  "SetFault f w = w\<lparr>wfault := (if Mode f = [] then f\<lparr>Mode := FaultNone\<rparr> else f)\<rparr>"

definition worker_stats :: "worker \<Rightarrow> string \<times> int \<times> int \<times> int" where
  "worker_stats w = (worker_name (wopts w), wrequests w, wwarm w, winflight w)"

text \<open>An answer: the connection is closed without one, it never comes, or a status with a content type, the writes, and how the body ends
  (\<open>EOF\<close> when the handler returned, \<open>ReadErr\<close> when it closed the connection).\<close>

datatype answer = HangUp | Never | Answer int string "string list" read_end

definition http_error :: "int \<Rightarrow> string \<Rightarrow> answer" where
  "http_error st msg = Answer st ''text/plain; charset=utf-8'' [msg @ [CHR 0x0A]] EOF"

definition worker_health :: "worker \<Rightarrow> answer" where
  "worker_health w =
     (if Mode (wfault w) = ''health_down'' \<or> Mode (wfault w) = ''error503''
      then http_error 503 (''{'' @ [CHR 0x22] @ ''status'' @ [CHR 0x22] @ '':'' @ [CHR 0x22] @ ''unhealthy'' @ [CHR 0x22] @ ''}'')
      else Answer 200 ''application/json'' [''{'' @ [CHR 0x22] @ ''status'' @ [CHR 0x22] @ '':'' @ [CHR 0x22] @ ''ok'' @ [CHR 0x22] @ ''}''] EOF)"

text \<open>\<^verbatim>\<open>POST /admin/fault\<close>: \<open>None\<close> for a body that does not decode.\<close>

definition admin_fault :: "fault option \<Rightarrow> worker \<Rightarrow> int \<times> worker" where
  "admin_fault body w = (case body of None \<Rightarrow> (400, w) | Some f \<Rightarrow> (200, SetFault f w))"

subsection \<open>The prefix cache\<close>

text \<open>A request: its messages (role and content, as a text or as its raw bytes), \<^verbatim>\<open>stream\<close> and \<^verbatim>\<open>max_tokens\<close>.\<close>

record mock_req =
  mr_messages :: "(string \<times> string) list"
  mr_stream :: bool
  mr_max_tokens :: int

fun prefix_key :: "string \<Rightarrow> (string \<times> string) list \<Rightarrow> string" where
  "prefix_key sb [] = sb"
| "prefix_key sb ((role, s) # msgs) =
     (if role = ''system'' then s else prefix_key (if length sb < 256 then sb @ s else sb) msgs)"

text \<open>The eviction loop. The size is positive once the defaults are in; the guard on the empty list stands for the end of the list.\<close>

function evict_old :: "int \<Rightarrow> string list \<Rightarrow> string set \<Rightarrow> string list \<times> string set" where
  "evict_old sz l c = (if int (length l) > sz \<and> l \<noteq> [] then evict_old sz (butlast l) (c - {last l}) else (l, c))"
  by pat_completeness auto
termination by (relation "measure (\<lambda>(sz, l, c). length l)") auto

declare evict_old.simps [simp del]

definition touch :: "string \<Rightarrow> worker \<Rightarrow> bool \<times> worker" where
  "touch key w =
     (if key \<in> cached w then (True, w\<lparr>lru := key # remove1 key (lru w)\<rparr>)
      else (let (l, c) = evict_old (CacheSize (wopts w)) (key # lru w) (insert key (cached w))
            in (False, w\<lparr>lru := l, cached := c\<rparr>)))"

subsection \<open>The chat endpoint\<close>

text \<open>The part before the cache is asked: faults and bad requests are answered at once.\<close>

definition chat_reject :: "fault \<Rightarrow> mock_req option \<Rightarrow> answer option" where
  "chat_reject f req =
     (if Mode f = ''error503''
      then Some (http_error 503 (''{'' @ [CHR 0x22] @ ''error'' @ [CHR 0x22] @ '':{'' @ [CHR 0x22] @ ''message'' @ [CHR 0x22] @ '':'' @ [CHR 0x22]
                  @ ''worker overloaded'' @ [CHR 0x22] @ ''}}''))
      else if Mode f = ''reset'' then Some HangUp
      else if Mode f = ''hang'' then Some Never
      else (let bad = http_error 400 (''{'' @ [CHR 0x22] @ ''error'' @ [CHR 0x22] @ '':{'' @ [CHR 0x22] @ ''message'' @ [CHR 0x22] @ '':'' @ [CHR 0x22]
                  @ ''bad request'' @ [CHR 0x22] @ ''}}'')
            in case req of None \<Rightarrow> Some bad | Some q \<Rightarrow> if mr_messages q = [] then Some bad else None))"

text \<open>The counters, under the lock; the number in flight is what the timing model uses.\<close>

definition chat_enter :: "bool \<Rightarrow> worker \<Rightarrow> int \<times> worker" where
  "chat_enter warm w =
     (let w = w\<lparr>winflight := winflight w + 1, wrequests := wrequests w + 1, wwarm := (if warm then wwarm w + 1 else wwarm w)\<rparr>
      in (winflight w, w))"

definition chat_leave :: "worker \<Rightarrow> worker" where
  "chat_leave w = w\<lparr>winflight := winflight w - 1\<rparr>"

text \<open>The contention model; the conversion of a float to a duration cuts towards zero.\<close>

definition scale :: "mock_options \<Rightarrow> int \<Rightarrow> int \<Rightarrow> int" where
  "scale os infl d =
     (let x = real_of_int d * max 1 (real_of_int infl / real_of_int (Capacity os)) in if x < 0 then \<lceil>x\<rceil> else \<lfloor>x\<rfloor>)"

definition ttft_of :: "mock_options \<Rightarrow> fault \<Rightarrow> bool \<Rightarrow> int" where
  "ttft_of os f warm =
     (let ttft = (if warm then TTFTWarm os else TTFTCold os)
      in if Mode f = ''slow'' then wrap64 (ttft + wrap64 (DelayMS f * ms)) else ttft)"

definition tokens_of :: "mock_options \<Rightarrow> mock_req \<Rightarrow> int" where
  "tokens_of os q = (if mr_max_tokens q > 0 then mr_max_tokens q else Tokens os)"

text \<open>The sleeps of one request, in order, when nobody leaves.\<close>

definition chat_delays :: "mock_options \<Rightarrow> fault \<Rightarrow> bool \<Rightarrow> int \<Rightarrow> mock_req \<Rightarrow> int list" where
  "chat_delays os f warm infl q =
     scale os infl (ttft_of os f warm) #
     (let tpot = scale os infl (TPOT os)
      in if mr_stream q then replicate (nat (tokens_of os q)) tpot else [wrap64 (tokens_of os q * tpot)])"

definition token_event :: "nat \<Rightarrow> string" where
  "token_event i =
     (let q = [CHR 0x22]
      in ''data: {'' @ q @ ''choices'' @ q @ '':[{'' @ q @ ''index'' @ q @ '':0,'' @ q @ ''delta'' @ q @ '':{'' @ q @ ''content'' @ q @ '':'' @ q @ ''tok'' @ show_nat i
         @ '' '' @ q @ ''}}]}'' @ [CHR 0x0A, CHR 0x0A])"

definition done_event :: string where
  "done_event = ''data: [DONE]'' @ [CHR 0x0A, CHR 0x0A]"

text \<open>The loop over the tokens: what is written, and how the body ends. Sleep \<open>i + 1\<close> follows token \<open>i\<close>.\<close>

function stream_loop :: "fault \<Rightarrow> (nat \<Rightarrow> bool) \<Rightarrow> nat \<Rightarrow> nat \<Rightarrow> string list \<times> read_end" where
  "stream_loop f stays n i =
     (if i < n
      then if Mode f = ''midstream'' \<and> int i = AfterTokens f then ([], ReadErr)
           else if \<not> stays (Suc i) then ([token_event i], EOF)
           else (let (ws, e) = stream_loop f stays n (Suc i) in (token_event i # ws, e))
      else ([done_event], EOF))"
  by pat_completeness auto
termination by (relation "measure (\<lambda>(f, stays, n, i). n - i)") auto

declare stream_loop.simps [simp del]

definition plain_json :: "nat \<Rightarrow> string" where
  "plain_json n =
     (let q = [CHR 0x22]
      in ''{'' @ q @ ''id'' @ q @ '':'' @ q @ ''mock'' @ q @ '','' @ q @ ''object'' @ q @ '':'' @ q @ ''chat.completion'' @ q @ '','' @ q @ ''model'' @ q @ '':'' @ q @ ''mock'' @ q
         @ '','' @ q @ ''choices'' @ q @ '':[{'' @ q @ ''index'' @ q @ '':0,'' @ q @ ''message'' @ q @ '':{'' @ q @ ''role'' @ q @ '':'' @ q @ ''assistant'' @ q @ '','' @ q @ ''content'' @ q
         @ '':'' @ q @ concat (replicate n ''tok '') @ q @ ''},'' @ q @ ''finish_reason'' @ q @ '':'' @ q @ ''stop'' @ q @ ''}],'' @ q @ ''usage'' @ q @ '':{'' @ q @ ''completion_tokens'' @ q
         @ '':'' @ show_nat n @ ''}}'')"

text \<open>From the first sleep on. A client that left during it gets an empty answer nobody reads.\<close>

definition chat_body :: "mock_options \<Rightarrow> fault \<Rightarrow> (nat \<Rightarrow> bool) \<Rightarrow> mock_req \<Rightarrow> answer" where
  "chat_body os f stays q =
     (let n = nat (tokens_of os q)
      in if \<not> stays 0 then Answer 200 [] [] EOF
         else if \<not> mr_stream q
         then (if \<not> stays 1 then Answer 200 [] [] EOF else Answer 200 ''application/json'' [plain_json n] EOF)
         else (let (ws, e) = stream_loop f stays n 0 in Answer 200 ''text/event-stream'' ws e))"

text \<open>The whole handler for one request that runs alone.\<close>

definition chat :: "(nat \<Rightarrow> bool) \<Rightarrow> mock_req option \<Rightarrow> worker \<Rightarrow> answer \<times> worker" where
  "chat stays req w =
     (let f = wfault w
      in case chat_reject f req of
           Some a \<Rightarrow> (a, w)
         | None \<Rightarrow>
             (let q = the req;
                  (warm, w1) = touch (prefix_key [] (mr_messages q)) w;
                  (infl, w2) = chat_enter warm w1
              in (chat_body (wopts w2) f stays q, chat_leave w2)))"


subsection \<open>Lemmas: the cache\<close>

lemma evict_old_eq:
  assumes "distinct l" "0 \<le> sz"
  shows "evict_old sz l c = (take (nat sz) l, c - set (drop (nat sz) l))"
  using assms(1)
proof (induction l arbitrary: c rule: rev_induct)
  case (snoc x l)
  show ?case
  proof (cases "int (length (l @ [x])) > sz")
    case True
    then have n: "nat sz \<le> length l" using assms(2) by simp
    have "evict_old sz (l @ [x]) c = evict_old sz l (c - {x})"
      using True by (subst evict_old.simps) simp
    also have "\<dots> = (take (nat sz) l, c - {x} - set (drop (nat sz) l))" using snoc by simp
    finally show ?thesis using n by auto
  qed (simp add: evict_old.simps)
qed (use assms(2) in \<open>simp add: evict_old.simps\<close>)

definition cache_ok :: "worker \<Rightarrow> bool" where
  "cache_ok w \<longleftrightarrow> distinct (lru w) \<and> cached w = set (lru w) \<and> int (length (lru w)) \<le> CacheSize (wopts w) \<and> 1 \<le> CacheSize (wopts w)"

lemma defaults_positive [simp]: "1 \<le> CacheSize (mock_defaults os)" "1 \<le> Tokens (mock_defaults os)" "1 \<le> Capacity (mock_defaults os)"
  by (simp_all add: mock_defaults_def Let_def)

lemma cache_ok_new [simp]: "cache_ok (new_worker os)"
  using order_trans [OF zero_le_one defaults_positive(1), of os] by (simp add: cache_ok_def new_worker_def)

text \<open>Under the invariant, one touch moves the key to the front and cuts the list at its size.\<close>

lemma touch_eq:
  assumes "cache_ok w"
  shows "touch key w =
    (key \<in> set (lru w), w\<lparr>lru := take (nat (CacheSize (wopts w))) (key # removeAll key (lru w)),
       cached := set (take (nat (CacheSize (wopts w))) (key # removeAll key (lru w)))\<rparr>)"
proof -
  let ?n = "nat (CacheSize (wopts w))"
  have d: "distinct (lru w)" and c: "cached w = set (lru w)" and l: "length (lru w) \<le> ?n" and p: "0 \<le> CacheSize (wopts w)"
    using assms by (auto simp: cache_ok_def)
  show ?thesis
  proof (cases "key \<in> set (lru w)")
    case True
    then have "length (remove1 key (lru w)) < ?n" using l by (simp add: length_remove1 Suc_le_eq [symmetric])
      (metis Suc_pred length_pos_if_in_set)
    then have "take ?n (key # remove1 key (lru w)) = key # remove1 key (lru w)" by simp
    then show ?thesis using True c d
      by (simp add: touch_def distinct_remove1_removeAll) (intro worker.equality; simp add: insert_absorb)
  next
    case False
    then have r: "removeAll key (lru w) = lru w" by simp
    have e: "evict_old (CacheSize (wopts w)) (key # lru w) (insert key (cached w)) = (take ?n (key # lru w), insert key (cached w) - set (drop ?n (key # lru w)))"
      using False d p by (intro evict_old_eq) simp_all
    have "insert key (cached w) - set (drop ?n (key # lru w)) = set (take ?n (key # lru w))"
    proof -
      have "set (key # lru w) = set (take ?n (key # lru w)) \<union> set (drop ?n (key # lru w))" by (metis append_take_drop_id set_append)
      moreover have "set (take ?n (key # lru w)) \<inter> set (drop ?n (key # lru w)) = {}"
        using False d by (intro set_take_disj_set_drop_if_distinct) simp_all
      ultimately show ?thesis using c by auto
    qed
    with e False c show ?thesis unfolding touch_def r by simp
  qed
qed

lemma touch_cache_ok: "cache_ok w \<Longrightarrow> cache_ok (snd (touch key w))"
  by (auto simp: touch_eq) (auto simp: cache_ok_def distinct_removeAll intro: distinct_take)


lemma touch_frame: "wopts (snd (touch key w)) = wopts w" "wfault (snd (touch key w)) = wfault w" "winflight (snd (touch key w)) = winflight w"
  "wrequests (snd (touch key w)) = wrequests w" "wwarm (snd (touch key w)) = wwarm w"
  by (simp_all add: touch_def split: prod.splits)

text \<open>The keys of a history, the most recently used first, each once.\<close>

definition recency :: "string list \<Rightarrow> string list" where
  "recency ks = rev (remdups ks)"

lemma remdups_snoc: "remdups (ks @ [k]) = removeAll k (remdups ks) @ [k]"
  by (induction ks) auto

lemma recency_snoc: "recency (ks @ [k]) = k # removeAll k (recency ks)"
  by (simp add: recency_def remdups_snoc removeAll_filter_not_eq rev_filter)

lemma take_removeAll: "distinct xs \<Longrightarrow> take n (k # removeAll k (take n xs)) = take n (k # removeAll k xs)"
proof (cases n)
  case (Suc m)
  assume d: "distinct xs"
  have "take m (removeAll k (take (Suc m) xs)) = take m (removeAll k xs)"
    using d
  proof (induction xs arbitrary: m)
    case (Cons x xs)
    show ?case
    proof (cases "x = k")
      case True
      with Cons.prems have "k \<notin> set xs" "k \<notin> set (take m xs)" by (auto dest: in_set_takeD)
      then have "removeAll k xs = xs" "removeAll k (take m xs) = take m xs" by simp_all
      with True show ?thesis by simp
    next
      case False
      with Cons show ?thesis by (cases m) simp_all
    qed
  qed simp
  with Suc show ?thesis by simp
qed simp

lemma touch_history:
  "let w = fold (\<lambda>k w. snd (touch k w)) ks (new_worker os)
   in cache_ok w \<and> wopts w = mock_defaults os \<and> lru w = take (nat (CacheSize (mock_defaults os))) (recency ks)"
proof (induction ks rule: rev_induct)
  case Nil
  then show ?case by (simp add: recency_def new_worker_def Let_def) (simp add: new_worker_def [symmetric])
next
  case (snoc k ks)
  define w where "w = fold (\<lambda>k w. snd (touch k w)) ks (new_worker os)"
  have w: "cache_ok w" "wopts w = mock_defaults os" "lru w = take (nat (CacheSize (mock_defaults os))) (recency ks)"
    using snoc by (simp_all add: w_def Let_def)
  have "distinct (recency ks)" by (simp add: recency_def)
  then have "lru (snd (touch k w)) = take (nat (CacheSize (mock_defaults os))) (recency (ks @ [k]))"
    using w by (simp add: touch_eq recency_snoc take_removeAll)
  then show ?case using touch_cache_ok [OF w(1)] w(2) by (simp add: w_def Let_def touch_frame)
qed

subsection \<open>Requests that overlap\<close>

text \<open>
  Several requests run at once; each takes the lock three times. A state is the worker, the requests that asked the cache and have not entered
  (with what the cache said), and the number of requests being served.
\<close>

type_synonym service = "worker \<times> bool list \<times> nat"

inductive wstep :: "service \<Rightarrow> service \<Rightarrow> bool" where
  ask: "touch key w = (warm, w') \<Longrightarrow> wstep (w, ps, n) (w', ps @ [warm], n)"
| enter: "chat_enter warm w = (k, w') \<Longrightarrow> wstep (w, us @ warm # vs, n) (w', us @ vs, Suc n)"
| leave: "wstep (w, ps, Suc n) (chat_leave w, ps, n)"
| inject: "admin_fault body w = (st, w') \<Longrightarrow> wstep (w, ps, n) (w', ps, n)"

inductive_cases wstepE: "wstep s s'"

fun winit :: "service \<Rightarrow> bool" where
  "winit (w, ps, n) \<longleftrightarrow> (\<exists>os. w = new_worker os) \<and> ps = [] \<and> n = 0"

fun winv :: "service \<Rightarrow> bool" where
  "winv (w, ps, n) \<longleftrightarrow> cache_ok w \<and> winflight w = int n \<and> 0 \<le> wwarm w \<and> wwarm w \<le> wrequests w \<and> int n \<le> wrequests w"

interpretation service: machine winit wstep winv
proof unfold_locales
  fix s :: service
  assume "winit s"
  then show "winv s" by (cases s) (auto, auto simp: new_worker_def)
next
  fix s s' :: service
  assume i: "winv s" and "wstep s s'"
  from this(2) i show "winv s'"
  proof (induction rule: wstep.induct)
    case (ask key w warm w' ps n)
    then have "w' = snd (touch key w)" by simp
    with ask show ?case by (simp add: touch_frame touch_cache_ok)
  next
    case (enter warm w k w' us vs n)
    then show ?case by (auto simp: chat_enter_def Let_def cache_ok_def)
  next
    case (leave w ps n)
    then show ?case by (auto simp: chat_leave_def cache_ok_def)
  next
    case (inject body w st w' ps n)
    then show ?case by (auto simp: admin_fault_def SetFault_def cache_ok_def split: option.splits)
  qed
qed


subsection \<open>Lemmas: the stream\<close>

lemma stream_loop_done:
  assumes "\<forall>k. stays k" "\<not> (Mode f = ''midstream'' \<and> int i \<le> AfterTokens f \<and> AfterTokens f < int n)" "i \<le> n"
  shows "stream_loop f stays n i = (map token_event [i..<n] @ [done_event], EOF)"
  using assms(2,3)
proof (induction "n - i" arbitrary: i)
  case 0
  then show ?case by (simp add: stream_loop.simps)
next
  case (Suc k)
  then have "i < n" by simp
  moreover have "stream_loop f stays n (Suc i) = (map token_event [Suc i..<n] @ [done_event], EOF)"
    using Suc by (intro Suc.hyps(1)) auto
  ultimately show ?case
    using Suc.prems assms(1) by (subst stream_loop.simps) (auto simp: upt_conv_Cons)
qed

lemma stream_loop_cut:
  assumes "\<forall>k. stays k" "Mode f = ''midstream''" "int i \<le> AfterTokens f" "AfterTokens f < int n"
  shows "stream_loop f stays n i = (map token_event [i..<nat (AfterTokens f)], ReadErr)"
  using assms(3)
proof (induction "nat (AfterTokens f) - i" arbitrary: i)
  case 0
  then have "int i = AfterTokens f" by simp
  then show ?case using assms by (subst stream_loop.simps) auto
next
  case (Suc k)
  then have i: "int i < AfterTokens f" "i < n" using assms(4) by auto
  then have "stream_loop f stays n (Suc i) = (map token_event [Suc i..<nat (AfterTokens f)], ReadErr)"
    using Suc by (intro Suc.hyps(1)) auto
  then show ?case using i assms(1) by (subst stream_loop.simps) (auto simp: upt_conv_Cons)
qed

lemma chat_body_stream:
  assumes "\<forall>k. stays k" "mr_stream q"
  shows "chat_body os f stays q =
    (let n = nat (tokens_of os q)
     in if Mode f = ''midstream'' \<and> 0 \<le> AfterTokens f \<and> AfterTokens f < int n
        then Answer 200 ''text/event-stream'' (map token_event [0..<nat (AfterTokens f)]) ReadErr
        else Answer 200 ''text/event-stream'' (map token_event [0..<n] @ [done_event]) EOF)"
  using assms stream_loop_cut [of stays f 0 "nat (tokens_of os q)"] stream_loop_done [of stays f 0 "nat (tokens_of os q)"]
  by (auto simp: chat_body_def Let_def)

lemma scale_mono: "0 \<le> d \<Longrightarrow> 1 \<le> Capacity os \<Longrightarrow> k \<le> k' \<Longrightarrow> scale os k d \<le> scale os k' d"
proof -
  assume h: "0 \<le> d" "1 \<le> Capacity os" "k \<le> k'"
  have "real_of_int d * max 1 (real_of_int k / real_of_int (Capacity os)) \<le> real_of_int d * max 1 (real_of_int k' / real_of_int (Capacity os))"
    using h by (intro mult_left_mono max.mono divide_right_mono) simp_all
  moreover have "\<not> real_of_int d * max 1 (real_of_int j / real_of_int (Capacity os)) < 0" for j using h by (simp add: not_less)
  ultimately show ?thesis by (simp only: scale_def Let_def if_False floor_mono)
qed

lemma scale_full_speed: "0 \<le> d \<Longrightarrow> 1 \<le> Capacity os \<Longrightarrow> k \<le> Capacity os \<Longrightarrow> scale os k d = d"
  by (simp add: scale_def max_def divide_le_eq)

lemma prefix_key_system: "\<exists>m \<in> set msgs. fst m = ''system'' \<Longrightarrow> prefix_key sb msgs = system_content msgs"
  by (induction sb msgs rule: prefix_key.induct) (fastforce simp: system_content_def)+

subsection \<open>Properties\<close>

text \<open>C23. The simulated prefix cache is an exact LRU cache: after any history of keys on a new worker, it holds the last \<^verbatim>\<open>CacheSize\<close> distinct keys,
most recently used first, the map and the list agree, and the next key is a hit exactly when it is one of them.\<close>

theorem worker_cache_is_lru:
  "let w = fold (\<lambda>k w. snd (touch k w)) ks (new_worker os); n = nat (CacheSize (mock_defaults os))
   in lru w = take n (rev (remdups ks)) \<and> cached w = set (lru w) \<and> (fst (touch k w) \<longleftrightarrow> k \<in> set (take n (rev (remdups ks))))"
  using touch_history [of ks os] by (simp add: Let_def recency_def touch_eq) (simp add: cache_ok_def)



text \<open>Prefix affinity and the workers' caches agree on what a prefix is: for two requests that carry a system message, the same cache key on a worker
means the same routing key at the gateway, whatever else the requests contain.\<close>

theorem affinity_matches_cache:
  assumes "\<exists>m \<in> set msgs. fst m = ''system''" "\<exists>m \<in> set msgs'. fst m = ''system''" "prefix_key [] msgs = prefix_key [] msgs'"
  shows "computePrefixHash sha (system_content msgs) = computePrefixHash sha (system_content msgs')"
  using assms by (simp add: prefix_key_system)

theorem affinity_matches_cache_witness:
  "computePrefixHash rev (system_content [(''system'', ''a''), (''user'', ''x'')]) = computePrefixHash rev (system_content [(''user'', ''y''), (''system'', ''a'')])"
  by (rule affinity_matches_cache) simp_all

text \<open>The contention model: up to \<^verbatim>\<open>Capacity\<close> requests are served at full speed, and more requests never make one faster.\<close>

theorem contention_monotone:
  assumes "0 \<le> d" "1 \<le> Capacity os" "k \<le> k'"
  shows "scale os k d \<le> scale os k' d \<and> (k' \<le> Capacity os \<longrightarrow> scale os k d = d)"
  using assms scale_mono [OF assms] scale_full_speed [OF assms(1,2), of k] by auto

end
