(* ===== verification/Load_Gen.thy ===== *)
theory Load_Gen
  imports Py_Base RG_Prelude "HOL-Library.AList"
begin

section \<open>The load generator (gateway-go/cmd/loadgen, gateway-go/internal/stats)\<close>

text \<open>
  Models package \<^verbatim>\<open>stats\<close> and the load generator: one request with the reading of its stream, the summary over all requests, and the two files it
  writes. The answer to a request is an argument, with the time in milliseconds at which each line was read; the records come in the order in
  which the clients appended them, and records with the same start keep that order. Only ASCII white space is trimmed. The output directory is
  taken to be writable (the generator exits when it is not). Formatting a float is the argument \<open>fmt\<close> (digits, value).
\<close>

subsection \<open>Statistics\<close>

definition percentile_rank :: "real \<Rightarrow> nat \<Rightarrow> nat" where
  "percentile_rank p n = nat (max 0 (min (int n - 1) (\<lceil>p / 100 * real n\<rceil> - 1)))"

definition Percentile :: "real list \<Rightarrow> real \<Rightarrow> real" where
  "Percentile xs p = (if length xs = 0 then 0 else xs ! percentile_rank p (length xs))"

record lat_summary =
  Count :: nat
  Mean :: real
  P50 :: real
  P95 :: real
  P99 :: real
  MaxVal :: real

definition Summarize :: "real list \<Rightarrow> lat_summary" where
  "Summarize vals =
     (if vals = [] then \<lparr>Count = 0, Mean = 0, P50 = 0, P95 = 0, P99 = 0, MaxVal = 0\<rparr>
      else (let s = sort vals
            in \<lparr>Count = length s, Mean = sum_list s / real (length s), P50 = Percentile s 50, P95 = Percentile s 95,
                P99 = Percentile s 99, MaxVal = s ! (length s - 1)\<rparr>))"

subsection \<open>One request\<close>

record lg_record =
  r_tS :: real
  r_latMS :: real
  r_ttftMS :: real
  r_status :: int
  r_ok :: bool
  r_attempts :: string
  r_backend :: string
  r_errMsg :: string

definition systemPrompt :: "int \<Rightarrow> string" where
  "systemPrompt i = ''You are assistant persona #'' @ show_int i @ '' for department '' @ show_int i
     @ ''. Answer concisely and follow the house style guide. '' @ concat (replicate 12 ''Context line. '')"

definition shorten :: "string \<Rightarrow> string" where
  "shorten s = take 80 (map (\<lambda>c. if c = CHR 0x0A then CHR '' '' else c) s)"

text \<open>A body: the lines that ended with a line feed and when they were read, then what came last and the error that ended the reading, if it was
  not the end of the body.\<close>

record lg_body =
  body_lines :: "(string \<times> real) list"
  tail_text :: string
  tail_ms :: real
  tail_err :: "string option"

datatype lg_answer = Refused string | Got int string string lg_body

definition go_isspace :: "char \<Rightarrow> bool" where
  "go_isspace c = (of_char c \<in> {9, 10, 11, 12, 13, 32 :: nat})"

definition TrimSpace :: "string \<Rightarrow> string" where
  "TrimSpace s = rev (dropWhile go_isspace (rev (dropWhile go_isspace s)))"

definition error_key :: string where
  "error_key = [CHR 0x22] @ ''error'' @ [CHR 0x22]"

record seen =
  sawToken :: bool
  sawDone :: bool
  sawErr :: bool
  seen_ttft :: real

definition see_line :: "string \<times> real \<Rightarrow> seen \<Rightarrow> seen" where
  "see_line lt s =
     (let line = TrimSpace (fst lt)
      in if startswith line ''data: [DONE]'' then s\<lparr>sawDone := True\<rparr>
         else if contains error_key line then s\<lparr>sawErr := True\<rparr>
         else if startswith line ''data:'' then (if sawToken s then s else s\<lparr>sawToken := True, seen_ttft := snd lt\<rparr>)
         else s)"

definition read_body :: "lg_body \<Rightarrow> seen" where
  "read_body b = fold see_line (body_lines b @ [(tail_text b, tail_ms b)]) \<lparr>sawToken = False, sawDone = False, sawErr = False, seen_ttft = 0\<rparr>"

text \<open>\<^verbatim>\<open>ReadString\<close> until the body ends: the lines with their line feeds, and what comes last.\<close>

primrec read_lines :: "string \<Rightarrow> string list \<times> string" where
  "read_lines [] = ([], [])"
| "read_lines (c # s) =
     (let (ls, t) = read_lines s
      in if c = CHR 0x0A then ([c] # ls, t)
         else case ls of [] \<Rightarrow> ([], c # t) | l # ls' \<Rightarrow> ((c # l) # ls', t))"

text \<open>The body that consists of the bytes \<open>s\<close>; the \<open>i\<close>-th piece is read at \<open>tm i\<close>.\<close>

definition body_of :: "(nat \<Rightarrow> real) \<Rightarrow> string option \<Rightarrow> string \<Rightarrow> lg_body" where
  "body_of tm err s =
     (let (ls, t) = read_lines s
      in \<lparr>body_lines = zip ls (map tm [0..<length ls]), tail_text = t, tail_ms = tm (length ls), tail_err = err\<rparr>)"

text \<open>What the generator sends for one persona: the fields of the JSON body, in order.\<close>

definition lg_request :: "int \<Rightarrow> string \<Rightarrow> (string \<times> json) list" where
  "lg_request maxTokens system =
     [(''model'', JStr ''default''), (''stream'', JBool True), (''max_tokens'', JInt maxTokens),
      (''messages'', JArr [JObj [(''role'', JStr ''system''), (''content'', JStr system)],
                          JObj [(''role'', JStr ''user''), (''content'', JStr ''Summarise the plan.'')]])]"

definition oneRequest :: "real \<Rightarrow> real \<Rightarrow> lg_answer \<Rightarrow> lg_record" where
  "oneRequest tS latMS answer =
     (let rec = \<lparr>r_tS = tS, r_latMS = latMS, r_ttftMS = 0, r_status = 0, r_ok = False, r_attempts = [], r_backend = [], r_errMsg = []\<rparr>
      in case answer of
           Refused e \<Rightarrow> rec\<lparr>r_errMsg := shorten e\<rparr>
         | Got st attempts backend body \<Rightarrow>
             (let rec = rec\<lparr>r_status := st, r_attempts := attempts, r_backend := backend\<rparr>
              in if st \<noteq> 200 then rec\<lparr>r_errMsg := ''http '' @ show_int st\<rparr>
                 else (let s = read_body body;
                           err = (case tail_err body of None \<Rightarrow> [] | Some e \<Rightarrow> shorten e);
                           okay = (sawToken s \<and> sawDone s \<and> \<not> sawErr s)
                       in rec\<lparr>r_ttftMS := seen_ttft s, r_ok := okay,
                              r_errMsg := (if \<not> okay \<and> err = []
                                then (if sawErr s then ''stream error event''
                                      else if \<not> sawDone s then ''stream ended without [DONE]''
                                      else ''no tokens'')
                                else err)\<rparr>)))"

subsection \<open>The clients\<close>

text \<open>One iteration of a client: the clock reading of its loop condition, and the request it then makes (start, latency, answer).\<close>

type_synonym iteration = "real \<times> real \<times> real \<times> lg_answer"

fun client_loop :: "real \<Rightarrow> iteration list \<Rightarrow> lg_record list" where
  "client_loop deadline [] = []"
| "client_loop deadline ((now, tS, latMS, answer) # its) =
     (if now < deadline then oneRequest tS latMS answer # client_loop deadline its else [])"

text \<open>The clients append to one list, one record at a time under a lock: any interleaving of their records.\<close>

inductive appended :: "lg_record list list \<Rightarrow> lg_record list \<Rightarrow> bool" where
  finished: "(\<And>c. c \<in> set css \<Longrightarrow> c = []) \<Longrightarrow> appended css []"
| append_one: "appended (us @ c # vs) recs \<Longrightarrow> appended (us @ (r # c) # vs) (r # recs)"

subsection \<open>The summary\<close>

record lg_opts =
  lg_label :: string
  lg_url :: string
  lg_clients :: int
  lg_prefixes :: int
  lg_max_tokens :: int

record lg_tally =
  status_counts :: "(string \<times> nat) list"
  retried :: nat
  ok_count :: nat
  lats :: "real list"
  ttfts :: "real list"

definition tally_rec :: "lg_record \<Rightarrow> lg_tally \<Rightarrow> lg_tally" where
  "tally_rec r c =
     (let k = show_int (r_status r);
          c = c\<lparr>status_counts := AList.update k (Suc (case map_of (status_counts c) k of None \<Rightarrow> 0 | Some n \<Rightarrow> n)) (status_counts c)\<rparr>;
          c = (if r_attempts r \<noteq> [] \<and> r_attempts r \<noteq> ''1'' then c\<lparr>retried := Suc (retried c)\<rparr> else c)
      in if r_ok r then c\<lparr>ok_count := Suc (ok_count c), lats := lats c @ [r_latMS r], ttfts := ttfts c @ [r_ttftMS r]\<rparr> else c)"

record lg_summary =
  sum_duration :: real
  sum_total :: nat
  sum_ok :: nat
  sum_failed :: int
  sum_rate :: real
  sum_retried :: nat
  sum_rps :: real
  sum_lat :: lat_summary
  sum_ttft :: lat_summary
  sum_status :: "(string \<times> nat) list"

definition lg_summarize :: "real \<Rightarrow> lg_record list \<Rightarrow> lg_summary" where
  "lg_summarize elapsed recs =
     (let c = fold tally_rec (sort_key r_tS recs) \<lparr>status_counts = [], retried = 0, ok_count = 0, lats = [], ttfts = []\<rparr>;
          tot = length recs
      in \<lparr>sum_duration = elapsed, sum_total = tot, sum_ok = ok_count c, sum_failed = int tot - int (ok_count c),
          sum_rate = (if tot > 0 then real (ok_count c) / real tot else 0), sum_retried = retried c, sum_rps = real tot / elapsed,
          sum_lat = Summarize (lats c), sum_ttft = Summarize (ttfts c), sum_status = status_counts c\<rparr>)"

subsection \<open>The files\<close>

definition csv_header :: "string list" where
  "csv_header = [''t_s'', ''latency_ms'', ''ttft_ms'', ''status'', ''ok'', ''attempts'', ''backend'', ''error'']"

definition csv_row :: "(nat \<Rightarrow> real \<Rightarrow> string) \<Rightarrow> lg_record \<Rightarrow> string list" where
  "csv_row fmt r =
     [fmt 3 (r_tS r), fmt 1 (r_latMS r), fmt 1 (r_ttftMS r), show_int (r_status r), (if r_ok r then ''true'' else ''false''),
      r_attempts r, r_backend r, r_errMsg r]"

definition lat_json :: "lat_summary \<Rightarrow> json" where
  "lat_json s = JObj [(''count'', JInt (int (Count s))), (''mean'', JFloat (Mean s)), (''p50'', JFloat (P50 s)), (''p95'', JFloat (P95 s)),
     (''p99'', JFloat (P99 s)), (''max'', JFloat (MaxVal s))]"

definition summary_json :: "lg_opts \<Rightarrow> lg_summary \<Rightarrow> json" where
  "summary_json os s =
     JObj [(''label'', JStr (lg_label os)), (''url'', JStr (lg_url os)), (''clients'', JInt (lg_clients os)), (''prefixes'', JInt (lg_prefixes os)),
       (''max_tokens'', JInt (lg_max_tokens os)), (''duration_s'', JFloat (sum_duration s)), (''total'', JInt (int (sum_total s))),
       (''ok'', JInt (int (sum_ok s))), (''failed'', JInt (sum_failed s)), (''success_rate'', JFloat (sum_rate s)),
       (''retried_requests'', JInt (int (sum_retried s))), (''requests_per_second'', JFloat (sum_rps s)),
       (''latency_ms_ok_only'', lat_json (sum_lat s)), (''ttft_ms_ok_only'', lat_json (sum_ttft s)),
       (''status_counts'', JObj (map (\<lambda>(k, n). (k, JInt (int n))) (sum_status s)))]"

text \<open>\<^verbatim>\<open>summary.json\<close> and the lines of \<^verbatim>\<open>requests.csv\<close>; with no output directory nothing is written.\<close>

definition lg_files :: "(nat \<Rightarrow> real \<Rightarrow> string) \<Rightarrow> string \<Rightarrow> lg_opts \<Rightarrow> real \<Rightarrow> lg_record list \<Rightarrow> (json \<times> string list list) option" where
  "lg_files fmt out os elapsed recs =
     (if out = [] then None
      else Some (summary_json os (lg_summarize elapsed recs), csv_header # map (csv_row fmt) (sort_key r_tS recs)))"


subsection \<open>Lemmas: statistics\<close>

lemma percentile_rank_less: "0 < n \<Longrightarrow> percentile_rank p n < n"
  by (simp add: percentile_rank_def)

interpretation percentile: rank_statistic "percentile_rank p" for p
  by unfold_locales (rule percentile_rank_less)

lemma percentile_rank_exact:
  assumes "0 < p" "p \<le> 100" "0 < n"
  shows "int (percentile_rank p n) = \<lceil>p / 100 * real n\<rceil> - 1"
proof -
  have "0 < p / 100 * real n" using assms by simp
  then have "1 \<le> \<lceil>p / 100 * real n\<rceil>" by linarith
  moreover have "p / 100 * real n \<le> real n" using assms by (simp add: mult_left_le_one_le)
  then have "\<lceil>p / 100 * real n\<rceil> \<le> int n" by (simp add: ceiling_le_iff)
  ultimately show ?thesis by (simp add: percentile_rank_def)
qed

lemma percentile_rank_mono: "p \<le> q \<Longrightarrow> percentile_rank p n \<le> percentile_rank q n"
  unfolding percentile_rank_def
  by (intro nat_mono max.mono min.mono order_refl diff_right_mono ceiling_mono mult_right_mono divide_right_mono) simp_all

lemma Percentile_mono: "p \<le> q \<Longrightarrow> Percentile (sort xs) p \<le> Percentile (sort xs) q"
  by (cases "xs = []")
    (auto simp: Percentile_def intro!: sorted_nth_mono [OF sorted_sort] percentile_rank_mono percentile.rank_less)

lemma Summarize_perm: "mset xs = mset ys \<Longrightarrow> Summarize xs = Summarize ys"
proof -
  assume m: "mset xs = mset ys"
  then have "sort xs = sort ys" by (rule sort_mset_eq)
  moreover from m have "xs = [] \<longleftrightarrow> ys = []" by (metis mset_zero_iff)
  ultimately show ?thesis by (simp add: Summarize_def)
qed

subsection \<open>Lemmas: the tally\<close>

definition lookup0 :: "(string \<times> nat) list \<Rightarrow> string \<Rightarrow> nat" where
  "lookup0 al k = (case map_of al k of None \<Rightarrow> 0 | Some n \<Rightarrow> n)"

lemma tally_rec_fields:
  "retried (tally_rec r c) = retried c + (if r_attempts r \<noteq> [] \<and> r_attempts r \<noteq> ''1'' then 1 else 0)"
  "ok_count (tally_rec r c) = ok_count c + (if r_ok r then 1 else 0)"
  "lats (tally_rec r c) = lats c @ (if r_ok r then [r_latMS r] else [])"
  "ttfts (tally_rec r c) = ttfts c @ (if r_ok r then [r_ttftMS r] else [])"
  "lookup0 (status_counts (tally_rec r c)) k = lookup0 (status_counts c) k + (if show_int (r_status r) = k then 1 else 0)"
  by (simp_all add: tally_rec_def Let_def lookup0_def AList.update_conv')

lemma fold_tally:
  "retried (fold tally_rec rs c) = retried c + length (filter (\<lambda>r. r_attempts r \<noteq> [] \<and> r_attempts r \<noteq> ''1'') rs)"
  "ok_count (fold tally_rec rs c) = ok_count c + length (filter r_ok rs)"
  "lats (fold tally_rec rs c) = lats c @ map r_latMS (filter r_ok rs)"
  "ttfts (fold tally_rec rs c) = ttfts c @ map r_ttftMS (filter r_ok rs)"
  "lookup0 (status_counts (fold tally_rec rs c)) k = lookup0 (status_counts c) k + length (filter (\<lambda>r. show_int (r_status r) = k) rs)"
  by (induction rs arbitrary: c) (simp_all add: tally_rec_fields)

lemma filter_sort_length: "length (filter P (sort_key f xs)) = length (filter P xs)"
  by (metis mset_filter mset_sort size_mset)

lemma map_filter_sort_mset: "mset (map g (filter P (sort_key f xs))) = mset (map g (filter P xs))"
  by (simp add: mset_filter)

subsection \<open>Lemmas: reading a stream\<close>

definition done_line :: "string \<Rightarrow> bool" where
  "done_line l \<longleftrightarrow> startswith (TrimSpace l) ''data: [DONE]''"

definition error_line :: "string \<Rightarrow> bool" where
  "error_line l \<longleftrightarrow> \<not> done_line l \<and> contains error_key (TrimSpace l)"

definition token_line :: "string \<Rightarrow> bool" where
  "token_line l \<longleftrightarrow> \<not> done_line l \<and> \<not> error_line l \<and> startswith (TrimSpace l) ''data:''"

lemma see_line_flags:
  "sawDone (see_line lt s) = (sawDone s \<or> done_line (fst lt))" "sawErr (see_line lt s) = (sawErr s \<or> error_line (fst lt))"
  "sawToken (see_line lt s) = (sawToken s \<or> token_line (fst lt))"
  by (auto simp: see_line_def done_line_def error_line_def token_line_def Let_def)

lemma fold_see:
  "sawDone (fold see_line ls s) = (sawDone s \<or> (\<exists>l \<in> fst ` set ls. done_line l))"
  "sawErr (fold see_line ls s) = (sawErr s \<or> (\<exists>l \<in> fst ` set ls. error_line l))"
  "sawToken (fold see_line ls s) = (sawToken s \<or> (\<exists>l \<in> fst ` set ls. token_line l))"
  by (induction ls arbitrary: s) (auto simp: see_line_flags)

definition all_lines :: "lg_body \<Rightarrow> string list" where
  "all_lines b = map fst (body_lines b) @ [tail_text b]"

lemma read_body_flags:
  "sawDone (read_body b) \<longleftrightarrow> (\<exists>l \<in> set (all_lines b). done_line l)"
  "sawErr (read_body b) \<longleftrightarrow> (\<exists>l \<in> set (all_lines b). error_line l)"
  "sawToken (read_body b) \<longleftrightarrow> (\<exists>l \<in> set (all_lines b). token_line l)"
  by (auto simp: read_body_def all_lines_def fold_see see_line_flags)

lemma read_lines_line: "CHR 0x0A \<notin> set l \<Longrightarrow> read_lines (l @ CHR 0x0A # s) = ((l @ [CHR 0x0A]) # fst (read_lines s), snd (read_lines s))"
  by (induction l) (auto split: prod.splits)

lemma read_lines_tail: "CHR 0x0A \<notin> set t \<Longrightarrow> read_lines t = ([], t)"
  by (induction t) auto

lemma read_lines_append:
  "read_lines (s @ s') = (let (ls, t) = read_lines s; (ls', t') = read_lines s'
     in case ls' of [] \<Rightarrow> (ls, t @ t') | l # ls'' \<Rightarrow> (ls @ (t @ l) # ls'', t'))"
  by (induction s) (auto split: prod.splits list.splits)

lemma all_lines_body_of: "all_lines (body_of tm err s) = fst (read_lines s) @ [snd (read_lines s)]"
  by (simp add: all_lines_def body_of_def split: prod.splits)

lemma tail_err_body_of [simp]: "tail_err (body_of tm err s) = err"
  by (simp add: body_of_def split: prod.splits)

text \<open>White space around a marker does not matter.\<close>

lemma dropWhile_hd: "b \<noteq> [] \<Longrightarrow> \<not> P (hd b) \<Longrightarrow> \<exists>a'. dropWhile P (a @ b @ c) = a' @ b @ c"
proof (induction a)
  case Nil
  then show ?case by (cases b) auto
next
  case (Cons x a)
  then obtain a' where a': "dropWhile P (a @ b @ c) = a' @ b @ c" by blast
  show ?case
  proof (cases "P x")
    case True
    with a' show ?thesis by simp
  next
    case False
    then show ?thesis by (auto intro: exI [of _ "x # a"])
  qed
qed

lemma TrimSpace_keeps:
  assumes "b \<noteq> []" "\<not> go_isspace (hd b)" "\<not> go_isspace (last b)"
  shows "\<exists>a' c'. TrimSpace (a @ b @ c) = a' @ b @ c'"
proof -
  obtain a' where a': "dropWhile go_isspace (a @ b @ c) = a' @ b @ c" using dropWhile_hd [of b go_isspace a c] assms by blast
  have "rev b \<noteq> []" "\<not> go_isspace (hd (rev b))" using assms by (simp_all add: hd_rev)
  then obtain c' where "dropWhile go_isspace (rev c @ rev b @ rev a') = c' @ rev b @ rev a'"
    using dropWhile_hd [of "rev b" go_isspace "rev c" "rev a'"] by blast
  then have "TrimSpace (a @ b @ c) = a' @ b @ rev c'" by (simp add: TrimSpace_def a')
  then show ?thesis by blast
qed

lemma startswith_ex: "startswith s p \<longleftrightarrow> (\<exists>r. s = p @ r)"
proof
  assume "startswith s p"
  then have "p @ drop (length p) s = s" using append_take_drop_id [of "length p" s] by (simp add: startswith_def)
  then show "\<exists>r. s = p @ r" by (intro exI [of _ "drop (length p) s"]) simp
qed (auto simp: startswith_def)

lemma TrimSpace_prefix:
  assumes "p \<noteq> []" "\<not> go_isspace (last p)"
  shows "startswith (TrimSpace s) p \<longleftrightarrow> startswith (dropWhile go_isspace s) p"
proof -
  define t where "t = dropWhile go_isspace s"
  have split: "t = rev (dropWhile go_isspace (rev t)) @ rev (takeWhile go_isspace (rev t))"
    using arg_cong [OF takeWhile_dropWhile_id [of go_isspace "rev t"], of rev] unfolding rev_append rev_rev_ident by (rule sym)
  have "startswith (rev (dropWhile go_isspace (rev t))) p" if h: "startswith t p"
  proof -
    from h obtain r where r: "t = p @ r" by (auto simp: startswith_ex)
    have "rev p \<noteq> []" "\<not> go_isspace (hd (rev p))" using assms by (simp_all add: hd_rev)
    then obtain c' where "dropWhile go_isspace (rev r @ rev p @ []) = c' @ rev p @ []"
      using dropWhile_hd [of "rev p" go_isspace "rev r" "[]"] by blast
    then show ?thesis by (simp add: r startswith_def)
  qed
  moreover have "startswith t p" if h: "startswith (rev (dropWhile go_isspace (rev t))) p"
  proof -
    from h obtain r where "rev (dropWhile go_isspace (rev t)) = p @ r" by (auto simp: startswith_ex)
    then show ?thesis by (subst split) (simp add: startswith_def)
  qed
  ultimately show ?thesis by (auto simp: TrimSpace_def t_def)
qed

lemma done_line_iff: "done_line l \<longleftrightarrow> startswith (dropWhile go_isspace l) ''data: [DONE]''"
  unfolding done_line_def by (rule TrimSpace_prefix) (simp_all add: go_isspace_def)

lemma data_line_iff: "startswith (TrimSpace l) ''data:'' \<longleftrightarrow> startswith (dropWhile go_isspace l) ''data:''"
  by (rule TrimSpace_prefix) (simp_all add: go_isspace_def)

text \<open>A line to which an event was glued is a done mark only if it was one before.\<close>

lemma done_line_glued: "done_line (t @ ''data: {'' @ r) \<longleftrightarrow> done_line t"
proof (cases "\<forall>c \<in> set t. go_isspace c")
  case True
  then have "dropWhile go_isspace (t @ ''data: {'' @ r) = ''data: {'' @ r" "dropWhile go_isspace t = []"
    by (simp_all add: dropWhile_append) (simp add: go_isspace_def)
  then show ?thesis unfolding done_line_iff by (simp only: startswith_def) simp
next
  case False
  define q where "q = dropWhile go_isspace t"
  have q: "dropWhile go_isspace (t @ ''data: {'' @ r) = q @ ''data: {'' @ r" "q \<noteq> []"
    using False by (auto simp: q_def dropWhile_append)
  have "startswith (q @ ''data: {'' @ r) ''data: [DONE]'' \<longleftrightarrow> startswith q ''data: [DONE]''"
  proof (cases "length q < 12")
    case True
    then have "\<not> startswith (q @ ''data: {'' @ r) ''data: [DONE]''"
    proof (intro notI)
      assume "startswith (q @ ''data: {'' @ r) ''data: [DONE]''"
      then obtain x where x: "q @ ''data: {'' @ r = ''data: [DONE]'' @ x" by (auto simp only: startswith_ex)
      have "(q @ ''data: {'' @ r) ! length q = CHR ''d''" by simp
      moreover have "(''data: [DONE]'' @ x) ! length q = ''data: [DONE]'' ! length q" using True by (simp only: nth_append) simp
      moreover have "\<forall>k \<in> set [1..<12]. ''data: [DONE]'' ! k \<noteq> CHR ''d''" by code_simp
      then have "''data: [DONE]'' ! length q \<noteq> CHR ''d''" using True q(2) by (simp only: set_upt) (simp add: Suc_le_eq)
      ultimately show False unfolding x by simp
    qed
    moreover have "\<not> startswith q ''data: [DONE]''" using True by (auto simp: startswith_def dest: arg_cong [of _ _ length])
    ultimately show ?thesis by simp
  qed (simp add: startswith_def)
  with q show ?thesis by (simp add: done_line_iff q_def)
qed

subsection \<open>Properties\<close>

text \<open>\<^verbatim>\<open>Percentile\<close> is the nearest-rank percentile: for a sample and \<open>0 < p \<le> 100\<close> it is a value of the sample, at least \<open>p\<close> percent of the sample do
not exceed it, and it is the smallest such value.\<close>

theorem percentile_nearest_rank:
  assumes "xs \<noteq> []" "0 < p" "p \<le> 100"
  defines "v \<equiv> Percentile (sort xs) p"
  shows "v \<in> set xs \<and> p / 100 * real (length xs) \<le> real (length (filter (\<lambda>x. x \<le> v) xs))
    \<and> (\<forall>u < v. real (length (filter (\<lambda>x. x \<le> u) xs)) < p / 100 * real (length xs))"
proof -
  let ?r = "percentile_rank p (length xs)"
  have v: "v = sort xs ! ?r" using assms(1) by (simp add: v_def Percentile_def)
  have r: "int ?r = \<lceil>p / 100 * real (length xs)\<rceil> - 1" using assms by (intro percentile_rank_exact) simp_all
  have le: "Suc ?r \<le> length (filter (\<lambda>x. x \<le> v) xs)" using percentile.picked_count_le [OF assms(1)] v by simp
  have ge: "length xs - ?r \<le> length (filter (\<lambda>x. v \<le> x) xs)" using percentile.picked_count_ge [OF assms(1)] v by simp
  have "real (length (filter (\<lambda>x. x \<le> u) xs)) < p / 100 * real (length xs)" if "u < v" for u
  proof -
    have "length (filter (\<lambda>x. x \<le> u) xs) \<le> length (filter (\<lambda>x. \<not> v \<le> x) xs)"
      using that by (induction xs) auto
    also have "\<dots> \<le> ?r" using ge sum_length_filter_compl [of "\<lambda>x. v \<le> x" xs] by linarith
    finally show ?thesis using r by linarith
  qed
  moreover have "p / 100 * real (length xs) \<le> real (length (filter (\<lambda>x. x \<le> v) xs))" using le r by linarith
  ultimately show ?thesis using percentile.picked_in_sample [OF assms(1)] v by auto
qed

theorem percentile_nearest_rank_witness: "Percentile (sort [4, 1, 3, 2 :: real]) 50 \<in> {4, 1, 3, 2}"
  using percentile_nearest_rank [of "[4, 1, 3, 2]" 50] by simp

text \<open>The summary counts every request once and does not depend on the order in which the clients reported: the counters and the distributions are those of
the collection of records, the statuses add up, and the success rate lies between 0 and 1.\<close>

theorem lg_summary_exact:
  "let s = lg_summarize elapsed recs
   in sum_ok s = length (filter r_ok recs) \<and> sum_failed s = int (length (filter (\<lambda>r. \<not> r_ok r) recs))
      \<and> sum_retried s = length (filter (\<lambda>r. r_attempts r \<noteq> [] \<and> r_attempts r \<noteq> ''1'') recs)
      \<and> lookup0 (sum_status s) k = length (filter (\<lambda>r. show_int (r_status r) = k) recs)
      \<and> sum_lat s = Summarize (map r_latMS (filter r_ok recs)) \<and> sum_ttft s = Summarize (map r_ttftMS (filter r_ok recs))
      \<and> 0 \<le> sum_rate s \<and> sum_rate s \<le> 1"
proof -
  define c where "c = fold tally_rec (sort_key r_tS recs) \<lparr>status_counts = [], retried = 0, ok_count = 0, lats = [], ttfts = []\<rparr>"
  have ok: "ok_count c = length (filter r_ok recs)" and re: "retried c = length (filter (\<lambda>r. r_attempts r \<noteq> [] \<and> r_attempts r \<noteq> ''1'') recs)"
    and l: "lats c = map r_latMS (filter r_ok (sort_key r_tS recs))" "ttfts c = map r_ttftMS (filter r_ok (sort_key r_tS recs))"
    by (simp_all add: c_def fold_tally filter_sort_length)
  have st: "lookup0 (status_counts c) k = length (filter (\<lambda>r. show_int (r_status r) = k) recs)"
    by (simp add: c_def fold_tally filter_sort_length) (simp add: lookup0_def)
  have f: "length recs = length (filter r_ok recs) + length (filter (\<lambda>r. \<not> r_ok r) recs)" by (simp add: sum_length_filter_compl)
  have p: "Summarize (lats c) = Summarize (map r_latMS (filter r_ok recs))" "Summarize (ttfts c) = Summarize (map r_ttftMS (filter r_ok recs))"
    unfolding l by (intro Summarize_perm map_filter_sort_mset)+
  show ?thesis
    unfolding lg_summarize_def c_def [symmetric] Let_def using f by (simp add: ok re st p divide_le_eq)
qed

lemma appended_mset: "appended css recs \<Longrightarrow> mset recs = sum_list (map mset css)"
proof (induction rule: appended.induct)
  case (finished css)
  then show ?case by (induction css) auto
qed simp

text \<open>Everything the clients measured is in the summary, and how they interleaved is not: for every interleaving of the records of the clients' loops, the
total is the number of requests made before the deadline, and two interleavings of the same loops give the same counters and distributions.\<close>

theorem summary_of_clients:
  assumes "appended (map (client_loop deadline) cs) recs" "appended (map (client_loop deadline) cs) recs'"
  shows "sum_total (lg_summarize elapsed recs) = (\<Sum>c \<leftarrow> cs. length (client_loop deadline c))
    \<and> lg_summarize elapsed recs = (lg_summarize elapsed recs')\<lparr>sum_status := sum_status (lg_summarize elapsed recs)\<rparr>
    \<and> lookup0 (sum_status (lg_summarize elapsed recs)) = lookup0 (sum_status (lg_summarize elapsed recs'))"
proof -
  have m: "mset recs = mset recs'" and t: "mset recs = sum_list (map (mset \<circ> client_loop deadline) cs)"
    using appended_mset [OF assms(1)] appended_mset [OF assms(2)] by simp_all
  have n: "length (filter P recs) = length (filter P recs')" for P using m by (metis mset_filter size_mset)
  have l: "length recs = length recs'" using m by (rule mset_eq_length)
  have "size (sum_list (map (mset \<circ> client_loop deadline) xs)) = (\<Sum>c \<leftarrow> xs. length (client_loop deadline c))" for xs by (induction xs) auto
  with t have tot: "length recs = (\<Sum>c \<leftarrow> cs. length (client_loop deadline c))" by (metis size_mset)
  have p: "Summarize (map g (filter r_ok (sort_key r_tS recs))) = Summarize (map g (filter r_ok (sort_key r_tS recs')))" for g
    using m by (intro Summarize_perm) (simp add: mset_filter)
  show ?thesis
    by (intro conjI ext) (simp_all add: lg_summarize_def Let_def fold_tally filter_sort_length n l p tot [symmetric])
qed

text \<open>A request counts as successful exactly when its status was 200 and among the lines of its body there are a token and a \<^verbatim>\<open>[DONE]\<close> line and no
line with an error event; whatever the lines are and however the reading ended.\<close>

theorem loadgen_verdict:
  "r_ok (oneRequest tS lat answer) \<longleftrightarrow>
   (\<exists>attempts backend body. answer = Got 200 attempts backend body \<and> (\<exists>l. l \<in> set (all_lines body) \<and> token_line l)
      \<and> (\<exists>l. l \<in> set (all_lines body) \<and> done_line l) \<and> \<not> (\<exists>l. l \<in> set (all_lines body) \<and> error_line l))"
  by (cases answer) (auto simp: oneRequest_def Let_def read_body_flags)

end
