(* ===== verification/Plot.thy ===== *)
theory Plot
  imports Py_Regex
begin

section \<open>The data behind the benchmark plots (benchmarks/scripts/plot.py)\<close>

text \<open>
  Models what \<^verbatim>\<open>plot.py\<close> computes before it draws: the rows of a run, the fault window, the per-second series of the timeline
  figure with the gap note and the end markers, and the bars of the summary figure. The program is modelled with the files it
  finds and the figures it saves. NaN is \<open>None\<close>. The percentile of numpy,
  Python's \<^verbatim>\<open>float\<close> and the decoded files are arguments; the drawing itself (matplotlib) is not modelled.
\<close>

type_synonym row = "real \<times> real \<times> bool"

definition dict_get :: "(string \<times> string) list \<Rightarrow> string \<Rightarrow> string res" where
  "dict_get r k = of_opt KeyErr (map_of r k)"

fun load_rows :: "(string \<Rightarrow> real res) \<Rightarrow> (string \<times> string) list list \<Rightarrow> row list res" where
  "load_rows flt [] = Inr []"
| "load_rows flt (r # rs) =
     res_bind (dict_get r ''t_s'') (\<lambda>ts. res_bind (flt ts) (\<lambda>t.
     res_bind (dict_get r ''latency_ms'') (\<lambda>ls. res_bind (flt ls) (\<lambda>lat.
     res_bind (dict_get r ''ok'') (\<lambda>ok.
     res_bind (load_rows flt rs) (\<lambda>rows. Inr ((t, lat, ok = ''true'') # rows)))))))"

definition load :: "(string \<Rightarrow> real res) \<Rightarrow> (string \<times> string) list list res \<Rightarrow> json res \<Rightarrow> (row list \<times> json) res" where
  "load flt csv summary =
     res_bind csv (\<lambda>records. res_bind (load_rows flt records) (\<lambda>rows. res_bind summary (\<lambda>s. Inr (rows, s))))"

definition fault_re :: regex where
  "fault_re =
     Seq (lit ''fault at '') (Seq (Grp 1 (Plus py_isdigit))
       (Seq (lit ''s, recover at '') (Seq (Grp 2 (Plus py_isdigit)) (lit ''s''))))"

definition fault_window :: "string \<Rightarrow> (int \<times> int) option" where
  "fault_window env =
     (case re_search fault_re env of
        None \<Rightarrow> None
      | Some groups \<Rightarrow>
          (case (map_of groups 1, map_of groups 2) of
             (Some a, Some b) \<Rightarrow> (case (py_int a, py_int b) of (Some x, Some y) \<Rightarrow> Some (x, y) | _ \<Rightarrow> None)
           | _ \<Rightarrow> None))"

subsection \<open>The per-second series\<close>

definition bucket :: "row list \<Rightarrow> nat \<Rightarrow> (real \<times> bool) list" where
  "bucket rows s = map (\<lambda>(t, lat, ok). (lat, ok)) (filter (\<lambda>(t, lat, ok). real s \<le> t \<and> t < real s + 1) rows)"

definition succ_at :: "(real \<times> bool) list \<Rightarrow> real option" where
  "succ_at b = (if b = [] then None else Some (100 * real (length (filter snd b)) / real (length b)))"

definition p95_at :: "(real list \<Rightarrow> real \<Rightarrow> real) \<Rightarrow> (real \<times> bool) list \<Rightarrow> real option" where
  "p95_at np_percentile b =
     (let lats = map fst (filter snd b)
      in if b \<noteq> [] \<and> length lats \<ge> 5 then Some (np_percentile lats 95) else None)"

definition per_second :: "(real list \<Rightarrow> real \<Rightarrow> real) \<Rightarrow> row list \<Rightarrow> nat \<Rightarrow> real option list \<times> real option list" where
  "per_second np rows horizon =
     (map (\<lambda>s. succ_at (bucket rows s)) [0..<horizon], map (\<lambda>s. p95_at np (bucket rows s)) [0..<horizon])"

text \<open>The last index with a value, where the end marker is drawn.\<close>

definition last_valid :: "real option list \<Rightarrow> nat option" where
  "last_valid ys =
     (let valid = filter (\<lambda>k. ys ! k \<noteq> None) [0..<length ys] in if valid = [] then None else Some (last valid))"

record series =
  ser_mode :: string
  ser_succ :: "real option list"
  ser_p95 :: "real option list"
  ser_marks :: "nat option \<times> nat option"

definition series_of :: "(real list \<Rightarrow> real \<Rightarrow> real) \<Rightarrow> nat \<Rightarrow> string \<times> row list \<times> json \<Rightarrow> series" where
  "series_of np horizon d =
     (case d of (mode, rows, _) \<Rightarrow>
        let (sc, p95) = per_second np rows horizon
        in \<lparr>ser_mode = mode, ser_succ = sc, ser_p95 = p95, ser_marks = (last_valid sc, last_valid p95)\<rparr>)"

text \<open>\<^verbatim>\<open>int(min(s["duration_s"] for _, s in data.values()))\<close>, for durations that are numbers.\<close>

definition horizon_of :: "json \<Rightarrow> json \<Rightarrow> nat res" where
  "horizon_of s1 s2 =
     res_bind (py_item s1 ''duration_s'') (\<lambda>a. res_bind (json_num a) (\<lambda>x.
     res_bind (py_item s2 ''duration_s'') (\<lambda>b. res_bind (json_num b) (\<lambda>y. Inr (nat \<lfloor>min x y\<rfloor>)))))"

record timeline_fig =
  fig_x :: "real list"
  fig_series :: "series list"
  fig_band :: "(int \<times> int) option"
  fig_gap_note :: bool

definition timeline :: "(real list \<Rightarrow> real \<Rightarrow> real) \<Rightarrow> (row list \<times> json) res \<Rightarrow> (row list \<times> json) res \<Rightarrow> string \<Rightarrow> timeline_fig res" where
  "timeline np original upgraded env =
     res_bind original (\<lambda>(rows1, s1). res_bind upgraded (\<lambda>(rows2, s2).
     res_bind (horizon_of s1 s2) (\<lambda>horizon.
     let so = series_of np horizon (''original'', rows1, s1); su = series_of np horizon (''upgraded'', rows2, s2)
     in Inr \<lparr>fig_x = map (\<lambda>k. real k + 0.5) [0..<horizon], fig_series = [so, su], fig_band = fault_window env,
             fig_gap_note = (None \<in> set (ser_p95 so))\<rparr>)))"

subsection \<open>The summary figure\<close>

record bar_panel =
  bar_label :: string
  bar_vals :: "real list"
  bar_ylim :: "real \<times> real"

definition success_pct :: "json \<Rightarrow> real res" where
  "success_pct s = res_bind (py_item s ''success_rate'') (\<lambda>v. res_bind (json_num v) (\<lambda>x. Inr (100 * x)))"

definition p99_ok :: "json \<Rightarrow> real res" where
  "p99_ok s = res_bind (py_item s ''latency_ms_ok_only'') (\<lambda>l. res_bind (py_item l ''p99'') json_num)"

definition summary_panels :: "json \<Rightarrow> json \<Rightarrow> bar_panel list res" where
  "summary_panels original upgraded =
     res_bind (success_pct original) (\<lambda>s1. res_bind (success_pct upgraded) (\<lambda>s2.
     res_bind (p99_ok original) (\<lambda>l1. res_bind (p99_ok upgraded) (\<lambda>l2.
     Inr [\<lparr>bar_label = ''Requests that completed cleanly (%)'', bar_vals = [s1, s2], bar_ylim = (0, 108)\<rparr>,
          \<lparr>bar_label = ''P99 latency, successful requests (ms)'', bar_vals = [l1, l2], bar_ylim = (0, max l1 l2 * 1.18)\<rparr>]))))"

subsection \<open>The program\<close>

text \<open>
  The results directory: for a scenario and a mode the records of \<^verbatim>\<open>requests.csv\<close> and the decoded \<^verbatim>\<open>summary.json\<close>, for a scenario
  \<^verbatim>\<open>ENVIRONMENT.txt\<close>, each if it exists; whether the output directory exists; and what \<^verbatim>\<open>plt.subplots\<close> does with a number of rows and columns.
\<close>

record results =
  csv_file :: "string \<Rightarrow> string \<Rightarrow> (string \<times> string) list list option"
  summary_file :: "string \<Rightarrow> string \<Rightarrow> json res option"
  environment :: "string \<Rightarrow> string option"
  out_exists :: bool
  subplots :: "nat \<Rightarrow> nat \<Rightarrow> unit res"

definition read_summary :: "results \<Rightarrow> string \<Rightarrow> string \<Rightarrow> json res" where
  "read_summary rs sc m = (case summary_file rs sc m of None \<Rightarrow> Inl FileNotFoundErr | Some j \<Rightarrow> j)"

definition load_run :: "(string \<Rightarrow> real res) \<Rightarrow> results \<Rightarrow> string \<Rightarrow> string \<Rightarrow> (row list \<times> json) res" where
  "load_run flt rs sc m = load flt (of_opt FileNotFoundErr (csv_file rs sc m)) (read_summary rs sc m)"

text \<open>\<^verbatim>\<open>ENVIRONMENT.txt\<close> is read after both runs were loaded and the horizon is known.\<close>

definition timeline_run :: "(real list \<Rightarrow> real \<Rightarrow> real) \<Rightarrow> (string \<Rightarrow> real res) \<Rightarrow> results \<Rightarrow> string \<Rightarrow> timeline_fig res" where
  "timeline_run np flt rs sc =
     res_bind (timeline np (load_run flt rs sc ''original'') (load_run flt rs sc ''upgraded'')
                (case environment rs sc of None \<Rightarrow> [] | Some t \<Rightarrow> t)) (\<lambda>fig.
     if environment rs sc = None then Inl FileNotFoundErr else Inr fig)"

datatype figure = Timeline string timeline_fig | Bars "(string \<times> bar_panel list) list"

fun figure_file :: "figure \<Rightarrow> string" where
  "figure_file (Timeline sc _) = ''sim_'' @ sc @ ''_timeline.png''"
| "figure_file (Bars _) = ''sim_summary.png''"

definition scenarios :: "string list" where
  "scenarios = [''crash'', ''brownout'']"

fun scenario_bars :: "results \<Rightarrow> string list \<Rightarrow> (string \<times> bar_panel list) list res" where
  "scenario_bars rs [] = Inr []"
| "scenario_bars rs (sc # scs) =
     res_bind (read_summary rs sc ''original'') (\<lambda>s1. res_bind (read_summary rs sc ''upgraded'') (\<lambda>s2.
     res_bind (summary_panels s1 s2) (\<lambda>ps. res_bind (scenario_bars rs scs) (\<lambda>rest. Inr ((sc, ps) # rest)))))"

definition summary_fig :: "results \<Rightarrow> (string \<times> bar_panel list) list res" where
  "summary_fig rs =
     (let scs = filter (\<lambda>s. summary_file rs s ''original'' \<noteq> None) scenarios
      in res_bind (subplots rs 2 (length scs)) (\<lambda>_. scenario_bars rs scs))"

text \<open>The figures saved, and the outcome. Only \<^verbatim>\<open>timeline\<close> makes the output directory; \<^verbatim>\<open>savefig\<close> needs it.\<close>

fun timelines :: "(real list \<Rightarrow> real \<Rightarrow> real) \<Rightarrow> (string \<Rightarrow> real res) \<Rightarrow> results \<Rightarrow> string list \<Rightarrow> figure list \<times> unit res" where
  "timelines np flt rs [] = ([], Inr ())"
| "timelines np flt rs (sc # scs) =
     (if csv_file rs sc ''upgraded'' = None then timelines np flt rs scs
      else case timeline_run np flt rs sc of
             Inl e \<Rightarrow> ([], Inl e)
           | Inr fig \<Rightarrow> (let (figs, r) = timelines np flt rs scs in (Timeline sc fig # figs, r)))"

definition plot_main :: "(real list \<Rightarrow> real \<Rightarrow> real) \<Rightarrow> (string \<Rightarrow> real res) \<Rightarrow> results \<Rightarrow> figure list \<times> unit res" where
  "plot_main np flt rs =
     (case timelines np flt rs scenarios of
        (figs, Inl e) \<Rightarrow> (figs, Inl e)
      | (figs, Inr _) \<Rightarrow>
          (case summary_fig rs of
             Inl e \<Rightarrow> (figs, Inl e)
           | Inr bars \<Rightarrow>
               if figs = [] \<and> \<not> out_exists rs then (figs, Inl FileNotFoundErr) else (figs @ [Bars bars], Inr ())))"

subsection \<open>Lemmas\<close>

lemma sum_length_filter_upt:
  "sum_list (map (\<lambda>s. length (filter (\<lambda>x. g x = s) xs)) [0..<n]) = length (filter (\<lambda>x. g x < (n::nat)) xs)"
proof (induction n)
  case (Suc n)
  have "length (filter (\<lambda>x. g x < Suc n) xs) = length (filter (\<lambda>x. g x < n) xs) + length (filter (\<lambda>x. g x = n) xs)"
    by (induction xs) auto
  with Suc show ?case by simp
qed simp

lemma bucket_second:
  "length (bucket rows s) = length (filter (\<lambda>x. nat \<lfloor>fst x\<rfloor> = s) (filter (\<lambda>x. 0 \<le> fst x) rows))"
proof -
  have "(real s \<le> t \<and> t < real s + 1) \<longleftrightarrow> nat \<lfloor>t\<rfloor> = s \<and> 0 \<le> t" for t :: real
    by (auto simp: floor_eq_iff nat_eq_iff; linarith)
  then show ?thesis by (simp add: bucket_def case_prod_beta' conj_commute)
qed

lemma re_match_fault:
  "\<exists>ms. re_match fault_re (pv, ''fault at '' @ show_nat x @ ''s, recover at '' @ show_nat y @ ''s'' @ rest, [])
     = (Some (CHR ''s''), rest, [(2, show_nat y), (1, show_nat x)]) # ms"
proof -
  have dig: "\<forall>c \<in> set (show_nat k). py_isdigit c" for k by (auto dest: show_nat_digits)
  have nd: "case ''s'' @ r of [] \<Rightarrow> True | c # _ \<Rightarrow> \<not> py_isdigit c" "case ''s, recover at '' @ r of [] \<Rightarrow> True | c # _ \<Rightarrow> \<not> py_isdigit c" for r
    by (simp_all add: py_isdigit_def)
  have plus: "\<exists>ms. re_match (Grp g (Plus py_isdigit)) (pv, show_nat k @ s, cs) = (Some (last (show_nat k)), s, (g, show_nat k) # cs) # ms"
    if h: "case s of [] \<Rightarrow> True | c # _ \<Rightarrow> \<not> py_isdigit c" for g k s cs pv
  proof -
    obtain ms where "re_match (Plus py_isdigit) (pv, show_nat k @ s, cs) = (Some (last (show_nat k)), s, cs) # ms"
      using re_match_Plus [where w = "show_nat k" and p = py_isdigit, OF show_nat_ne dig h] by blast
    then show ?thesis by simp
  qed
  obtain m1 where m1: "re_match (Grp 1 (Plus py_isdigit)) (pv_after pv ''fault at '', show_nat x @ ''s, recover at '' @ show_nat y @ ''s'' @ rest, [])
      = (Some (last (show_nat x)), ''s, recover at '' @ show_nat y @ ''s'' @ rest, [(1, show_nat x)]) # m1"
    using plus [OF nd(2)] by blast
  obtain m2 where m2: "re_match (Grp 2 (Plus py_isdigit)) (pv_after (Some (last (show_nat x))) ''s, recover at '', show_nat y @ ''s'' @ rest, [(1, show_nat x)])
      = (Some (last (show_nat y)), ''s'' @ rest, [(2, show_nat y), (1, show_nat x)]) # m2"
    using plus [OF nd(1)] by blast
  have l3: "re_match (lit ''s'') (q, ''s'' @ rest, cs) = [(Some (CHR ''s''), rest, cs)]" for q cs
    by (simp only: re_match_lit) (simp add: pv_after_def)
  show ?thesis
    unfolding fault_re_def re_match.simps(4) re_match_lit list.map concat.simps append_Nil2 m1 m2 l3
    by (simp only: append_Cons ex_simps list.inject simp_thms) (simp add: pv_after_def)
qed

subsection \<open>Properties\<close>

text \<open>The seconds partition the timeline: every request that started between 0 and the horizon is in exactly one bucket, so the
  bucket sizes add up to their number; and every plotted success rate is a percentage, 100 exactly when no request of that second failed.\<close>

theorem per_second_partition:
  "sum_list (map (\<lambda>s. length (bucket rows s)) [0..<horizon]) = length (filter (\<lambda>(t, lat, ok). 0 \<le> t \<and> t < real horizon) rows)
   \<and> (\<forall>s < horizon. case fst (per_second np rows horizon) ! s of
        None \<Rightarrow> bucket rows s = []
      | Some v \<Rightarrow> 0 \<le> v \<and> v \<le> 100 \<and> (v = 100 \<longleftrightarrow> list_all snd (bucket rows s)))"
proof (intro conjI allI impI)
  have "filter (\<lambda>x. nat \<lfloor>fst x\<rfloor> < horizon) (filter (\<lambda>x. 0 \<le> fst x) rows) = filter (\<lambda>(t, lat, ok). 0 \<le> t \<and> t < real horizon) rows"
    unfolding filter_filter by (rule filter_cong) (auto, linarith+)
  then show "sum_list (map (\<lambda>s. length (bucket rows s)) [0..<horizon]) = length (filter (\<lambda>(t, lat, ok). 0 \<le> t \<and> t < real horizon) rows)"
    by (simp only: bucket_second sum_length_filter_upt)
  fix s assume s: "s < horizon"
  let ?b = "bucket rows s"
  have "length (filter snd ?b) \<le> length ?b" by simp
  moreover have "length (filter snd b) = length b \<longleftrightarrow> list_all snd b" for b :: "(real \<times> bool) list"
  proof
    assume "length (filter snd b) = length b"
    then show "list_all snd b" by (metis length_filter_less less_irrefl list_all_iff)
  qed (simp add: list_all_iff)
  ultimately show "case fst (per_second np rows horizon) ! s of None \<Rightarrow> ?b = []
      | Some v \<Rightarrow> 0 \<le> v \<and> v \<le> 100 \<and> (v = 100 \<longleftrightarrow> list_all snd ?b)"
    using s by (auto simp: per_second_def succ_at_def field_simps)
qed

theorem per_second_partition_witness:
  "let rows = [(0.2, 9, True), (1.7, 8, False), (1.9, 7, True), (5, 1, True)]
   in sum_list (map (\<lambda>s. length (bucket rows s)) [0..<2]) = length (filter (\<lambda>(t, lat, ok). 0 \<le> t \<and> t < real 2) rows)"
  using per_second_partition [where np = "\<lambda>xs q. 0" and horizon = 2] unfolding Let_def by blast

text \<open>The shaded band is the window that the environment file records: from a file whose first match is
  \<^verbatim>\<open>fault at <x>s, recover at <y>s\<close>, exactly \<open>x\<close> and \<open>y\<close> are read back.\<close>

theorem fault_window_roundtrip:
  assumes "no_match_before fault_re a (''fault at '' @ show_nat x @ ''s, recover at '' @ show_nat y @ ''s'' @ rest)"
  shows "fault_window (a @ ''fault at '' @ show_nat x @ ''s, recover at '' @ show_nat y @ ''s'' @ rest) = Some (int x, int y)"
proof -
  let ?s = "''fault at '' @ show_nat x @ ''s, recover at '' @ show_nat y @ ''s'' @ rest"
  obtain ms where m: "re_match fault_re (pv_after None a, ?s, []) = (Some (CHR ''s''), rest, [(2, show_nat y), (1, show_nat x)]) # ms"
    using re_match_fault by blast
  obtain c s' where s: "?s = c # s'" by simp
  have "re_search fault_re (a @ ?s) = Some [(2, show_nat y), (1, show_nat x)]"
    unfolding re_search_after [OF assms] using m unfolding s by simp
  then show ?thesis by (simp add: fault_window_def py_int_show_nat)
qed

theorem fault_window_roundtrip_witness:
  "fault_window (''scenario: crash ('' @ ''fault at '' @ show_nat 8 @ ''s, recover at '' @ show_nat 20 @ ''s'' @ '', duration 30s)'')
   = Some (int 8, int 20)"
  by (rule fault_window_roundtrip) code_simp

text \<open>The gap note is truthful: the figure carries it exactly when, for the original gateway, some second of the common horizon
  has fewer than five successful requests, which is when its P95 line has a gap.\<close>

theorem timeline_gap_note:
  assumes "timeline np (Inr (rows1, s1)) (Inr (rows2, s2)) env = Inr fig"
  shows "fig_gap_note fig \<longleftrightarrow> (\<exists>s < length (fig_x fig). length (filter snd (bucket rows1 s)) < 5)"
proof -
  obtain h where "horizon_of s1 s2 = Inr h" "length (fig_x fig) = h"
    "fig_gap_note fig \<longleftrightarrow> None \<in> set (map (\<lambda>s. p95_at np (bucket rows1 s)) [0..<h])"
    using assms by (auto simp: timeline_def res_bind_Inr_iff Let_def series_of_def per_second_def)
  then show ?thesis
    by (auto simp: p95_at_def image_iff split: if_splits)
qed

theorem timeline_gap_note_witness:
  "\<exists>fig. timeline (\<lambda>xs q. 0) (Inr ([(0.5, 10, True)], JObj [(''duration_s'', JInt 1)])) (Inr ([], JObj [(''duration_s'', JInt 2)])) [] = Inr fig
     \<and> fig_gap_note fig"
proof -
  obtain fig where f: "timeline (\<lambda>xs q. 0) (Inr ([(0.5, 10, True)], JObj [(''duration_s'', JInt 1)])) (Inr ([], JObj [(''duration_s'', JInt 2)])) [] = Inr fig"
    "length (fig_x fig) = 1"
    by (simp add: timeline_def horizon_of_def Let_def)
  have "fig_gap_note fig" using timeline_gap_note [OF f(1)] f(2) by (auto simp: bucket_def)
  with f(1) show ?thesis by blast
qed

text \<open>A benchmark of which only one side was run: with the upgraded records of a scenario in place and the original ones missing, the program raises
  \<^verbatim>\<open>FileNotFoundError\<close> and saves no figure of that scenario or of any later one, nor the summary.\<close>

theorem plot_main_half_run:
  assumes "csv_file rs ''crash'' ''upgraded'' \<noteq> None" "csv_file rs ''crash'' ''original'' = None"
  shows "plot_main np flt rs = ([], Inl FileNotFoundErr)"
proof -
  have "timeline_run np flt rs ''crash'' = Inl FileNotFoundErr"
    using assms(2) by (simp add: timeline_run_def timeline_def load_run_def load_def of_opt_def)
  then have "timelines np flt rs scenarios = ([], Inl FileNotFoundErr)" using assms(1) by (simp only: scenarios_def timelines.simps if_False) simp
  then show ?thesis by (simp add: plot_main_def)
qed

end
