(* ===== verification/Bench_Flow.thy ===== *)
theory Bench_Flow
  imports Mock_Worker Load_Gen Plot
begin

section \<open>The simulated benchmark end to end\<close>

text \<open>
  Composes the simulated benchmark: mock workers behind the gateway's handler, the load generator in front of it, and \<^verbatim>\<open>plot.py\<close> on the files the
  generator wrote. The network may cut the bytes of a stream into any reads.
\<close>

subsection \<open>Lines of a worker's stream\<close>

definition token_text :: "nat \<Rightarrow> string" where
  "token_text i =
     (let q = [CHR 0x22]
      in ''data: {'' @ q @ ''choices'' @ q @ '':[{'' @ q @ ''index'' @ q @ '':0,'' @ q @ ''delta'' @ q @ '':{'' @ q @ ''content'' @ q @ '':'' @ q @ ''tok'' @ show_nat i
         @ '' '' @ q @ ''}}]}'')"

lemma token_event_text: "token_event i = token_text i @ [CHR 0x0A, CHR 0x0A]"
  by (simp add: token_event_def token_text_def Let_def)

lemma digits_only: "c \<in> set (show_nat i) \<Longrightarrow> c \<noteq> CHR ''r'' \<and> c \<noteq> CHR 0x0A"
  by (drule show_nat_digits) (auto simp: py_isdigit_def)

lemma token_text_chars: "CHR ''r'' \<notin> set (token_text i)" "CHR 0x0A \<notin> set (token_text i)"
  by (auto simp: token_text_def Let_def dest: digits_only)

lemma set_TrimSpace: "set (TrimSpace s) \<subseteq> set s"
  unfolding TrimSpace_def set_rev by (metis set_dropWhileD set_rev subsetI)

lemma contains_error_r: "contains error_key s \<Longrightarrow> CHR ''r'' \<in> set s"
  by (auto simp: contains_iff error_key_def)

lemma token_text_start: "dropWhile go_isspace (token_text i @ s) = token_text i @ s" "\<exists>r. token_text i = ''data: {'' @ r"
  by (simp_all add: token_text_def Let_def go_isspace_def)

lemma token_text_line: "token_line (token_text i @ [CHR 0x0A])" "\<not> done_line (token_text i @ [CHR 0x0A])" "\<not> error_line (token_text i @ [CHR 0x0A])"
proof -
  obtain r where r: "token_text i = ''data: {'' @ r" using token_text_start(2) by blast
  show d: "\<not> done_line (token_text i @ [CHR 0x0A])"
    unfolding done_line_iff token_text_start(1) by (simp add: r startswith_def)
  have "\<not> contains error_key (TrimSpace (token_text i @ [CHR 0x0A]))"
    using set_TrimSpace [of "token_text i @ [CHR 0x0A]"] token_text_chars(1) [of i] by (auto dest!: contains_error_r)
  then show e: "\<not> error_line (token_text i @ [CHR 0x0A])" by (simp add: error_line_def)
  have "startswith (TrimSpace (token_text i @ [CHR 0x0A])) ''data:''"
    unfolding data_line_iff token_text_start(1) by (simp add: r startswith_def)
  with d e show "token_line (token_text i @ [CHR 0x0A])" by (simp add: token_line_def)
qed

lemma blank_lines: "\<not> done_line [CHR 0x0A]" "\<not> error_line [CHR 0x0A]" "\<not> token_line [CHR 0x0A]" "\<not> done_line []" "\<not> error_line []" "\<not> token_line []"
  by code_simp+

lemma done_mark: "done_line (''data: [DONE]'' @ [CHR 0x0A])" "\<not> error_line (''data: [DONE]'' @ [CHR 0x0A])"
  by code_simp+

lemma read_lines_event:
  "CHR 0x0A \<notin> set l \<Longrightarrow> read_lines (l @ CHR 0x0A # CHR 0x0A # s) = ((l @ [CHR 0x0A]) # [CHR 0x0A] # fst (read_lines s), snd (read_lines s))"
  using read_lines_line [of l "CHR 0x0A # s"] read_lines_line [of "[]" s] by simp

lemma read_lines_tokens:
  "read_lines (concat (map token_event is @ [done_event])) =
     (concat (map (\<lambda>i. [token_text i @ [CHR 0x0A], [CHR 0x0A]]) is) @ [''data: [DONE]'' @ [CHR 0x0A], [CHR 0x0A]], [])"
proof (induction "is")
  case Nil
  have "read_lines (''data: [DONE]'' @ CHR 0x0A # CHR 0x0A # []) = ([''data: [DONE]'' @ [CHR 0x0A], [CHR 0x0A]], [])"
    by (subst read_lines_event) simp_all
  then show ?case by (simp only: done_event_def) simp
next
  case (Cons i "is")
  then show ?case by (simp add: token_event_text read_lines_event token_text_chars)
qed

subsection \<open>The load generator on a whole stream\<close>

lemma seen_ttft_kept: "sawToken s \<Longrightarrow> seen_ttft (fold see_line ls s) = seen_ttft s"
proof (induction ls arbitrary: s)
  case (Cons l ls)
  have "sawToken (see_line l s)" "seen_ttft (see_line l s) = seen_ttft s" using Cons.prems by (auto simp: see_line_def Let_def)
  with Cons.IH show ?case by simp
qed simp

lemma first_token_time:
  assumes "token_line l" "body_lines b = (l, t) # ls"
  shows "seen_ttft (read_body b) = t"
proof -
  let ?s0 = "\<lparr>sawToken = False, sawDone = False, sawErr = False, seen_ttft = 0\<rparr>"
  have "see_line (l, t) ?s0 = ?s0\<lparr>sawToken := True, seen_ttft := t\<rparr>"
    using assms(1) by (auto simp: see_line_def token_line_def error_line_def done_line_def Let_def)
  then have "read_body b = fold see_line (ls @ [(tail_text b, tail_ms b)]) (?s0\<lparr>sawToken := True, seen_ttft := t\<rparr>)"
    by (simp add: read_body_def assms(2))
  then show ?thesis by (simp only: seen_ttft_kept) (subst seen_ttft_kept; simp)
qed

lemma whole_stream_ok:
  fixes tm :: "nat \<Rightarrow> real" and n :: nat
  assumes "0 < n"
  defines "b \<equiv> body_of tm None (concat (map token_event [0..<n] @ [done_event]))"
  shows "r_ok (oneRequest tS lat (Got 200 att node b)) \<and> r_errMsg (oneRequest tS lat (Got 200 att node b)) = []
    \<and> r_ttftMS (oneRequest tS lat (Got 200 att node b)) = tm 0"
proof -
  have up: "[0..<n] = 0 # [1..<n]" using assms(1) by (simp add: upt_conv_Cons)
  have l: "all_lines b = concat (map (\<lambda>i. [token_text i @ [CHR 0x0A], [CHR 0x0A]]) [0..<n]) @ [''data: [DONE]'' @ [CHR 0x0A], [CHR 0x0A]] @ [[]]"
    by (simp only: b_def all_lines_body_of read_lines_tokens fst_conv snd_conv append_assoc)
  have "sawDone (read_body b)" unfolding read_body_flags l using done_mark(1) by (simp only: set_append list.set) blast
  moreover have "\<not> sawErr (read_body b)" unfolding read_body_flags l using done_mark(2) blank_lines token_text_line(3) by fastforce
  moreover have "sawToken (read_body b)" unfolding read_body_flags l using token_text_line(1) [of 0] by (simp add: up)
  moreover have "tail_err b = None" by (simp add: b_def)
  moreover have "\<exists>ls. body_lines b = (token_text 0 @ [CHR 0x0A], tm 0) # ls"
    unfolding b_def body_of_def read_lines_tokens by (simp add: up upt_conv_Cons del: upt_Suc)
  then have "seen_ttft (read_body b) = tm 0" using first_token_time [OF token_text_line(1) [of 0]] by blast
  ultimately show ?thesis by (simp add: oneRequest_def Let_def)
qed

subsection \<open>Failing over, then relaying\<close>

text \<open>What a node may do for the handler to go on with the next one.\<close>

definition retryable :: "upstream \<Rightarrow> bool" where
  "retryable u =
     (\<not> request_ok u \<or> (case reply_of u of
        DoErr \<Rightarrow> \<not> ctx_done u
      | Resp st ct chunks final rend \<Rightarrow> st = 429 \<or> (st \<ge> 500 \<and> st \<noteq> 501) \<or> first_read_failed chunks final rend \<and> \<not> ctx_done u))"

definition same_output :: "hstate \<Rightarrow> hstate \<Rightarrow> bool" where
  "same_output s s' \<longleftrightarrow> written s' = written s \<and> status s' = status s \<and> header s' = header s"

lemma attempt_retryable: "retryable u \<Longrightarrow> \<exists>s' reason. attempt_node n a u s = (s', outRetry, reason) \<and> same_output s s'"
  by (auto simp: retryable_def attempt_node_def Let_def same_output_def hst split: reply.splits)

lemma serve_loop_failover:
  assumes "\<forall>i \<in> {a..<a + k}. acquire_at env i (exclude @ map node [a..<i]) = Inr (node i) \<and> retryable (upstream_at env i (node i))
      \<and> slept env i \<and> backoff (retry_backoff rel) i (draws env i) \<noteq> None" "k < left"
  shows "\<exists>lr' s'. serve_loop env rel left a exclude lr s = serve_loop env rel (left - k) (a + k) (exclude @ map node [a..<a + k]) lr' s' \<and> same_output s s'"
  using assms
proof (induction k arbitrary: left a exclude lr s)
  case 0
  then show ?case by (auto simp: same_output_def)
next
  case (Suc k)
  obtain l where l: "left = Suc l" "k < l" using Suc.prems(2) by (cases left) auto
  have a: "acquire_at env a exclude = Inr (node a)" "retryable (upstream_at env a (node a))" "slept env a"
    "backoff (retry_backoff rel) a (draws env a) \<noteq> None"
    using Suc.prems(1) [rule_format, of a] by simp_all
  obtain s1 reason where at: "attempt_node (node a) a (upstream_at env a (node a)) (begin_attempt a lr (node a) s) = (s1, outRetry, reason)"
    and same: "same_output (begin_attempt a lr (node a) s) s1"
    using attempt_retryable [OF a(2)] by blast
  have step: "serve_loop env rel left a exclude lr s = serve_loop env rel l (Suc a) (exclude @ [node a]) reason s1"
    using a at l by (auto simp: l(1))
  have up: "[a..<i] = a # [Suc a..<i]" if "a < i" for i using that by (simp add: upt_conv_Cons)
  have "\<forall>i \<in> {Suc a..<Suc a + k}. acquire_at env i ((exclude @ [node a]) @ map node [Suc a..<i]) = Inr (node i)
      \<and> retryable (upstream_at env i (node i)) \<and> slept env i \<and> backoff (retry_backoff rel) i (draws env i) \<noteq> None"
  proof
    fix i assume i: "i \<in> {Suc a..<Suc a + k}"
    then have "a < i" "i \<in> {a..<a + Suc k}" by auto
    with Suc.prems(1) [rule_format, of i] up [of i]
    show "acquire_at env i ((exclude @ [node a]) @ map node [Suc a..<i]) = Inr (node i)
      \<and> retryable (upstream_at env i (node i)) \<and> slept env i \<and> backoff (retry_backoff rel) i (draws env i) \<noteq> None" by simp
  qed
  from Suc.IH [OF this l(2), of reason s1] obtain lr' s' where
    s': "serve_loop env rel l (Suc a) (exclude @ [node a]) reason s1 =
      serve_loop env rel (l - k) (Suc a + k) ((exclude @ [node a]) @ map node [Suc a..<Suc a + k]) lr' s'" "same_output s1 s'" by blast
  have "same_output s s'" using s'(2) same by (simp add: same_output_def hst)
  then show ?case using step s'(1) by (intro exI [of _ lr'] exI [of _ s']) (simp add: l(1) up del: upt_Suc)
qed

lemma relay_complete:
  assumes "\<forall>k. client_ok u k" "written s0 = []" "status s0 = None" "relay n a u st ct reads EOF s0 = (s, v, reason)"
  shows "v = outDone \<and> concat (written s) = concat reads \<and> status s = Some st
    \<and> map_of (header s) ''X-Gateway-Attempts'' = Some (show_nat a) \<and> map_of (header s) ''X-Gateway-Node'' = Some n"
proof -
  define s1 where "s1 = WriteHeader st (setHeader ''X-Gateway-Attempts'' (show_nat a) (setHeader ''X-Gateway-Node'' n
     (let s = (if ct \<noteq> [] then setHeader ''Content-Type'' ct s0 else s0)
      in if startswith ct ''text/event-stream'' then setHeader ''X-Accel-Buffering'' ''no'' (setHeader ''Cache-Control'' ''no-cache'' s) else s)))"
  obtain s2 where c: "copy_body (client_ok u) reads s1 = (s2, True)" and w: "written s2 = written s1 @ nonempty reads"
    using copy_body_all [OF assms(1)] by blast
  have s: "s = finish_label ''direct_ok'' (observe (UpstreamAttempt n ''ok'') (lease_ended n (LDone True) s2))" "v = outDone"
    using assms(4) c unfolding relay_def s1_def [symmetric] Let_def
    by (auto simp: s1_def Let_def)
  have h: "header s2 = header s1" "status s2 = Some st" using copy_body_effect [OF c] assms(3) by (auto simp: s1_def hst Let_def)
  have "concat (nonempty xs) = concat xs" for xs :: "string list" by (induction xs) auto
  moreover have "written s1 = []" using assms(2) by (simp add: s1_def hst Let_def)
  moreover have "map_of (header s1) ''X-Gateway-Attempts'' = Some (show_nat a)" "map_of (header s1) ''X-Gateway-Node'' = Some n"
    by (simp_all add: s1_def hst) (simp_all add: setHeader_def AList.update_conv')
  ultimately show ?thesis using s w h by (simp add: hst)
qed

lemma whole_answer:
  assumes "fst (chat (\<lambda>_. True) (Some mq) w) = Answer 200 ''text/event-stream'' ws EOF" "wopts w = mock_defaults os"
  shows "\<exists>n > 0. ws = map token_event [0..<n] @ [done_event]"
proof -
  obtain warm w1 where t: "touch (prefix_key [] (mr_messages mq)) w = (warm, w1)" by force
  have "wopts w1 = wopts w" using touch_frame(1) [of "prefix_key [] (mr_messages mq)" w] by (simp add: t)
  then have "chat_body (mock_defaults os) (wfault w) (\<lambda>_. True) mq = Answer 200 ''text/event-stream'' ws EOF"
    using assms t by (auto simp: chat_def Let_def chat_reject_def http_error_def chat_enter_def split: if_splits)
  moreover from this have "mr_stream mq" by (auto simp: chat_body_def Let_def split: if_splits)
  ultimately have "ws = map token_event [0..<nat (tokens_of (mock_defaults os) mq)] @ [done_event]"
    using chat_body_stream [of "\<lambda>_. True" mq "mock_defaults os" "wfault w"] by (auto simp: Let_def split: if_splits)
  moreover have "0 < tokens_of (mock_defaults os) mq" using defaults_positive(2) [of os] unfolding tokens_of_def by (simp only: split: if_split) linarith
  ultimately show ?thesis by (intro exI [of _ "nat (tokens_of (mock_defaults os) mq)"]) simp
qed

lemma show_one: "show_nat (Suc 0) = ''1''"
  by code_simp

lemma r_attempts_got: "r_attempts (oneRequest tS lat (Got st att node b)) = att"
  by (simp add: oneRequest_def Let_def)

lemma event_glued_done: "done_line (part @ ''data: '' @ interrupted_json @ [CHR 0x0A]) \<longleftrightarrow> done_line part"
proof -
  obtain r where "interrupted_json = ''{'' @ r" by (simp add: interrupted_json_def Let_def)
  then have "part @ ''data: '' @ interrupted_json @ [CHR 0x0A] = part @ ''data: {'' @ r @ [CHR 0x0A]" by simp
  then show ?thesis using done_line_glued [of part "r @ [CHR 0x0A]"] by (simp only:)
qed

lemma event_glued_error: "contains error_key (TrimSpace (part @ ''data: '' @ interrupted_json @ [CHR 0x0A]))"
proof -
  obtain r where j: "interrupted_json = ''{'' @ error_key @ r" by (simp add: interrupted_json_def error_key_def Let_def)
  have "error_key \<noteq> []" "\<not> go_isspace (hd error_key)" "\<not> go_isspace (last error_key)" by code_simp+
  from TrimSpace_keeps [OF this, of "part @ ''data: {''" "r @ [CHR 0x0A]"] show ?thesis by (auto simp: j contains_iff)
qed

text \<open>What \<^verbatim>\<open>plot.py\<close> gets from the two files of a run.\<close>

lemma files_loaded:
  assumes "lg_files fmt out os elapsed recs = Some (js, head # rows)" "\<forall>p x. flt (fmt p x) = Inr (rnd p x)"
  shows "load flt (Inr (map (zip head) rows)) (Inr js) = Inr (map (\<lambda>r. (rnd 3 (r_tS r), rnd 1 (r_latMS r), r_ok r)) (sort_key r_tS recs), js)"
    "success_pct js = Inr (if recs = [] then 0 else 100 * (real (length (filter r_ok recs)) / real (length recs)))"
    "p99_ok js = Inr (P99 (Summarize (map r_latMS (filter r_ok recs))))" "py_item js ''duration_s'' = Inr (JFloat elapsed)"
proof -
  have f: "js = summary_json os (lg_summarize elapsed recs)" "head = csv_header" "rows = map (csv_row fmt) (sort_key r_tS recs)"
    using assms(1) by (simp_all add: lg_files_def split: if_splits)
  have "load_rows flt (map (zip csv_header) (map (csv_row fmt) rs)) = Inr (map (\<lambda>r. (rnd 3 (r_tS r), rnd 1 (r_latMS r), r_ok r)) rs)" for rs
    by (induction rs) (simp_all add: csv_header_def csv_row_def dict_get_def assms(2) of_opt_def)
  then show "load flt (Inr (map (zip head) rows)) (Inr js) = Inr (map (\<lambda>r. (rnd 3 (r_tS r), rnd 1 (r_latMS r), r_ok r)) (sort_key r_tS recs), js)"
    by (simp add: load_def f)
  have "sum_rate (lg_summarize elapsed recs) = (if recs = [] then 0 else real (length (filter r_ok recs)) / real (length recs))"
    by (simp add: lg_summarize_def Let_def fold_tally filter_sort_length)
  then show "success_pct js = Inr (if recs = [] then 0 else 100 * (real (length (filter r_ok recs)) / real (length recs)))"
    by (simp add: f success_pct_def summary_json_def of_opt_def)
  have "sum_lat (lg_summarize elapsed recs) = Summarize (map r_latMS (filter r_ok recs))"
    by (simp add: lg_summarize_def Let_def fold_tally) (rule Summarize_perm, rule map_filter_sort_mset)
  then show "p99_ok js = Inr (P99 (Summarize (map r_latMS (filter r_ok recs))))"
    by (simp add: f p99_ok_def summary_json_def lat_json_def of_opt_def)
  show "py_item js ''duration_s'' = Inr (JFloat elapsed)" by (simp add: f summary_json_def lg_summarize_def Let_def of_opt_def)
qed

text \<open>The results of a run of the load generator, in the results directory.\<close>

definition run_saved :: "(nat \<Rightarrow> real \<Rightarrow> string) \<Rightarrow> results \<Rightarrow> string \<Rightarrow> string \<Rightarrow> lg_record list \<Rightarrow> bool" where
  "run_saved fmt rs sc m recs \<longleftrightarrow> (\<exists>out os elapsed js head rows. lg_files fmt out os elapsed recs = Some (js, head # rows)
     \<and> csv_file rs sc m = Some (map (zip head) rows) \<and> summary_file rs sc m = Some (Inr js))"

definition ok_share :: "lg_record list \<Rightarrow> real" where
  "ok_share recs = (if recs = [] then 0 else 100 * (real (length (filter r_ok recs)) / real (length recs)))"

definition ok_p99 :: "lg_record list \<Rightarrow> real" where
  "ok_p99 recs = P99 (Summarize (map r_latMS (filter r_ok recs)))"

lemma run_savedE:
  assumes "run_saved fmt rs sc m recs" "\<forall>p x. flt (fmt p x) = Inr (rnd p x)"
  obtains js rows d where "load_run flt rs sc m = Inr (rows, js)" "read_summary rs sc m = Inr js" "py_item js ''duration_s'' = Inr (JFloat d)"
    "success_pct js = Inr (ok_share recs)" "p99_ok js = Inr (ok_p99 recs)" "csv_file rs sc m \<noteq> None" "summary_file rs sc m \<noteq> None"
proof -
  from assms(1) obtain out os elapsed js head rows where r: "lg_files fmt out os elapsed recs = Some (js, head # rows)"
    "csv_file rs sc m = Some (map (zip head) rows)" "summary_file rs sc m = Some (Inr js)" unfolding run_saved_def by (elim exE conjE)
  note l = files_loaded [OF r(1) assms(2)]
  show ?thesis
    by (rule that [OF _ _ l(4)]) (use r(2,3) l(1-3) in \<open>simp_all add: load_run_def read_summary_def of_opt_def ok_share_def ok_p99_def\<close>)
qed

lemma timeline_run_saved:
  assumes "run_saved fmt rs sc ''original'' recs" "run_saved fmt rs sc ''upgraded'' recs'" "environment rs sc \<noteq> None" "\<forall>p x. flt (fmt p x) = Inr (rnd p x)"
  shows "\<exists>fig. timeline_run np flt rs sc = Inr fig"
proof -
  obtain js1 rows1 d1 where 1: "load_run flt rs sc ''original'' = Inr (rows1, js1)" "py_item js1 ''duration_s'' = Inr (JFloat d1)"
    by (rule run_savedE [OF assms(1,4)])
  obtain js2 rows2 d2 where 2: "load_run flt rs sc ''upgraded'' = Inr (rows2, js2)" "py_item js2 ''duration_s'' = Inr (JFloat d2)"
    by (rule run_savedE [OF assms(2,4)])
  from 1 2 assms(3) show ?thesis by (simp add: timeline_run_def timeline_def horizon_of_def Let_def)
qed

subsection \<open>Properties\<close>



text \<open>C26. What the load generator writes is what the plots show: reading \<^verbatim>\<open>requests.csv\<close> back gives one row per request, in the order of their start, with
its time and latency rounded as printed and its outcome; the bars of the summary figure are the share of complete requests and the 99th percentile of
the latencies of these.\<close>

theorem files_plot_roundtrip:
  assumes "lg_files fmt out os elapsed recs = Some (js, head # rows)" "\<forall>p x. flt (fmt p x) = Inr (rnd p x)"
  shows "load flt (Inr (map (zip head) rows)) (Inr js) = Inr (map (\<lambda>r. (rnd 3 (r_tS r), rnd 1 (r_latMS r), r_ok r)) (sort_key r_tS recs), js)
    \<and> success_pct js = Inr (if recs = [] then 0 else 100 * (real (length (filter r_ok recs)) / real (length recs)))
    \<and> p99_ok js = Inr (P99 (Summarize (map r_latMS (filter r_ok recs))))"
  using files_loaded [OF assms] by simp


subsection \<open>Concrete runs\<close>

definition small_worker :: mock_options where
  "small_worker = \<lparr>worker_name = ''w0'', TTFTCold = 0, TTFTWarm = 0, TPOT = 0, Tokens = 2, Capacity = 0, CacheSize = 1\<rparr>"

definition small_request :: mock_req where
  "small_request = \<lparr>mr_messages = [(''system'', ''a''), (''user'', ''b'')], mr_stream = True, mr_max_tokens = 0\<rparr>"

definition small_stream :: "string list" where
  "small_stream = map token_event [0..<2] @ [done_event]"

lemma small_chat: "fst (chat (\<lambda>_. True) (Some small_request) (new_worker small_worker)) = Answer 200 ''text/event-stream'' small_stream EOF"
  by code_simp

definition small_node :: upstream where
  "small_node = dead\<lparr>reply_of := Resp 200 ''text/event-stream'' [concat small_stream] [] EOF\<rparr>"

definition small_env :: genv where
  "small_env = failover\<lparr>upstream_for := (\<lambda>b a n. if a = 1 then dead else small_node)\<rparr>"


definition small_broken :: hstate where
  "small_broken = fst (relay ''n'' 1 dead 200 ''text/event-stream'' [token_event 0, ''data: {''] ReadErr hstate0)"


text \<open>Floats written with one digit, one refused request, and the results directory of a benchmark in which every run was that request.\<close>

definition small_fmt :: "nat \<Rightarrow> real \<Rightarrow> string" where
  "small_fmt p x = (if x = 0 then ''0'' else ''1'')"

definition small_flt :: "string \<Rightarrow> real res" where
  "small_flt s = Inr (if s = ''0'' then 0 else 1)"

lemma small_round: "\<forall>p x. small_flt (small_fmt p x) = Inr ((\<lambda>p x. if x = 0 then 0 else 1) p x)"
  by (simp add: small_fmt_def small_flt_def)

definition small_opts :: lg_opts where
  "small_opts = \<lparr>lg_label = ''run'', lg_url = [], lg_clients = 1, lg_prefixes = 1, lg_max_tokens = 1\<rparr>"

definition small_rec :: lg_record where
  "small_rec = oneRequest 0 1 (Refused ''EOF'')"

definition small_json :: json where
  "small_json = summary_json small_opts (lg_summarize 1 [small_rec])"

lemma small_files: "lg_files small_fmt ''out'' small_opts 1 [small_rec] = Some (small_json, csv_header # [csv_row small_fmt small_rec])"
  by (simp add: lg_files_def small_json_def)

definition small_results :: results where
  "small_results = \<lparr>csv_file = (\<lambda>sc m. Some (map (zip csv_header) [csv_row small_fmt small_rec])), summary_file = (\<lambda>sc m. Some (Inr small_json)),
     environment = (\<lambda>_. Some []), out_exists = False, subplots = (\<lambda>_ _. Inr ())\<rparr>"

theorem files_plot_roundtrip_witness:
  "load small_flt (Inr (map (zip csv_header) [csv_row small_fmt small_rec])) (Inr small_json) = Inr ([(0, 1, False)], small_json)"
  using files_plot_roundtrip [OF small_files small_round] by (simp add: small_rec_def oneRequest_def)


end
