(* ===== verification/Spec2Isabelle.thy ===== *)
theory Spec2Isabelle
  imports Demo_Setup Real_Engine Long_Context Gateway Bench_Flow
begin

text \<open>
  \<^bold>\<open>RadixGates: the demos, the benchmarks and the gateway.\<close>

  RadixGates is a gateway in Go (\<^verbatim>\<open>src/gateway-go\<close>) in front of several SGLang workers, with Python programs around it: six demos that
  check a deployment and measure it (\<^verbatim>\<open>src/examples\<close>), a benchmark against real llama.cpp workers and the plots of the simulated one
  (\<^verbatim>\<open>src/benchmarks\<close>), and a long-context benchmark (\<^verbatim>\<open>src/scripts\<close>). The demos ask the gateway's \<^verbatim>\<open>/health\<close> for its mode, SGLang and the
  launch logs for the parallelism in use, \<^verbatim>\<open>nvidia-smi\<close> for the memory, then send streaming and plain chat requests through the gateway,
  report latencies, and collect the logs of the containers. The gateway routes a request by the hash of its system prompt, admits it to a node
  or queues it, relays the node's answer, and tries another node as long as nothing was sent to the client; a circuit breaker per node and
  active health checks take failing nodes out of the choice.

  \<^bold>\<open>Theories.\<close>
  \<^item> \<open>RG_Prelude\<close>: generic lemmas and the locale \<open>rank_statistic\<close> (the interface of an order statistic picked by an index).
  \<^item> \<open>Py_Str\<close>, \<open>Py_Regex\<close>, \<open>Py_Base\<close>: Python's strings, the part of \<^verbatim>\<open>re\<close> the programs use, exceptions, printed output and decoded JSON.
    A function that prints and may raise is an \<open>'a io\<close>: what was printed, and the result or the exception.
  \<^item> \<open>Log_Utils\<close>: \<^verbatim>\<open>_log_utils.py\<close>, and \<^verbatim>\<open>_Tee\<close> and the log file's name, which every demo repeats.
  \<^item> \<open>Sse_Client\<close>: the loops over a server-sent-event stream (\<^verbatim>\<open>measure_ttft\<close>, \<^verbatim>\<open>send\<close>, \<^verbatim>\<open>stream_chat\<close>, \<^verbatim>\<open>chat_stream_ttft\<close>).
  \<^item> \<open>Load_Test\<close>: \<^verbatim>\<open>benchmark_ttft\<close>, \<^verbatim>\<open>benchmark_throughput\<close> and the workload of \<^verbatim>\<open>enterprise_qa_demo.py\<close>.
  \<^item> \<open>Gpu_Checks\<close>, \<open>Demo_Checks\<close>: the verification steps of the demos.
  \<^item> \<open>Demos\<close>: the six programs, each \<^verbatim>\<open>main\<close> composed of the parts above as the code composes them; they act on a \<open>world\<close> (environment
    variables and files).
  \<^item> \<open>Demo_Setup\<close>: the same programs as scripts: their imports with the exit when one is missing, the addresses from the environment, the log
    file and the doubled standard output, then \<^verbatim>\<open>main\<close>.
  \<^item> \<open>Real_Engine\<close>: \<^verbatim>\<open>run_real.py\<close>, as actions on a \<open>fleet\<close> that also leave a log of events (processes started and signalled, requests sent).
  \<^item> \<open>Plot\<close>: \<^verbatim>\<open>plot.py\<close>: the data of its figures, and which it saves. \<open>Long_Context\<close>: \<^verbatim>\<open>benchmark_long_context.py\<close>.
  \<^item> \<open>Breaker\<close>: \<^verbatim>\<open>breaker.go\<close>, every method as an atomic function of the breaker and of the clock readings it makes; its interfaces are the
    locales \<open>machine\<close> (a step relation and its invariant), \<open>gate\<close> and \<open>strict_gate\<close> (asking and passing).
  \<^item> \<open>Router\<close>: \<^verbatim>\<open>router.go\<close>, every critical section under the router's lock as one function. \<^verbatim>\<open>Acquire\<close> is split where it blocks: \<open>acq_try\<close> up
    to the \<^verbatim>\<open>select\<close>, \<open>acq_event\<close> for each wake-up. A node's gate is an instance of \<open>gate\<close>.
  \<^item> \<open>Router_Admission\<close>: the gateway as a step relation over all interleavings of acquiring, waking, and giving back (\<open>rstep\<close>), its invariant, and
    an abstract allocator it refines; \<open>Acquire\<close> as a whole, over a script of wake-ups.
  \<^item> \<open>Router_Choice\<close>: which node is chosen: the rendezvous ranking, the load bound, the placement memory.
  \<^item> \<open>Gw_Config\<close>: \<^verbatim>\<open>config.go\<close> (decoding over the defaults, \<^verbatim>\<open>Validate\<close>) and the part of \<^verbatim>\<open>main.go\<close> that makes a router of it.
  \<^item> \<open>Handler\<close>: \<^verbatim>\<open>chat.go\<close> and \<^verbatim>\<open>direct.go\<close>; what the handler needs of the router is the locale \<open>acquirer\<close>, interpreted on \<open>Acquire\<close>.
  \<^item> \<open>Health\<close>: \<^verbatim>\<open>health.go\<close>, the probing rounds.
  \<^item> \<open>Gateway\<close>: \<^verbatim>\<open>main.go\<close> and package \<^verbatim>\<open>metrics\<close>: the start, the routes and what each of them does, the gauges and their registration. The
    observations a request makes are part of \<open>Handler\<close>'s state.
  \<^item> \<open>Mock_Worker\<close>: \<^verbatim>\<open>internal/mock/worker.go\<close>, the simulated worker with its prefix cache, its faults and its stream; overlapping requests are a step
    relation over the three times a request takes the lock.
  \<^item> \<open>Load_Gen\<close>: \<^verbatim>\<open>cmd/loadgen\<close> and \<^verbatim>\<open>internal/stats\<close>: one request with the reading of its stream, the summary, the files; its percentile is a
    \<open>rank_statistic\<close>.
  \<^item> \<open>Bench_Flow\<close>: the simulated benchmark end to end: workers, handler, load generator, plots.
  \<^item> This theory: the places where the programs and the gateway meet.

  \<^bold>\<open>What is shown.\<close>
  For the programs: no demo does anything without a gateway, three of them reach the log collection whatever the workers answer, the fourth
  does not; the checks confirm a parallelism only on the evidence they document; the reports count every request, and do not depend on the
  order in which threads finish; a benchmark run starts cold, sends exactly its workload, and leaves no process behind. For the breaker: the
  probe budget is exact and only the documented transitions occur along every interleaving of its methods; the cool-down doubles up to its cap.
  For the router: no interleaving exceeds a node's concurrency or the queue's length, or leaks a slot; a free node is never refused; a request
  goes to the best-ranked node below the load bound; removing a node moves only that node's prefixes; the placement memory is consistent and
  sticky. For the handler: a client never sees bytes of two attempts, no node is tried twice, every lease is given back once, every request is
  counted under one outcome, and the metrics of its attempts and retries add up. For the whole gateway: only the chat routes reach the nodes, the
  gauges tell the truth without changing anything, and it starts exactly with distinct instances. A configuration that loads is typed and
  valid. For the simulated benchmark: the workers' cache is an exact LRU cache, the load generator counts a request that failed over as
  complete and never an interrupted one, and the plots show what it wrote. Several theorems state where the code departs from its
  documentation or intent.

  \<^bold>\<open>Conventions and bounds.\<close>
  Floating-point numbers are reals. What the outside world answers (HTTP responses, subprocesses, the clock, the order in which threads
  finish, the JSON decoder, \<^verbatim>\<open>time.ParseDuration\<close>, SHA-256, numpy's percentile) is an argument, mostly a field of an environment record;
  theorems hold for every value of it unless they say otherwise. A \<^verbatim>\<open>print\<close> of the demos is kept as its format and its arguments, in order; in
  the formats, characters outside ASCII are replaced. Strings are over the first 256 code points. The
  polling loop of \<^verbatim>\<open>wait_http\<close> is the only loop whose end depends on the clock: it has fuel \<open>2 * timeout + 1\<close>, which is enough since every
  round sleeps half a second (\<open>wait_http_returns\<close>). Durations of the gateway are nanoseconds as \<open>int\<close>, with shifts and doublings wrapped to 64
  bits; hashes are \<open>64 word\<close>s. One critical section of the router reads the clock once. Nodes with equal hash scores keep their order of
  registration. The timers of the queue and of the affinity wait are not numbers of the model: their arms of the \<^verbatim>\<open>select\<close> may fire at any
  time, so the theorems hold for every timeout. The eviction loop of the placement memory has the length of the list as fuel, since every round removes an entry.

  \<^bold>\<open>Not modelled.\<close>
  The drawing calls of matplotlib, argument and flag parsing, the progress lines and the Markdown summary of \<^verbatim>\<open>run_real.py\<close>, the Prometheus client itself and the log lines of the gateway, its signals and
  shutdown, the random choice of personas by the clients of the load generator, and the shell, compose and build files: they are I/O or glue.
\<close>

section \<open>The benchmark's configuration and the gateway\<close>

lemma decode_instances:
  assumes "int (slots a) < 2 ^ 63" "\<forall>i \<in> set is. WORKER_BASE_PORT + int i < 2 ^ 63"
  shows "decode_list instance_setters instance0
      (map (\<lambda>i. JObj [(''group'', JStr ''local''), (''host'', JStr ''127.0.0.1''), (''port'', JInt (WORKER_BASE_PORT + int i)),
                       (''max_concurrent'', JInt (int (slots a)))]) is) =
    Some (map (\<lambda>i. \<lparr>inst_group = ''local'', inst_role = [], inst_host = ''127.0.0.1'', inst_port = WORKER_BASE_PORT + int i,
                       inst_max = int (slots a)\<rparr>) is)"
  using assms(2)
proof (induction "is")
  case (Cons i "is")
  have "- (2 ^ 63) \<le> WORKER_BASE_PORT + int i" "- (2 ^ 63) \<le> int (slots a)" by (simp_all add: WORKER_BASE_PORT_def)
  with Cons assms(1) show ?case
    by (simp add: instance_setters_def instance0_def set_to_def str_simps)
qed simp

lemma show_port_inject: "show_int (WORKER_BASE_PORT + int i) = show_int (WORKER_BASE_PORT + int j) \<Longrightarrow> i = j"
  by (auto simp: show_int_def WORKER_BASE_PORT_def dest: show_nat_inject)

definition bench_config :: "args \<Rightarrow> routing \<Rightarrow> gw_config" where
  "bench_config a rt = default_config\<lparr>gw_port := GATEWAY_PORT, default_model := ''default'', max_concurrent_per_node := int (slots a),
     sglang_instances := map (\<lambda>i. \<lparr>inst_group = ''local'', inst_role = [], inst_host = ''127.0.0.1'', inst_port = WORKER_BASE_PORT + int i,
                       inst_max = int (slots a)\<rparr>) [0..<workers a], gw_routing := rt\<rparr>"

definition bench_routing :: "string \<Rightarrow> int \<Rightarrow> routing" where
  "bench_routing policy d = \<lparr>bounded_load_factor = 1.25, affinity_floor = 4,
     affinity_wait_ns = (if policy \<in> {''upgraded_wait'', ''upgraded_place_wait''} then d else 0),
     placement_size = (if policy \<in> {''upgraded_place'', ''upgraded_place_wait''} then 1024 else 0)\<rparr>"

lemma decode_bench:
  assumes "int (slots a) < 2 ^ 63" "int (workers a) < 2 ^ 62" "dur (affinity_wait a) = Some d"
  shows "decode_struct (config_setters dur) (config_json a (routing_for policy a)) default_config = Some (bench_config a (bench_routing policy d))"
proof -
  have w: "\<forall>i \<in> set [0..<workers a]. WORKER_BASE_PORT + int i < 2 ^ 63" using assms(2) by (auto simp: WORKER_BASE_PORT_def)
  note [simp] = decode_instances [OF assms(1) w]
  consider "policy = ''upgraded_wait''" | "policy = ''upgraded_place''" | "policy = ''upgraded_place_wait''" | "routing_for policy a = None"
    "policy \<notin> {''upgraded_wait'', ''upgraded_place'', ''upgraded_place_wait''}"
    by (auto simp: routing_for_def)
  then show ?thesis
  proof cases
    case 4
    with assms(1) show ?thesis
      by (simp add: config_json_def config_setters_def set_to_def str_simps GATEWAY_PORT_def bench_config_def bench_routing_def default_config_def)
  qed (use assms(1,3) in \<open>simp_all add: config_json_def routing_for_def config_setters_def routing_setters_def nested_def set_to_def as_dur_def
        str_simps GATEWAY_PORT_def bench_config_def bench_routing_def default_config_def\<close>)
qed


lemma bench_valid: "0 \<le> d \<Longrightarrow> Validate (bench_config a (bench_routing policy d)) = None"
  by (simp add: Validate_None valid_config_def bench_config_def bench_routing_def default_config_def DefaultReliability_def ms_def)



section \<open>The health endpoints and the demos' mode check\<close>

definition fetched :: "decoder \<Rightarrow> int \<times> string \<Rightarrow> call" where
  "fetched dec answer = Inr \<lparr>status_code = fst answer, json_of = dec (snd answer), body_text = snd answer\<rparr>"

text \<open>The gateway passes the check every demo makes of it: with a decoder that reads the body of \<^verbatim>\<open>/health\<close>, the mode is
\<^verbatim>\<open>direct\<close> and no demo exits.\<close>

theorem gateway_health_accepted:
  assumes "dec (snd health_endpoint) = Inr (JObj [(''status'', JStr ''ok''), (''mode'', JStr ''direct'')])"
  shows "result (check_gateway (fetched dec health_endpoint)) = Inr ()
    \<and> result (pd_check_gateway (fetched dec health_endpoint)) = Inr ()
    \<and> result (check_mode url (fetched dec health_endpoint)) = Inr ()
    \<and> result (enterprise_check_mode (fetched dec health_endpoint)) = Inr ()"
proof -
  have "gateway_mode (fetched dec health_endpoint) = Inr (JStr ''direct'')"
    using assms by (simp add: gateway_mode_def fetched_def)
  then show ?thesis
    by (simp add: pd_check_gateway_def check_mode_def enterprise_check_mode_def check_gateway_def result_io_try)
qed

theorem gateway_health_accepted_witness:
  "result (check_mode ''http://localhost:8080'' (fetched (\<lambda>s. if s = snd health_endpoint then Inr (JObj [(''status'', JStr ''ok''), (''mode'', JStr ''direct'')])
     else Inl JSONDecodeErr) health_endpoint)) = Inr ()"
  using gateway_health_accepted [of "\<lambda>s. if s = snd health_endpoint then Inr (JObj [(''status'', JStr ''ok''), (''mode'', JStr ''direct'')])
     else Inl JSONDecodeErr"] by simp


lemma any_available_iff: "fst (any_available now ns) \<longleftrightarrow> (\<exists>n \<in> set ns. EntryPoint n \<and> fst (node_available now n))"
  by (induction ns) (auto split: prod.splits bool.splits)

text \<open>C40. Readiness is admission: \<^verbatim>\<open>/readyz\<close> answers 503 exactly when a request without a target group, arriving at that moment, would be
refused with \<^verbatim>\<open>ErrNoNode\<close>; when it answers 200 such a request gets a node or is queued, or is refused because the queue is full.\<close>

theorem readyz_means_admission:
  "(fst (readyz_endpoint now r) = 503 \<longleftrightarrow> fst (acq_try now (new_request r prefixHash [] EntryPoint []) r) = Failed ErrNoNode)
   \<and> (fst (readyz_endpoint now r) = 200 \<longleftrightarrow>
       (case fst (acq_try now (new_request r prefixHash [] EntryPoint []) r) of Leased l \<Rightarrow> True | Waits q \<Rightarrow> True | Failed e \<Rightarrow> e = ErrQueueFull))"
proof -
  let ?C = "cands_of now (hashString prefixHash) [] EntryPoint [] r" and ?h = "AffinityWait (opts r) > 0"
  have c: "fst (AnyAvailable now r) \<longleftrightarrow> ?C \<noteq> []"
    by (auto simp: AnyAvailable_def any_available_iff cands_of_def is_cand_def eligible_def filter_empty_conv in_set_conv_nth Bex_def
        case_prod_beta)
  show ?thesis
  proof (cases "?C = []")
    case True
    then show ?thesis using c by (simp add: readyz_endpoint_def acq_try_def new_request_def tryPick_parts)
  next
    case False
    obtain cs r2 where p: "tryPick now (hashString prefixHash) [] EntryPoint [] ?h r =
      (let limit = pick_limit now [] EntryPoint [] r
       in if ?h \<and> busy limit r2 (hd cs) then (Inl errPreferredBusy, r2)
          else case find (fits limit r2) cs of
                 Some c \<Rightarrow> grant_node now (fst c) r2
               | None \<Rightarrow> (case least_loaded r2 None cs of Some j \<Rightarrow> grant_node now j r2 | None \<Rightarrow> (Inl errAtCapacity, r2)))"
      by (rule tryPick_ready [OF False, of ?h])
    obtain res r3 where t: "tryPick now (hashString prefixHash) [] EntryPoint [] ?h r = (res, r3)" by force
    have "fst (tryPick now (hashString prefixHash) [] EntryPoint [] ?h r) \<in> {Inl errPreferredBusy, Inl errAtCapacity} \<union> range Inr"
      by (auto simp: p Let_def split: option.splits)
    then consider "res = Inl errPreferredBusy" | "res = Inl errAtCapacity" | l where "res = Inr l" using t by auto
    then show ?thesis
      by cases (use False c t in \<open>simp_all add: readyz_endpoint_def acq_try_def new_request_def Let_def\<close>)
  qed
qed

section \<open>A broken stream and the interactive demo\<close>

lemma first_line: "CHR 0x0A \<notin> set l \<Longrightarrow> takeWhile (\<lambda>c. c \<noteq> CHR 0x0A) (l @ CHR 0x0A # s) = l"
  by (induction l) auto

lemma unlines_inject:
  "\<forall>l \<in> set ls. CHR 0x0A \<notin> set l \<Longrightarrow> \<forall>l \<in> set ks. CHR 0x0A \<notin> set l \<Longrightarrow> unlines ls = unlines ks \<Longrightarrow> ls = ks"
proof (induction ls arbitrary: ks)
  case Nil
  then show ?case by (cases ks) (auto simp: unlines_def)
next
  case (Cons l ls)
  obtain k ks' where k: "ks = k # ks'" using Cons.prems(3) by (cases ks) (auto simp: unlines_def)
  have e: "l @ CHR 0x0A # unlines ls = k @ CHR 0x0A # unlines ks'" using Cons.prems(3) by (simp add: k unlines_def)
  have "l = takeWhile (\<lambda>c. c \<noteq> CHR 0x0A) (l @ CHR 0x0A # unlines ls)" using Cons.prems(1) by (simp add: first_line)
  also have "\<dots> = k" unfolding e using Cons.prems(2) k by (simp add: first_line)
  finally have "l = k" .
  moreover from this e have "unlines ls = unlines ks'" by simp
  then have "ls = ks'" using Cons.prems(1,2) k by (intro Cons.IH) simp_all
  ultimately show ?case using k by simp
qed


definition received :: "(string \<Rightarrow> real) \<Rightarrow> string list \<Rightarrow> sse_body" where
  "received tm ls = \<lparr>sse_status = 200, sse_text = unlines ls, sse_lines = map (\<lambda>l. (Inr l, tm l)) ls, sse_end = Finished\<rparr>"

lemma event_line: "sse_classify (''data: '' @ interrupted_json) = Data interrupted_json"
  by code_simp

lemma event_no_break: "CHR 0x0A \<notin> set interrupted_json"
  by code_simp



definition event_dec :: decoder where
  "event_dec s = (if s = interrupted_json then Inr (JObj [(''error'', JNull)]) else Inl JSONDecodeErr)"

definition broken_at :: "string \<Rightarrow> hstate" where
  "broken_at part = fst (relay ''n'' 1 dead 200 ''text/event-stream'' [''data: x'' @ [CHR 0x0A], part] ReadErr hstate0)"

lemma broken_written:
  "concat (written (broken_at [])) = unlines [''data: x'', ''data: '' @ interrupted_json, []]"
  "concat (written (broken_at ''data: {'')) = unlines [''data: x'', ''data: {data: '' @ interrupted_json, []]"
  by code_simp+

lemma event_dec_values:
  "event_dec ''x'' = Inl JSONDecodeErr" "event_dec (strip (drop 5 ''data: {'' @ ''data: '' @ interrupted_json)) = Inl JSONDecodeErr"
  "sse_classify ''data: x'' = Data ''x''"
  by code_simp+


end
